(* ===== verification/Felucca_Prelude.thy ===== *)
theory Felucca_Prelude
  imports Main "HOL-Library.Word"
begin

text \<open>
  Shared vocabulary of the development: names for the machine integers the Rust
  sources use, the ASCII classifiers and the string routines of the Rust standard
  library that several components call (\<open>split\<close>, \<open>find\<close>, \<open>from_str\<close> for unsigned
  integers, decimal and hexadecimal formatting), and the generic list lemmas the
  component proofs rest on.  A Rust \<open>&str\<close> is the list of its UTF-8 bytes, so one
  HOL \<open>char\<close> is one byte.
\<close>

unbundle bit_operations_syntax

named_theorems ascii_defs \<open>unfolding of the ASCII classifiers\<close>

subsection \<open>Machine integers and results\<close>

type_synonym u8 = "8 word"
type_synonym u16 = "16 word"
type_synonym u32 = "32 word"
type_synonym u64 = "64 word"

text \<open>\<open>Result<T, E>\<close>: \<open>Inl\<close> is the error, \<open>Inr\<close> the value.\<close>

type_synonym ('e, 'a) result = "'e + 'a"

definition is_err :: "('e, 'a) result \<Rightarrow> bool" where
  "is_err r = (case r of Inl _ \<Rightarrow> True | Inr _ \<Rightarrow> False)"

definition result_bind :: "('e, 'a) result \<Rightarrow> ('a \<Rightarrow> ('e, 'b) result) \<Rightarrow> ('e, 'b) result" where
  "result_bind r f = (case r of Inl e \<Rightarrow> Inl e | Inr a \<Rightarrow> f a)"

subsection \<open>ASCII classifiers of \<open>u8\<close> and \<open>char\<close>\<close>

abbreviation byte :: "char \<Rightarrow> nat" where
  "byte c \<equiv> of_char c"

definition is_ascii_digit :: "char \<Rightarrow> bool" where
  [ascii_defs]: "is_ascii_digit c = (48 \<le> byte c \<and> byte c \<le> 57)"

definition is_ascii_lowercase :: "char \<Rightarrow> bool" where
  [ascii_defs]: "is_ascii_lowercase c = (97 \<le> byte c \<and> byte c \<le> 122)"

definition is_ascii_uppercase :: "char \<Rightarrow> bool" where
  [ascii_defs]: "is_ascii_uppercase c = (65 \<le> byte c \<and> byte c \<le> 90)"

definition is_ascii_alphanumeric :: "char \<Rightarrow> bool" where
  [ascii_defs]: "is_ascii_alphanumeric c
     = (is_ascii_digit c \<or> is_ascii_lowercase c \<or> is_ascii_uppercase c)"

definition is_ascii_hexdigit :: "char \<Rightarrow> bool" where
  [ascii_defs]: "is_ascii_hexdigit c
     = (is_ascii_digit c \<or> 97 \<le> byte c \<and> byte c \<le> 102 \<or> 65 \<le> byte c \<and> byte c \<le> 70)"

subsection \<open>String routines of the Rust standard library\<close>

text \<open>\<open>s.split(d)\<close> for a character delimiter: always at least one piece.\<close>

fun split_on :: "char \<Rightarrow> string \<Rightarrow> string list" where
  "split_on d [] = [[]]"
| "split_on d (c # cs)
     = (if c = d then [] # split_on d cs
        else case split_on d cs of [] \<Rightarrow> [[c]] | w # ws \<Rightarrow> (c # w) # ws)"

text \<open>\<open>s.find(d)\<close> followed by the two slices around the delimiter.\<close>

fun split_once :: "char \<Rightarrow> string \<Rightarrow> (string \<times> string) option" where
  "split_once d [] = None"
| "split_once d (c # cs)
     = (if c = d then Some ([], cs)
        else map_option (\<lambda>(a, b). (c # a, b)) (split_once d cs))"

text \<open>\<open>slice.join(d)\<close>.\<close>

fun join_with :: "string \<Rightarrow> string list \<Rightarrow> string" where
  "join_with d [] = []"
| "join_with d [w] = w"
| "join_with d (w # v # ws) = w @ d @ join_with d (v # ws)"

definition digit_val :: "char \<Rightarrow> nat" where
  "digit_val c = byte c - 48"

definition digit_char :: "nat \<Rightarrow> char" where
  "digit_char n = char_of (48 + n)"

fun parse_digits :: "nat \<Rightarrow> string \<Rightarrow> nat option" where
  "parse_digits acc [] = Some acc"
| "parse_digits acc (c # cs)
     = (if is_ascii_digit c then parse_digits (acc * 10 + digit_val c) cs else None)"

text \<open>
  \<open><uN as FromStr>::from_str\<close>: an optional leading \<open>+\<close>, then at least one decimal digit,
  leading zeros allowed, and the value below the type's bound.
\<close>

definition parse_uint :: "nat \<Rightarrow> string \<Rightarrow> nat option" where
  "parse_uint bound s
     = (let ds = (case s of [] \<Rightarrow> [] | c # cs \<Rightarrow> if c = CHR ''+'' then cs else s)
        in if ds = [] then None
           else case parse_digits 0 ds of
                  None \<Rightarrow> None
                | Some n \<Rightarrow> if n < bound then Some n else None)"

text \<open>\<open>format!("{}", n)\<close> for an unsigned integer.\<close>

fun show_nat :: "nat \<Rightarrow> string" where
  "show_nat n = (if n < 10 then [digit_char n]
                 else show_nat (n div 10) @ [digit_char (n mod 10)])"

declare show_nat.simps [simp del]

text \<open>Lower-case hexadecimal: one digit, and \<open>format!("{:02x}", b)\<close> of a byte.\<close>

definition hex_digit :: "nat \<Rightarrow> char" where
  "hex_digit n = (if n < 10 then char_of (48 + n) else char_of (87 + n))"

definition hex2 :: "nat \<Rightarrow> string" where
  "hex2 b = [hex_digit (b div 16), hex_digit (b mod 16)]"

text \<open>
  \<open>str::trim\<close>: the UTF-8 encodings of the characters with the Unicode property White_Space
  are dropped at both ends.
\<close>

definition whitespace :: "string list" where
  "whitespace
     = map (\<lambda>n. [char_of n]) [9, 10, 11, 12, 13, 32 :: nat]
       @ map (map char_of)
           ([[0xC2, 0x85], [0xC2, 0xA0], [0xE1, 0x9A, 0x80]]
            @ map (\<lambda>n. [0xE2, 0x80, n]) [0x80 ..< 0x8B]
            @ [[0xE2, 0x80, 0xA8], [0xE2, 0x80, 0xA9], [0xE2, 0x80, 0xAF], [0xE2, 0x81, 0x9F],
               [0xE3, 0x80, 0x80 :: nat]])"

fun strip_prefix :: "string \<Rightarrow> string \<Rightarrow> string option" where
  "strip_prefix [] s = Some s"
| "strip_prefix (p # ps) [] = None"
| "strip_prefix (p # ps) (c # cs) = (if p = c then strip_prefix ps cs else None)"

fun trim_fuel :: "string list \<Rightarrow> nat \<Rightarrow> string \<Rightarrow> string" where
  "trim_fuel ws 0 s = s"
| "trim_fuel ws (Suc n) s
     = (case List.map_filter (\<lambda>w. strip_prefix w s) ws of [] \<Rightarrow> s | t # _ \<Rightarrow> trim_fuel ws n t)"

text \<open>Every step drops at least one byte, so the length of the string is enough fuel.\<close>

definition trim :: "string \<Rightarrow> string" where
  "trim s = (let t = trim_fuel whitespace (length s) s
             in rev (trim_fuel (map rev whitespace) (length t) (rev t)))"

subsection \<open>JSON values\<close>

text \<open>\<open>serde_json::Value\<close> as the sources build it with \<open>json!\<close>; numbers are integers.\<close>

datatype json =
    JNull
  | JBool bool
  | JNum int
  | JStr string
  | JArr "json list"
  | JObj "(string \<times> json) list"

subsection \<open>Lemmas on splitting and joining\<close>

lemma split_on_not_Nil [simp]: "split_on d s \<noteq> []"
  by (induction s) (auto split: list.splits)

lemma split_on_no_delim [simp]: "d \<notin> set s \<Longrightarrow> split_on d s = [s]"
  by (induction s) auto

lemma split_on_append_delim:
  "d \<notin> set w \<Longrightarrow> split_on d (w @ d # s) = w # split_on d s"
  by (induction w) auto

lemma split_on_pieces: "w \<in> set (split_on d s) \<Longrightarrow> d \<notin> set w"
  by (induction s arbitrary: w) (auto split: if_splits list.splits)

lemma split_on_cover: "c \<in> set s \<Longrightarrow> c = d \<or> (\<exists>w \<in> set (split_on d s). c \<in> set w)"
proof (induction s)
  case (Cons a s)
  obtain w ws where "split_on d s = w # ws"
    using split_on_not_Nil by (meson list.exhaust)
  with Cons show ?case by (cases "a = d") auto
qed simp

lemma join_split_on [simp]: "join_with [d] (split_on d s) = s"
proof (induction s)
  case (Cons c cs)
  obtain w ws where ws: "split_on d cs = w # ws"
    using split_on_not_Nil by (meson list.exhaust)
  with Cons show ?case by (cases ws) auto
qed simp

lemma split_on_join:
  assumes "ws \<noteq> []" "\<forall>w \<in> set ws. d \<notin> set w"
  shows "split_on d (join_with [d] ws) = ws"
  using assms
proof (induction ws rule: induct_list012)
  case (3 x y zs)
  then show ?case by (simp add: split_on_append_delim)
qed auto

lemma split_once_no_delim: "split_once d s = None \<longleftrightarrow> d \<notin> set s"
  by (induction s) auto

lemma split_once_append [simp]:
  "d \<notin> set w \<Longrightarrow> split_once d (w @ d # s) = Some (w, s)"
  by (induction w) auto

lemma split_once_SomeD:
  "split_once d s = Some (a, b) \<Longrightarrow> s = a @ d # b \<and> d \<notin> set a"
  by (induction s arbitrary: a) (auto split: if_splits)

subsection \<open>Lemmas on decimal numbers\<close>

lemma code_less: "byte c < 256"
  by simp

lemma code_char_of [simp]: "n < 256 \<Longrightarrow> byte (char_of n) = n"
  by simp

lemma digit_char_numeral [simp]:
  "digit_char 0 = CHR ''0''" "digit_char (Suc 0) = CHR ''1''" "digit_char 1 = CHR ''1''"
  "digit_char 2 = CHR ''2''" "digit_char 3 = CHR ''3''" "digit_char 4 = CHR ''4''"
  "digit_char 5 = CHR ''5''" "digit_char 6 = CHR ''6''" "digit_char 7 = CHR ''7''"
  "digit_char 8 = CHR ''8''" "digit_char 9 = CHR ''9''"
  by (simp_all add: digit_char_def char_of_def bit_0)

lemma digit_val_char [simp]: "n < 10 \<Longrightarrow> digit_val (digit_char n) = n"
  by (simp add: digit_val_def digit_char_def)

lemma is_ascii_digit_char [simp]: "n < 10 \<Longrightarrow> is_ascii_digit (digit_char n)"
  by (simp add: is_ascii_digit_def digit_char_def)

lemma digit_char_val [simp]: "is_ascii_digit c \<Longrightarrow> digit_char (digit_val c) = c"
  by (simp add: is_ascii_digit_def digit_char_def digit_val_def)

lemma digit_val_less [simp]: "is_ascii_digit c \<Longrightarrow> digit_val c < 10"
  by (auto simp: is_ascii_digit_def digit_val_def)

lemma parse_digits_append:
  "parse_digits a (xs @ ys)
     = (case parse_digits a xs of None \<Rightarrow> None | Some b \<Rightarrow> parse_digits b ys)"
  by (induction xs arbitrary: a) auto

lemma show_nat_digits: "list_all is_ascii_digit (show_nat n)"
proof (induction n rule: show_nat.induct)
  case (1 n)
  then show ?case by (subst show_nat.simps) auto
qed

lemma show_nat_not_Nil [simp]: "show_nat n \<noteq> []"
  by (subst show_nat.simps) simp

lemma parse_digits_show [simp]: "parse_digits 0 (show_nat n) = Some n"
proof (induction n rule: show_nat.induct)
  case (1 n)
  then show ?case by (subst show_nat.simps) (auto simp: parse_digits_append)
qed

lemma show_nat_inj: "show_nat m = show_nat n \<Longrightarrow> m = n"
  by (metis option.inject parse_digits_show)

lemma digit_not_char:
  "is_ascii_digit c \<Longrightarrow> c \<noteq> CHR ''+''" "is_ascii_digit c \<Longrightarrow> c \<noteq> CHR ''.''"
  "is_ascii_digit c \<Longrightarrow> c \<noteq> CHR ''/''" "is_ascii_digit c \<Longrightarrow> c \<noteq> CHR ''-''"
  by (auto simp: is_ascii_digit_def)

lemma show_nat_mem: "c \<in> set (show_nat n) \<Longrightarrow> is_ascii_digit c"
  using show_nat_digits by (auto simp: list_all_iff)

lemma show_nat_no_dot [simp]: "CHR ''.'' \<notin> set (show_nat n)" "CHR ''/'' \<notin> set (show_nat n)"
  using digit_not_char show_nat_mem by blast+

lemma parse_uint_show [simp]: "n < b \<Longrightarrow> parse_uint b (show_nat n) = Some n"
proof -
  assume "n < b"
  obtain c cs where "show_nat n = c # cs"
    using show_nat_not_Nil by (meson list.exhaust)
  moreover have "c \<noteq> CHR ''+''"
    using calculation show_nat_mem digit_not_char(1) by (metis list.set_intros(1))
  ultimately show ?thesis
    using \<open>n < b\<close> parse_digits_show [of n] by (simp add: parse_uint_def)
qed

lemma parse_uint_less: "parse_uint b s = Some n \<Longrightarrow> n < b"
  by (auto simp: parse_uint_def Let_def split: if_splits option.splits)

lemma show_nat_hd: "hd (show_nat n) = CHR ''0'' \<Longrightarrow> n = 0"
proof (induction n rule: show_nat.induct)
  case (1 n)
  show ?case
  proof (cases "n < 10")
    case True
    then have "digit_val (CHR ''0'') = n"
      using 1(2) digit_val_char [of n] by (simp add: show_nat.simps [of n])
    then show ?thesis by (simp add: digit_val_def)
  next
    case False
    then show ?thesis using 1 by (auto simp: show_nat.simps [of n])
  qed
qed

lemma show_nat_length_le3: "n < 1000 \<Longrightarrow> length (show_nat n) \<le> 3"
  by (simp add: show_nat.simps [of n] show_nat.simps [of "n div 10"]
        show_nat.simps [of "n div 10 div 10"])

subsection \<open>Lemmas on trimming\<close>

lemma upt_whitespace:
  "[0x80 ..< 0x8B] = [0x80, 0x81, 0x82, 0x83, 0x84, 0x85, 0x86, 0x87, 0x88, 0x89, 0x8A :: nat]"
  by (simp add: upt_rec)

lemma whitespace_bytes:
  "list_all (\<lambda>w. w \<noteq> [] \<and> \<not> is_ascii_alphanumeric (hd w) \<and> \<not> is_ascii_alphanumeric (last w)) whitespace"
  by (simp add: whitespace_def upt_whitespace ascii_defs)

lemma trim_fuel_alnum:
  assumes "is_ascii_alphanumeric c" "list_all (\<lambda>w. w \<noteq> [] \<and> \<not> is_ascii_alphanumeric (hd w)) ws"
  shows "trim_fuel ws n (c # cs) = c # cs"
proof -
  have "strip_prefix w (c # cs) = None" if "w \<in> set ws" for w
    using assms that by (cases w) (auto simp: list_all_iff)
  then have "List.map_filter (\<lambda>w. strip_prefix w (c # cs)) ws = []"
    by (simp add: List.map_filter_def)
  then show ?thesis by (cases n) simp_all
qed

lemma trim_alnum:
  assumes "s \<noteq> []" "is_ascii_alphanumeric (hd s)" "is_ascii_alphanumeric (last s)"
  shows "trim s = s"
proof -
  have a: "trim_fuel whitespace n s = s" for n
    using assms(1,2) trim_fuel_alnum [of "hd s" whitespace n "tl s"] whitespace_bytes
    by (auto simp: list_all_iff)
  obtain c cs where r: "rev s = c # cs"
    using assms(1) by (cases "rev s") auto
  have c: "c = last s" using hd_rev [of s] r by simp
  have "trim_fuel (map rev whitespace) n (rev s) = rev s" for n
  proof -
    have "list_all (\<lambda>w. w \<noteq> [] \<and> \<not> is_ascii_alphanumeric (hd w)) (map rev whitespace)"
      using whitespace_bytes by (auto simp: list_all_iff hd_rev)
    moreover have "is_ascii_alphanumeric c" using c assms(3) by simp
    ultimately show ?thesis unfolding r by (intro trim_fuel_alnum)
  qed
  then show ?thesis by (simp add: trim_def a)
qed

subsection \<open>Lemmas on words\<close>

lemma unat_mask:
  assumes "n \<le> LENGTH('a)"
  shows "unat (mask n :: 'a::len word) = 2 ^ n - 1"
proof -
  have "unat (take_bit n (- 1 :: 'a word)) = mask n"
    using assms by (simp only: unsigned_take_bit_eq unsigned_minus_1_eq_mask) (simp add: min_def)
  then show ?thesis
    by (simp only: take_bit_minus_one_eq_mask mask_eq_exp_minus_1 [where ?'a = nat])
qed

end
