(* ===== verification/Rust_Str.thy ===== *)
theory Rust_Str
  imports Felucca_Prelude
begin

text \<open>
  The methods of \<open>str\<close> that the agent uses beyond those of the prelude, on the UTF-8 bytes of
  the string.
\<close>

definition starts_with :: "string \<Rightarrow> string \<Rightarrow> bool" where
  "starts_with p s = (strip_prefix p s \<noteq> None)"

definition strip_suffix :: "string \<Rightarrow> string \<Rightarrow> string option" where
  "strip_suffix p s = map_option rev (strip_prefix (rev p) (rev s))"

fun contains_str :: "string \<Rightarrow> string \<Rightarrow> bool" where
  "contains_str p [] = (p = [])"
| "contains_str p (c # cs) = (starts_with p (c # cs) \<or> contains_str p cs)"

definition trim_end_matches :: "char \<Rightarrow> string \<Rightarrow> string" where
  "trim_end_matches c s = rev (dropWhile (\<lambda>d. d = c) (rev s))"

definition replace_char :: "char \<Rightarrow> string \<Rightarrow> string \<Rightarrow> string" where
  "replace_char c new s = concat (map (\<lambda>d. if d = c then new else [d]) s)"

text \<open>Splitting at the last occurrence of a character.\<close>

definition rsplit_once :: "char \<Rightarrow> string \<Rightarrow> (string \<times> string) option" where
  "rsplit_once c s = map_option (\<lambda>(b, a). (rev a, rev b)) (split_once c (rev s))"

text \<open>The first word of \<open>split_whitespace\<close>.\<close>

definition trim_start :: "string \<Rightarrow> string" where
  "trim_start s = trim_fuel whitespace (length s) s"

fun until_space :: "string \<Rightarrow> string" where
  "until_space [] = []"
| "until_space (c # cs)
     = (if list_ex (\<lambda>w. starts_with w (c # cs)) whitespace then [] else c # until_space cs)"

definition first_word :: "string \<Rightarrow> string option" where
  "first_word s = (let t = until_space (trim_start s) in if t = [] then None else Some t)"

text \<open>\<open>to_lowercase\<close> and \<open>to_ascii_lowercase\<close> agree on ASCII text.\<close>

definition ascii_lower :: "char \<Rightarrow> char" where
  "ascii_lower c = (if is_ascii_uppercase c then char_of (byte c + 32) else c)"

subsection \<open>Lemmas\<close>

lemma strip_prefix_Some: "strip_prefix p s = Some r \<longleftrightarrow> s = p @ r"
  by (induction p s rule: strip_prefix.induct) auto

lemma starts_with_iff: "starts_with p s \<longleftrightarrow> (\<exists>r. s = p @ r)"
  unfolding starts_with_def by (metis not_Some_eq strip_prefix_Some)

lemma strip_suffix_Some: "strip_suffix p s = Some r \<longleftrightarrow> s = r @ p"
proof -
  have "strip_suffix p s = Some r \<longleftrightarrow> strip_prefix (rev p) (rev s) = Some (rev r)"
    by (auto simp: strip_suffix_def)
  also have "\<dots> \<longleftrightarrow> rev s = rev (r @ p)" by (simp add: strip_prefix_Some)
  also have "\<dots> \<longleftrightarrow> s = r @ p" by (rule rev_is_rev_conv)
  finally show ?thesis .
qed

lemma contains_str_iff: "contains_str p s \<longleftrightarrow> (\<exists>a b. s = a @ p @ b)"
proof (induction s)
  case (Cons c cs)
  show ?case (is "?L \<longleftrightarrow> ?R")
  proof
    assume ?L
    then consider "starts_with p (c # cs)" | "contains_str p cs" by auto
    then show ?R
    proof cases
      case 1
      then show ?thesis by (metis append_Nil starts_with_iff)
    next
      case 2
      then show ?thesis using Cons.IH by (metis append_Cons)
    qed
  next
    assume ?R
    then obtain a b where "c # cs = a @ p @ b" by blast
    then consider "c # cs = p @ b" | a' where "cs = a' @ p @ b" by (cases a) auto
    then have "starts_with p (c # cs) \<or> contains_str p cs"
      using Cons.IH starts_with_iff [of p "c # cs"] by cases blast+
    then show ?L by simp
  qed
qed simp

lemma trim_end_matches_last: "trim_end_matches c s = [] \<or> last (trim_end_matches c s) \<noteq> c"
  using hd_dropWhile [of "\<lambda>d. d = c" "rev s"] by (auto simp: trim_end_matches_def last_rev)

lemma rsplit_once_Some: "rsplit_once c s = Some (a, b) \<Longrightarrow> s = a @ c # b \<and> c \<notin> set b"
proof -
  assume "rsplit_once c s = Some (a, b)"
  then have "split_once c (rev s) = Some (rev b, rev a)" by (auto simp: rsplit_once_def)
  then have "rev s = rev b @ c # rev a" "c \<notin> set (rev b)"
    using split_once_SomeD by fastforce+
  then have "rev (rev s) = rev (rev b @ c # rev a)" by simp
  then show ?thesis using \<open>c \<notin> set (rev b)\<close> by simp
qed

lemma rsplit_once_append [simp]: "c \<notin> set b \<Longrightarrow> rsplit_once c (a @ c # b) = Some (a, b)"
  by (simp add: rsplit_once_def)

end
