(* ===== verification/Ipalloc.thy ===== *)
theory Ipalloc
  imports Felucca_Prelude
begin

text \<open>
  Guest address allocation (\<open>agent/src/ipalloc.rs\<close>): the CIDR type and its address
  arithmetic on \<open>u32\<close>, the dotted-quad printer and parser, and the slot allocator.
  The locale \<open>slot_allocator\<close> is the contract the VM manager relies on; it is
  interpreted here on the bit vector of the code.
\<close>

subsection \<open>CIDR arithmetic\<close>

record Cidr =
  cidr_base :: u32
  cidr_prefix :: u8

text \<open>\<open>a << k\<close> on \<open>u32\<close> masks the shift distance to its low five bits.\<close>

definition shl32 :: "u32 \<Rightarrow> u32 \<Rightarrow> u32" where
  "shl32 a k = push_bit (unat (k AND 31)) a"

definition parse_ip4 :: "string \<Rightarrow> u32 option" where
  "parse_ip4 s
     = (let parts = split_on (CHR ''.'') s
        in if length parts \<noteq> 4 then None
           else fold (\<lambda>part out. case out of None \<Rightarrow> None | Some (o':: u32) \<Rightarrow>
                       (case parse_uint 256 part of None \<Rightarrow> None
                        | Some b \<Rightarrow> Some (shl32 o' 8 OR word_of_nat b)))
                  parts (Some 0))"

definition Cidr_parse :: "string \<Rightarrow> Cidr option" where
  "Cidr_parse s
     = (case split_once (CHR ''/'') s of None \<Rightarrow> None
        | Some (addr, len) \<Rightarrow>
          (case parse_ip4 addr of None \<Rightarrow> None
           | Some ip \<Rightarrow>
             (case parse_uint 256 len of None \<Rightarrow> None
              | Some p \<Rightarrow> if p > 32 then None
                        else Some \<lparr>cidr_base = ip, cidr_prefix = word_of_nat p\<rparr>)))"

definition cidr_mask :: "Cidr \<Rightarrow> u32" where
  "cidr_mask c = (if cidr_prefix c = 0 then 0
                  else shl32 (NOT 0) (32 - ucast (cidr_prefix c)))"

definition net_base :: "Cidr \<Rightarrow> u32" where
  "net_base c = cidr_base c AND cidr_mask c"

definition gateway :: "Cidr \<Rightarrow> u32" where
  "gateway c = net_base c + 1"

definition host_at :: "Cidr \<Rightarrow> u32 \<Rightarrow> u32" where
  "host_at c idx = net_base c + 2 + idx"

definition host_count :: "Cidr \<Rightarrow> u32" where
  "host_count c
     = (let host_bits = 32 - unat (cidr_prefix c);
            total = push_bit host_bits (1 :: u64)
        in if total \<le> 3 then 0 else ucast (total - 3))"

definition fmt_ip :: "u32 \<Rightarrow> string" where
  "fmt_ip v
     = show_nat (unat (drop_bit 24 v AND 0xff)) @ ''.''
       @ show_nat (unat (drop_bit 16 v AND 0xff)) @ ''.''
       @ show_nat (unat (drop_bit 8 v AND 0xff)) @ ''.''
       @ show_nat (unat (v AND 0xff))"

subsection \<open>The allocator\<close>

record Allocator =
  alloc_cidr :: Cidr
  alloc_used :: "bool list"

definition alloc_new :: "Cidr \<Rightarrow> Allocator" where
  "alloc_new c = \<lparr>alloc_cidr = c, alloc_used = replicate (unat (host_count c)) False\<rparr>"

fun claim_scan :: "nat \<Rightarrow> bool list \<Rightarrow> (nat \<times> bool list) option" where
  "claim_scan i [] = None"
| "claim_scan i (u # us)
     = (if \<not> u then Some (i, True # us)
        else map_option (\<lambda>(j, vs). (j, u # vs)) (claim_scan (Suc i) us))"

definition alloc_claim :: "Allocator \<Rightarrow> u32 option \<times> Allocator" where
  "alloc_claim a = (case claim_scan 0 (alloc_used a) of
                      None \<Rightarrow> (None, a)
                    | Some (i, us) \<Rightarrow> (Some (word_of_nat i), a\<lparr>alloc_used := us\<rparr>))"

definition alloc_reserve :: "Allocator \<Rightarrow> u32 \<Rightarrow> Allocator" where
  "alloc_reserve a idx
     = (let i = unat idx
        in if i < length (alloc_used a) then a\<lparr>alloc_used := (alloc_used a)[i := True]\<rparr> else a)"

definition alloc_free :: "Allocator \<Rightarrow> u32 \<Rightarrow> Allocator" where
  "alloc_free a idx
     = (let i = unat idx
        in if i < length (alloc_used a) then a\<lparr>alloc_used := (alloc_used a)[i := False]\<rparr> else a)"

definition alloc_ip_for :: "Allocator \<Rightarrow> u32 \<Rightarrow> string" where
  "alloc_ip_for a idx = fmt_ip (host_at (alloc_cidr a) idx)"

subsection \<open>Address arithmetic\<close>

definition wf_cidr :: "Cidr \<Rightarrow> bool" where
  "wf_cidr c = (cidr_prefix c \<le> 32)"

definition host_bits :: "Cidr \<Rightarrow> nat" where
  "host_bits c = 32 - unat (cidr_prefix c)"

lemma host_bits_le: "host_bits c \<le> 32"
  by (simp add: host_bits_def)

lemma shl32_small: "unat k < 32 \<Longrightarrow> shl32 a k = push_bit (unat k) a"
proof -
  assume k: "unat k < 32"
  have "k AND 31 = take_bit 5 k"
    by (simp add: take_bit_eq_mask mask_eq_exp_minus_1)
  then have "unat (k AND 31) = unat k"
    using k by (simp add: unsigned_take_bit_eq take_bit_nat_eq_self_iff)
  then show ?thesis by (simp add: shl32_def)
qed

lemma net_base_eq:
  assumes "wf_cidr c"
  shows "net_base c = push_bit (host_bits c) (drop_bit (host_bits c) (cidr_base c))"
proof (cases "cidr_prefix c = 0")
  case True
  then show ?thesis
    by (intro bit_word_eqI) (auto simp: net_base_def cidr_mask_def host_bits_def bit_simps)
next
  case False
  have p: "unat (cidr_prefix c) \<le> 32" "unat (cidr_prefix c) \<noteq> 0"
    using assms False by (auto simp: wf_cidr_def word_le_nat_alt unat_eq_zero)
  have e: "unat (ucast (cidr_prefix c) :: u32) = unat (cidr_prefix c)"
    using unsigned_less [of "cidr_prefix c", where ?'a = nat]
    by (simp add: unsigned_ucast_eq take_bit_nat_eq_self_iff)
  have u: "unat (32 - ucast (cidr_prefix c) :: u32) = host_bits c"
    using p e by (simp add: host_bits_def unat_sub word_le_nat_alt)
  have "cidr_mask c = push_bit (host_bits c) (NOT 0)"
    using False p u by (simp add: cidr_mask_def shl32_small host_bits_def)
  then show ?thesis
    by (intro bit_word_eqI) (auto simp: net_base_def bit_simps)
qed

lemma unat_net_base:
  assumes "wf_cidr c"
  shows "unat (net_base c) = unat (cidr_base c) div 2 ^ host_bits c * 2 ^ host_bits c"
proof -
  have "unat (cidr_base c) div 2 ^ host_bits c * 2 ^ host_bits c < 2 ^ 32"
    using unsigned_less [of "cidr_base c", where ?'a = nat]
    by (intro le_less_trans [OF div_times_less_eq_dividend]) simp
  then show ?thesis
    using assms
    by (simp add: net_base_eq unsigned_push_bit_eq unat_drop_bit_eq take_bit_nat_eq_self_iff
        push_bit_eq_mult [where ?'a = nat] drop_bit_eq_div [where ?'a = nat])
qed

lemma network_fits:
  assumes "wf_cidr c"
  shows "unat (net_base c) + 2 ^ host_bits c \<le> 2 ^ 32"
proof -
  let ?h = "2 ^ host_bits c :: nat" and ?b = "unat (cidr_base c)"
  have "(2::nat) ^ 32 = 2 ^ (32 - host_bits c) * ?h"
    using host_bits_le [of c] by (simp flip: power_add)
  moreover have "?b div ?h < 2 ^ (32 - host_bits c)"
    using unsigned_less [of "cidr_base c", where ?'a = nat] calculation
    by (simp add: less_mult_imp_div_less)
  then have "(?b div ?h + 1) * ?h \<le> 2 ^ (32 - host_bits c) * ?h"
    by (intro mult_le_mono1) simp
  ultimately show ?thesis
    using assms by (simp add: unat_net_base)
qed

lemma unat_host_count:
  assumes "wf_cidr c"
  shows "unat (host_count c) = 2 ^ host_bits c - 3"
proof -
  have le: "(2::nat) ^ host_bits c \<le> 2 ^ 32"
    using host_bits_le by (intro power_increasing) auto
  then have u: "unat (push_bit (host_bits c) (1 :: u64)) = 2 ^ host_bits c"
    using host_bits_le [of c]
    by (subst unsigned_push_bit_eq) (simp add: take_bit_nat_eq_self_iff)
  then show ?thesis
    using le
    by (auto simp: host_count_def host_bits_def [symmetric] Let_def word_le_nat_alt unat_sub
        unsigned_ucast_eq take_bit_nat_eq_self_iff)
qed

lemma unat_host_at:
  assumes "wf_cidr c" "idx < host_count c"
  shows "unat (host_at c idx) = unat (net_base c) + 2 + unat idx"
    and "unat idx + 3 < 2 ^ host_bits c"
proof -
  have i: "unat idx < 2 ^ host_bits c - 3"
    using assms by (simp add: word_less_nat_alt unat_host_count)
  then show "unat idx + 3 < 2 ^ host_bits c" by simp
  have "unat (net_base c) + 2 + unat idx < 2 ^ 32"
    using network_fits [OF assms(1)] i by simp
  then show "unat (host_at c idx) = unat (net_base c) + 2 + unat idx"
    by (simp add: host_at_def unat_word_ariths)
qed

lemma and_mask_eq:
  assumes "wf_cidr c"
  shows "unat (a AND cidr_mask c) = unat a div 2 ^ host_bits c * 2 ^ host_bits c"
proof -
  have "a AND cidr_mask c = net_base (c\<lparr>cidr_base := a\<rparr>)"
    by (simp add: net_base_def cidr_mask_def)
  then show ?thesis
    using assms unat_net_base [of "c\<lparr>cidr_base := a\<rparr>"] by (simp add: wf_cidr_def host_bits_def)
qed

lemma in_network:
  assumes "wf_cidr c" "unat a = unat (net_base c) + r" "r < 2 ^ host_bits c"
  shows "a AND cidr_mask c = net_base c"
proof -
  have "unat a div 2 ^ host_bits c = unat (cidr_base c) div 2 ^ host_bits c"
    using assms by (simp add: unat_net_base)
  then have "unat (a AND cidr_mask c) = unat (net_base c)"
    using assms(1) by (simp add: and_mask_eq unat_net_base)
  then show ?thesis by (simp add: word_unat_eq_iff)
qed

text \<open>The all-ones host address of the network.\<close>

definition broadcast :: "Cidr \<Rightarrow> u32" where
  "broadcast c = net_base c + mask (host_bits c)"

lemma unat_broadcast:
  assumes "wf_cidr c" "0 < host_count c"
  shows "unat (broadcast c) = unat (net_base c) + (2 ^ host_bits c - 1)"
proof -
  have "unat (mask (host_bits c) :: u32) = 2 ^ host_bits c - 1"
    by (simp add: unat_mask host_bits_le)
  then show ?thesis
    using network_fits [OF assms(1)]
    by (simp add: broadcast_def unat_word_ariths)
qed

lemma unat_gateway:
  assumes "wf_cidr c" "0 < host_count c"
  shows "unat (gateway c) = unat (net_base c) + 1"
proof -
  have "unat (net_base c) + 1 < 2 ^ 32"
    using network_fits [OF assms(1)] unat_host_at(2) [OF assms] by simp
  then show ?thesis by (simp add: gateway_def unat_word_ariths)
qed

lemma Cidr_parse_wf: "Cidr_parse s = Some c \<Longrightarrow> wf_cidr c"
  by (auto simp: Cidr_parse_def wf_cidr_def word_le_nat_alt unat_of_nat
      split: option.splits prod.splits if_splits)

subsection \<open>Dotted quads\<close>

lemma unat_octet: "unat (drop_bit k (v :: u32) AND 0xff) = unat v div 2 ^ k mod 256"
proof -
  have "drop_bit k v AND 0xff = take_bit 8 (drop_bit k v)"
    by (simp add: take_bit_eq_mask mask_eq_exp_minus_1)
  then show ?thesis
    by (simp add: unsigned_take_bit_eq unat_drop_bit_eq take_bit_eq_mod [where ?'a = nat]
        drop_bit_eq_div [where ?'a = nat])
qed

lemma octet_less: "unat (drop_bit k (v :: u32) AND 0xff) < 256" "unat ((v :: u32) AND 0xff) < 256"
  using unat_octet [of 0 v] by (simp_all add: unat_octet)

lemma split_fmt_ip:
  "split_on (CHR ''.'') (fmt_ip v)
     = [show_nat (unat (drop_bit 24 v AND 0xff)), show_nat (unat (drop_bit 16 v AND 0xff)),
        show_nat (unat (drop_bit 8 v AND 0xff)), show_nat (unat (v AND 0xff))]"
  by (simp add: fmt_ip_def split_on_append_delim)

lemma octets_assemble:
  "shl32 (shl32 (shl32 (drop_bit 24 v AND 0xff) 8 OR (drop_bit 16 v AND 0xff)) 8
     OR (drop_bit 8 v AND 0xff)) 8 OR (v AND 0xff) = v"
proof -
  have s: "shl32 a 8 = push_bit 8 a" for a
    by (simp add: shl32_small)
  have m: "0xff = (mask 8 :: u32)"
    by (simp add: mask_eq_exp_minus_1)
  show ?thesis
    unfolding s m
  proof (intro bit_word_eqI)
    fix n assume n: "n < LENGTH(32)"
    consider "n < 8" | "8 \<le> n" "n < 16" | "16 \<le> n" "n < 24" | "24 \<le> n"
      by linarith
    then show "bit (push_bit 8 (push_bit 8 (push_bit 8 (drop_bit 24 v AND mask 8)
      OR (drop_bit 16 v AND mask 8)) OR (drop_bit 8 v AND mask 8)) OR (v AND mask 8)) n = bit v n"
      using n by cases (auto simp: bit_simps)
  qed
qed

lemma parse_fmt_ip: "parse_ip4 (fmt_ip v) = Some v"
proof -
  have z: "shl32 0 8 = (0 :: u32)"
    by (simp add: shl32_def)
  have p: "parse_uint 256 (show_nat (unat (drop_bit k v AND 0xff)))
             = Some (unat (drop_bit k v AND 0xff))"
          "parse_uint 256 (show_nat (unat (v AND 0xff))) = Some (unat (v AND 0xff))" for k
    by (intro parse_uint_show octet_less)+
  have "parse_ip4 (fmt_ip v)
    = Some (shl32 (shl32 (shl32 (drop_bit 24 v AND 0xff) 8 OR (drop_bit 16 v AND 0xff)) 8
            OR (drop_bit 8 v AND 0xff)) 8 OR (v AND 0xff))"
    unfolding parse_ip4_def split_fmt_ip Let_def
    by (simp only: p z list.size fold.simps option.case comp_def id_apply of_nat_unat ucast_id
        or.left_neutral) simp
  then show ?thesis by (simp only: octets_assemble)
qed

lemma fmt_ip_inj: "fmt_ip a = fmt_ip b \<Longrightarrow> a = b"
  by (metis option.inject parse_fmt_ip)

lemma fmt_ip_no_slash [simp]: "CHR ''/'' \<notin> set (fmt_ip v)"
  by (simp add: fmt_ip_def)

subsection \<open>The slot allocator contract\<close>

text \<open>
  What the manager relies on: the set of slots in use, a capacity, and the three
  operations.  Claims return the lowest slot that is not in use, a reservation
  or a release beyond the capacity changes nothing.
\<close>

datatype slot_op = Claim | Reserve u32 | Free u32

locale slot_allocator =
  fixes inv :: "'s \<Rightarrow> bool"
    and used :: "'s \<Rightarrow> u32 set"
    and cap :: "'s \<Rightarrow> nat"
    and claim :: "'s \<Rightarrow> u32 option \<times> 's"
    and reserve :: "'s \<Rightarrow> u32 \<Rightarrow> 's"
    and release :: "'s \<Rightarrow> u32 \<Rightarrow> 's"
  assumes used_cap: "inv s \<Longrightarrow> i \<in> used s \<Longrightarrow> unat i < cap s"
    and claim_Some: "inv s \<Longrightarrow> claim s = (Some i, s') \<Longrightarrow>
           inv s' \<and> cap s' = cap s \<and> used s' = insert i (used s) \<and> i \<notin> used s
           \<and> unat i < cap s \<and> (\<forall>j < i. j \<in> used s)"
    and claim_None: "inv s \<Longrightarrow> claim s = (None, s') \<Longrightarrow>
           s' = s \<and> used s = {i. unat i < cap s}"
    and reserve: "inv s \<Longrightarrow>
           inv (reserve s i) \<and> cap (reserve s i) = cap s
           \<and> used (reserve s i) = (if unat i < cap s then insert i (used s) else used s)"
    and release: "inv s \<Longrightarrow>
           inv (release s i) \<and> cap (release s i) = cap s \<and> used (release s i) = used s - {i}"
begin

fun run :: "slot_op list \<Rightarrow> 's \<Rightarrow> (u32 option) list \<times> 's" where
  "run [] s = ([], s)"
| "run (Claim # ops) s
     = (let (r, s') = claim s; (rs, s'') = run ops s' in (r # rs, s''))"
| "run (Reserve i # ops) s = run ops (reserve s i)"
| "run (Free i # ops) s = run ops (release s i)"

lemma claim_total:
  assumes "inv s"
  shows "fst (claim s) = None \<longleftrightarrow> used s = {i. unat i < cap s}"
proof (cases "claim s")
  case (Pair r s')
  show ?thesis
  proof (cases r)
    case None
    then show ?thesis using claim_None [OF assms, of s'] Pair by simp
  next
    case (Some i)
    then show ?thesis using claim_Some [OF assms, of i s'] Pair by auto
  qed
qed

lemma claim_inv:
  assumes "inv s"
  shows "inv (snd (claim s)) \<and> cap (snd (claim s)) = cap s \<and> used s \<subseteq> used (snd (claim s))"
proof (cases "claim s")
  case (Pair r s')
  show ?thesis
  proof (cases r)
    case None
    then show ?thesis using claim_None [OF assms, of s'] Pair assms by simp
  next
    case (Some i)
    then show ?thesis using claim_Some [OF assms, of i s'] Pair by auto
  qed
qed

lemma run_inv: "inv s \<Longrightarrow> inv (snd (run ops s)) \<and> cap (snd (run ops s)) = cap s"
proof (induction ops s rule: run.induct)
  case (2 ops s)
  then show ?case using claim_inv [of s] by (auto split: prod.splits)
qed (simp_all add: reserve release)

text \<open>Without a release in between, successive claims hand out different slots.\<close>

lemma run_claims_fresh:
  assumes "inv s" "\<forall>i. Free i \<notin> set ops" "run ops s = (rs, t)"
  shows "(\<forall>i. Some i \<in> set rs \<longrightarrow> i \<notin> used s \<and> i \<in> used t) \<and> used s \<subseteq> used t
         \<and> distinct (filter (\<lambda>r. r \<noteq> None) rs)"
  using assms
proof (induction ops arbitrary: s rs)
  case (Cons op ops)
  show ?case
  proof (cases op)
    case Claim
    obtain r s' where c: "claim s = (r, s')" by (cases "claim s")
    obtain rs' where r: "run ops s' = (rs', t)" and rs: "rs = r # rs'"
      using Cons.prems(3) Claim c by (auto split: prod.splits)
    have "inv s'" using c claim_inv [OF Cons.prems(1)] by simp
    from Cons.IH [OF this _ r]
    have IH: "(\<forall>i. Some i \<in> set rs' \<longrightarrow> i \<notin> used s' \<and> i \<in> used t) \<and> used s' \<subseteq> used t
        \<and> distinct (filter (\<lambda>r. r \<noteq> None) rs')"
      using Cons.prems(2) by simp
    show ?thesis
    proof (cases r)
      case None
      then show ?thesis using IH rs claim_None [OF Cons.prems(1)] c by auto
    next
      case (Some i)
      then show ?thesis using IH rs claim_Some [OF Cons.prems(1), of i s'] c by auto
    qed
  next
    case (Reserve i)
    then show ?thesis
      using Cons.IH [of "reserve s i" rs] Cons.prems reserve [OF Cons.prems(1), of i]
      by (auto split: if_splits)
  next
    case (Free i)
    then show ?thesis using Cons.prems(2) by auto
  qed
qed simp

end

subsection \<open>The bit vector implements the contract\<close>

definition alloc_inv :: "Allocator \<Rightarrow> bool" where
  "alloc_inv a = (length (alloc_used a) < 2 ^ 32)"

definition used_slots :: "Allocator \<Rightarrow> u32 set" where
  "used_slots a = {i. unat i < length (alloc_used a) \<and> alloc_used a ! unat i}"

lemma claim_scan_Some:
  "claim_scan k us = Some (i, vs) \<Longrightarrow>
     k \<le> i \<and> i - k < length us \<and> \<not> us ! (i - k) \<and> vs = us[i - k := True]
     \<and> (\<forall>j < i - k. us ! j)"
proof (induction us arbitrary: k i vs)
  case (Cons u us)
  show ?case
  proof (cases u)
    case True
    with Cons.prems obtain ws where w: "claim_scan (Suc k) us = Some (i, ws)" "vs = u # ws"
      by auto
    obtain d where "i = Suc k + d"
      using Cons.IH [OF w(1)] le_Suc_ex by blast
    with Cons.IH [OF w(1)] w(2) True show ?thesis
      by (auto simp: nth_Cons split: nat.splits)
  next
    case False
    with Cons.prems show ?thesis by auto
  qed
qed simp

lemma claim_scan_None: "claim_scan k us = None \<longleftrightarrow> (\<forall>j < length us. us ! j)"
  by (induction us arbitrary: k) (auto simp: nth_Cons split: nat.splits)

lemma alloc_claim_Some:
  assumes "alloc_inv a" "alloc_claim a = (Some i, b)"
  shows "alloc_cidr b = alloc_cidr a \<and> alloc_used b = (alloc_used a)[unat i := True]
         \<and> unat i < length (alloc_used a) \<and> \<not> alloc_used a ! unat i
         \<and> (\<forall>j < unat i. alloc_used a ! j)"
proof -
  obtain k us where c: "claim_scan 0 (alloc_used a) = Some (k, us)"
      "i = word_of_nat k" "b = a\<lparr>alloc_used := us\<rparr>"
    using assms(2) by (auto simp: alloc_claim_def split: option.splits)
  have k: "k < length (alloc_used a)"
    using claim_scan_Some [OF c(1)] by simp
  then have "unat i = k"
    using assms(1) c(2) by (simp add: alloc_inv_def unat_of_nat)
  then show ?thesis
    using claim_scan_Some [OF c(1)] c(3) by simp
qed

lemma alloc_claim_None:
  "alloc_claim a = (None, b) \<Longrightarrow> b = a \<and> (\<forall>j < length (alloc_used a). alloc_used a ! j)"
  by (auto simp: alloc_claim_def claim_scan_None split: option.splits)

lemmas alloc_op_defs = alloc_inv_def used_slots_def alloc_reserve_def alloc_free_def Let_def

interpretation slots: slot_allocator alloc_inv used_slots "\<lambda>a. length (alloc_used a)"
    alloc_claim alloc_reserve alloc_free
proof unfold_locales
  fix s s' i
  assume inv: "alloc_inv s" and c: "alloc_claim s = (Some i, s')"
  note f = alloc_claim_Some [OF inv c]
  have "used_slots s' = insert i (used_slots s)"
    using f by (auto simp: used_slots_def nth_list_update word_unat_eq_iff)
  moreover have "j \<in> used_slots s" if "j < i" for j
    using f that by (auto simp: used_slots_def word_less_nat_alt)
  ultimately show "alloc_inv s' \<and> length (alloc_used s') = length (alloc_used s)
      \<and> used_slots s' = insert i (used_slots s) \<and> i \<notin> used_slots s
      \<and> unat i < length (alloc_used s) \<and> (\<forall>j < i. j \<in> used_slots s)"
    using f inv by (auto simp: alloc_inv_def used_slots_def)
next
  fix s s' assume "alloc_inv s" "alloc_claim s = (None, s')"
  then show "s' = s \<and> used_slots s = {i. unat i < length (alloc_used s)}"
    using alloc_claim_None by (auto simp: used_slots_def)
qed (auto simp: alloc_op_defs nth_list_update word_unat_eq_iff split: if_splits)

lemma alloc_new_inv: "alloc_inv (alloc_new c)"
  using unsigned_less [of "host_count c", where ?'a = nat]
  by (simp add: alloc_inv_def alloc_new_def)

lemma alloc_new_used: "used_slots (alloc_new c) = {}"
  by (auto simp: used_slots_def alloc_new_def)

subsection \<open>Properties\<close>

lemma alloc_ops_shape [simp]:
  "alloc_cidr (alloc_reserve a i) = alloc_cidr a"
  "alloc_cidr (alloc_free a i) = alloc_cidr a"
  "alloc_cidr (snd (alloc_claim a)) = alloc_cidr a"
  "length (alloc_used (alloc_reserve a i)) = length (alloc_used a)"
  "length (alloc_used (alloc_free a i)) = length (alloc_used a)"
  "length (alloc_used (snd (alloc_claim a))) = length (alloc_used a)"
  by (auto simp: alloc_op_defs alloc_claim_def split: option.splits dest!: claim_scan_Some)

lemma run_keeps_shape:
  "alloc_cidr (snd (slots.run ops a)) = alloc_cidr a
   \<and> length (alloc_used (snd (slots.run ops a))) = length (alloc_used a)"
proof (induction ops arbitrary: a)
  case (Cons op ops)
  then show ?case
    by (cases op) (simp_all add: case_prod_beta Let_def)
qed simp

lemma host_at_inj:
  assumes "wf_cidr c" "i < host_count c" "j < host_count c" "host_at c i = host_at c j"
  shows "i = j"
  using assms unat_host_at(1) by (metis add_left_cancel word_unat_eq_iff)

lemma host_at_special:
  assumes "wf_cidr c" "i < host_count c"
  shows "host_at c i AND cidr_mask c = net_base c"
    and "host_at c i \<notin> {net_base c, gateway c, broadcast c}"
proof -
  have pos: "0 < host_count c"
    using assms(2) by (simp add: word_less_nat_alt)
  show "host_at c i AND cidr_mask c = net_base c"
    using unat_host_at [OF assms] by (intro in_network [OF assms(1), of _ "2 + unat i"]) simp_all
  show "host_at c i \<notin> {net_base c, gateway c, broadcast c}"
    using unat_host_at [OF assms] unat_gateway [OF assms(1) pos] unat_broadcast [OF assms(1) pos]
    by (auto simp: word_unat_eq_iff)
qed

text \<open>
  C14. After any sequence of claims, reservations and releases on an allocator made from
  a parsed CIDR, the next claim returns the lowest slot that is not in use, and the
  address of that slot lies in the CIDR's network, differs from the network address,
  the gateway and the broadcast address, and differs from the address of every slot
  in use.
\<close>

theorem claim_gives_fresh_address:
  assumes "Cidr_parse s = Some c"
    and "slots.run ops (alloc_new c) = (rs, a)"
    and "alloc_claim a = (Some i, b)"
  shows "i \<notin> used_slots a \<and> (\<forall>j < i. j \<in> used_slots a)
         \<and> parse_ip4 (alloc_ip_for a i) = Some (host_at c i)
         \<and> host_at c i AND cidr_mask c = net_base c
         \<and> host_at c i \<notin> {net_base c, gateway c, broadcast c}
         \<and> (\<forall>j \<in> used_slots a. alloc_ip_for a j \<noteq> alloc_ip_for a i)"
proof -
  have wf: "wf_cidr c" using assms(1) by (rule Cidr_parse_wf)
  have inv: "alloc_inv a"
    using slots.run_inv [OF alloc_new_inv, of ops c] assms(2) by simp
  have shape: "alloc_cidr a = c" "length (alloc_used a) = unat (host_count c)"
    using run_keeps_shape [of ops "alloc_new c"] assms(2) by (simp_all add: alloc_new_def)
  note cl = slots.claim_Some [OF inv assms(3)]
  have hc: "j < host_count c" if "j \<in> insert i (used_slots a)" for j
    using that cl shape(2) by (auto simp: used_slots_def word_less_nat_alt)
  then have "alloc_ip_for a j \<noteq> alloc_ip_for a i" if "j \<in> used_slots a" for j
    using that cl host_at_inj [OF wf, of j i] fmt_ip_inj by (auto simp: alloc_ip_for_def shape)
  then show ?thesis
    using cl hc host_at_special [OF wf, of i] by (simp add: alloc_ip_for_def shape parse_fmt_ip)
qed

theorem claim_gives_fresh_address_witness:
  "\<exists>c a b. Cidr_parse ''10.231.0.0/29'' = Some c
     \<and> slots.run [Claim, Reserve 2, Claim, Free 0] (alloc_new c) = ([Some 0, Some 1], a)
     \<and> alloc_claim a = (Some 0, b)
     \<and> host_at c 0 AND cidr_mask c = net_base c
     \<and> alloc_ip_for a 0 = ''10.231.0.2''"
proof -
  let ?c = "\<lparr>cidr_base = 0x0AE70000, cidr_prefix = 29\<rparr>"
  let ?a = "\<lparr>alloc_cidr = ?c, alloc_used = [False, True, True, False, False]\<rparr>"
  let ?b = "\<lparr>alloc_cidr = ?c, alloc_used = [True, True, True, False, False]\<rparr>"
  have p: "Cidr_parse ''10.231.0.0/29'' = Some ?c"
    by code_simp
  moreover have r: "slots.run [Claim, Reserve 2, Claim, Free 0] (alloc_new ?c)
      = ([Some 0, Some 1], ?a)"
  proof -
    have "alloc_new ?c = \<lparr>alloc_cidr = ?c, alloc_used = [False, False, False, False, False]\<rparr>"
      by code_simp
    then show ?thesis
      by (simp add: alloc_claim_def alloc_reserve_def alloc_free_def)
  qed
  moreover have c: "alloc_claim ?a = (Some 0, ?b)"
    by (simp add: alloc_claim_def)
  moreover have "alloc_ip_for ?a 0 = ''10.231.0.2''"
    by code_simp
  ultimately show ?thesis
    using claim_gives_fresh_address [OF p r c] by blast
qed

text \<open>
  Printing an address and a prefix length of at most 32 as \<open>a.b.c.d/n\<close> and parsing the
  result gives them back.
\<close>

theorem cidr_round_trip:
  assumes "p \<le> 32"
  shows "Cidr_parse (fmt_ip v @ ''/'' @ show_nat p)
           = Some \<lparr>cidr_base = v, cidr_prefix = word_of_nat p\<rparr>"
proof -
  have "parse_uint 256 (show_nat p) = Some p"
    using assms by simp
  then show ?thesis
    using assms by (simp add: Cidr_parse_def parse_fmt_ip)
qed

end
