(* ===== verification/Utf8.thy ===== *)
theory Utf8
  imports Felucca_Prelude
begin

text \<open>
  The UTF-8 routines of the Rust standard library that both agents call:
  \<open>core::str::from_utf8\<close> with its error (\<open>valid_up_to\<close> and \<open>error_len\<close>) and
  \<open>String::from_utf8_lossy\<close>.  Bytes are HOL characters.  The lemmas state how the
  decoder behaves when more bytes arrive, which is what the streaming code of the
  guest agent depends on.
\<close>

subsection \<open>One code point\<close>

text \<open>
  The verdict on the code point at the head of a byte string: \<open>Good w\<close> is a valid
  sequence of \<open>w\<close> bytes, \<open>Bad k\<close> an invalid one (\<open>error_len = Some k\<close>), and
  \<open>Incomplete\<close> a valid beginning cut off by the end of input (\<open>error_len = None\<close>).
\<close>

datatype verdict = Good nat | Bad nat | Incomplete

definition in_range :: "char \<Rightarrow> nat \<Rightarrow> nat \<Rightarrow> bool" where
  "in_range c lo hi = (lo \<le> byte c \<and> byte c \<le> hi)"

definition is_cont :: "char \<Rightarrow> bool" where
  "is_cont c = in_range c 0x80 0xBF"

definition utf8_char_width :: "char \<Rightarrow> nat" where
  "utf8_char_width c
     = (if byte c < 0x80 then 1
        else if in_range c 0xC2 0xDF then 2
        else if in_range c 0xE0 0xEF then 3
        else if in_range c 0xF0 0xF4 then 4
        else 0)"

definition second_ok3 :: "char \<Rightarrow> char \<Rightarrow> bool" where
  "second_ok3 a b
     = (if byte a = 0xE0 then in_range b 0xA0 0xBF
        else if byte a = 0xED then in_range b 0x80 0x9F
        else is_cont b)"

definition second_ok4 :: "char \<Rightarrow> char \<Rightarrow> bool" where
  "second_ok4 a b
     = (if byte a = 0xF0 then in_range b 0x90 0xBF
        else if byte a = 0xF4 then in_range b 0x80 0x8F
        else is_cont b)"

definition utf8_head :: "char \<Rightarrow> string \<Rightarrow> verdict" where
  "utf8_head a cs
     = (let w = utf8_char_width a
        in if w = 1 then Good 1
           else if w = 2 then
             (case cs of [] \<Rightarrow> Incomplete
              | b # _ \<Rightarrow> if is_cont b then Good 2 else Bad 1)
           else if w = 3 then
             (case cs of [] \<Rightarrow> Incomplete
              | b # cs2 \<Rightarrow> if \<not> second_ok3 a b then Bad 1
                 else (case cs2 of [] \<Rightarrow> Incomplete
                       | c # _ \<Rightarrow> if is_cont c then Good 3 else Bad 2))
           else if w = 4 then
             (case cs of [] \<Rightarrow> Incomplete
              | b # cs2 \<Rightarrow> if \<not> second_ok4 a b then Bad 1
                 else (case cs2 of [] \<Rightarrow> Incomplete
                       | c # cs3 \<Rightarrow> if \<not> is_cont c then Bad 2
                          else (case cs3 of [] \<Rightarrow> Incomplete
                                | d # _ \<Rightarrow> if is_cont d then Good 4 else Bad 3)))
           else Bad 1)"

subsection \<open>Whole strings\<close>

text \<open>
  \<open>from_utf8\<close>: \<open>None\<close> is \<open>Ok\<close>, \<open>Some (n, e)\<close> an error with \<open>valid_up_to = n\<close> and
  \<open>error_len = e\<close>.
\<close>

fun from_utf8 :: "string \<Rightarrow> (nat \<times> nat option) option" where
  "from_utf8 [] = None"
| "from_utf8 (c # cs)
     = (case utf8_head c cs of
          Good w \<Rightarrow> map_option (\<lambda>(n, e). (n + w, e)) (from_utf8 (drop (w - 1) cs))
        | Bad k \<Rightarrow> Some (0, Some k)
        | Incomplete \<Rightarrow> Some (0, None))"

definition valid_utf8 :: "string \<Rightarrow> bool" where
  "valid_utf8 s = (from_utf8 s = None)"

text \<open>U+FFFD, and \<open>from_utf8_lossy\<close>: one replacement per maximal invalid piece.\<close>

definition replacement :: string where
  "replacement = [char_of (0xEF :: nat), char_of (0xBF :: nat), char_of (0xBD :: nat)]"

fun from_utf8_lossy :: "string \<Rightarrow> string" where
  "from_utf8_lossy [] = []"
| "from_utf8_lossy (c # cs)
     = (case utf8_head c cs of
          Good w \<Rightarrow> c # take (w - 1) cs @ from_utf8_lossy (drop (w - 1) cs)
        | Bad k \<Rightarrow> replacement @ from_utf8_lossy (drop (k - 1) cs)
        | Incomplete \<Rightarrow> replacement)"

subsection \<open>Lemmas on one code point\<close>

lemma utf8_head_Good:
  "utf8_head c cs = Good w \<Longrightarrow> 1 \<le> w \<and> w - 1 \<le> length cs"
  by (auto simp: utf8_head_def Let_def split: if_splits list.splits)

lemma utf8_head_Bad:
  "utf8_head c cs = Bad k \<Longrightarrow> 1 \<le> k \<and> k - 1 \<le> length cs"
  by (auto simp: utf8_head_def Let_def split: if_splits list.splits)

lemma utf8_head_Incomplete:
  "utf8_head c cs = Incomplete \<Longrightarrow> length cs < 3"
  by (auto simp: utf8_head_def Let_def split: if_splits list.splits)

text \<open>A verdict that is not \<open>Incomplete\<close> does not depend on the bytes that follow.\<close>

lemma utf8_head_append:
  "utf8_head c cs \<noteq> Incomplete \<Longrightarrow> utf8_head c (cs @ ys) = utf8_head c cs"
  by (auto simp: utf8_head_def Let_def split: if_splits list.splits)

lemma utf8_head_take_Good:
  "utf8_head c cs = Good w \<Longrightarrow> utf8_head c (take (w - 1) cs) = Good w"
  by (auto simp: utf8_head_def Let_def split: if_splits list.splits)

lemma utf8_head_take_Bad:
  "utf8_head c cs = Bad k \<Longrightarrow>
     utf8_head c (take (k - 1) cs) = Bad k \<or> utf8_head c (take (k - 1) cs) = Incomplete"
  by (auto simp: utf8_head_def Let_def split: if_splits list.splits)

subsection \<open>Lemmas on whole strings\<close>

lemma from_utf8_bounds:
  "from_utf8 s = Some (n, e) \<Longrightarrow>
     n < length s \<and> (case e of None \<Rightarrow> length s - n \<le> 3 | Some k \<Rightarrow> 1 \<le> k \<and> n + k \<le> length s)"
proof (induction s arbitrary: n e rule: from_utf8.induct)
  case (2 c cs)
  show ?case
  proof (cases "utf8_head c cs")
    case (Good w)
    with 2 show ?thesis
      using utf8_head_Good [OF Good] by (fastforce split: option.splits)
  qed (use 2 utf8_head_Bad utf8_head_Incomplete in fastforce)+
qed simp

lemma from_utf8_take:
  "from_utf8 s = Some (n, e) \<Longrightarrow> from_utf8 (take n s) = None"
proof (induction s arbitrary: n e rule: from_utf8.induct)
  case (2 c cs)
  show ?case
  proof (cases "utf8_head c cs")
    case (Good w)
    with 2 obtain m where m: "from_utf8 (drop (w - 1) cs) = Some (m, e)" "n = m + w"
      by auto
    have w: "1 \<le> w" "w - 1 \<le> length cs" using utf8_head_Good [OF Good] by auto
    have t: "take n (c # cs) = c # take (w - 1) cs @ take m (drop (w - 1) cs)"
      using m w by (cases w) (auto simp: add.commute simp flip: take_add)
    have "utf8_head c (take (w - 1) cs @ take m (drop (w - 1) cs)) = Good w"
      using utf8_head_append utf8_head_take_Good [OF Good] by (metis verdict.distinct(3))
    then show ?thesis
      using 2 Good m w t by simp
  qed (use 2 in auto)
qed simp

lemma lossy_valid: "valid_utf8 s \<Longrightarrow> from_utf8_lossy s = s"
  by (induction s rule: from_utf8.induct)
    (auto simp: valid_utf8_def split: verdict.splits)

lemma lossy_valid_append:
  "valid_utf8 s \<Longrightarrow> from_utf8_lossy (s @ t) = s @ from_utf8_lossy t"
proof (induction s rule: from_utf8.induct)
  case (2 c cs)
  then obtain w where w: "utf8_head c cs = Good w"
    by (auto simp: valid_utf8_def split: verdict.splits)
  then have "utf8_head c (cs @ t) = Good w"
    using utf8_head_append by fastforce
  moreover have "from_utf8_lossy (drop (w - 1) cs @ t) = drop (w - 1) cs @ from_utf8_lossy t"
    using 2 w by (simp add: valid_utf8_def)
  moreover have "w - Suc (length cs) = 0"
    using utf8_head_Good [OF w] by auto
  ultimately show ?case by (simp flip: append_assoc)
qed simp

lemma replacement_valid [simp]: "valid_utf8 replacement"
  by (simp add: valid_utf8_def replacement_def utf8_head_def utf8_char_width_def in_range_def
      second_ok3_def is_cont_def Let_def)

lemma valid_utf8_append: "valid_utf8 s \<Longrightarrow> valid_utf8 t \<Longrightarrow> valid_utf8 (s @ t)"
proof (induction s rule: from_utf8.induct)
  case (2 c cs)
  then obtain w where w: "utf8_head c cs = Good w"
    by (auto simp: valid_utf8_def split: verdict.splits)
  then have "utf8_head c (cs @ t) = Good w"
    using utf8_head_append by fastforce
  moreover have "from_utf8 (drop (w - 1) cs @ t) = None"
    using 2 w by (simp add: valid_utf8_def)
  moreover have "w - Suc (length cs) = 0"
    using utf8_head_Good [OF w] by auto
  ultimately show ?case by (simp add: valid_utf8_def)
qed simp

lemma lossy_is_valid: "valid_utf8 (from_utf8_lossy s)"
proof (induction s rule: from_utf8_lossy.induct)
  case (2 c cs)
  show ?case
  proof (cases "utf8_head c cs")
    case (Good w)
    then have "valid_utf8 (c # take (w - 1) cs)"
      using utf8_head_take_Good [OF Good] utf8_head_Good [OF Good]
      by (simp add: valid_utf8_def)
    then show ?thesis
      using 2 Good valid_utf8_append by fastforce
  next
    case (Bad k)
    then show ?thesis using 2 valid_utf8_append by simp
  next
    case Incomplete
    then show ?thesis by simp
  qed
qed (simp add: valid_utf8_def)

text \<open>The decoder in terms of the error reported by \<open>from_utf8\<close>.\<close>

lemma from_utf8_drop:
  "from_utf8 s = Some (n, e) \<Longrightarrow> from_utf8 (drop n s) = Some (0, e)"
proof (induction s arbitrary: n e rule: from_utf8.induct)
  case (2 c cs)
  show ?case
  proof (cases "utf8_head c cs")
    case (Good w)
    with 2 obtain m where m: "from_utf8 (drop (w - 1) cs) = Some (m, e)" "n = m + w"
      by auto
    then have "drop n (c # cs) = drop m (drop (w - 1) cs)"
      using utf8_head_Good [OF Good] by (cases w) (auto simp: add.commute)
    then show ?thesis using 2 Good m by simp
  qed (use 2 in auto)
qed simp

lemma from_utf8_0:
  assumes "from_utf8 s = Some (0, e)"
  obtains c cs where "s = c # cs" "utf8_head c cs = (case e of None \<Rightarrow> Incomplete | Some k \<Rightarrow> Bad k)"
proof (cases s)
  case (Cons c cs)
  with assms show ?thesis
  proof (cases "utf8_head c cs")
    case (Good w)
    then show ?thesis using assms Cons utf8_head_Good [OF Good] by auto
  qed (use assms Cons that in auto)
qed (use assms in simp)

lemma lossy_error:
  assumes "from_utf8 s = Some (n, e)"
  shows "from_utf8_lossy s
         = take n s @ replacement
           @ (case e of None \<Rightarrow> [] | Some k \<Rightarrow> from_utf8_lossy (drop (n + k) s))"
proof -
  have v: "valid_utf8 (take n s)"
    using from_utf8_take [OF assms] by (simp add: valid_utf8_def)
  obtain c cs where c: "drop n s = c # cs"
      "utf8_head c cs = (case e of None \<Rightarrow> Incomplete | Some k \<Rightarrow> Bad k)"
    using from_utf8_drop [OF assms] by (rule from_utf8_0)
  have "from_utf8_lossy (drop n s)
      = replacement @ (case e of None \<Rightarrow> [] | Some k \<Rightarrow> from_utf8_lossy (drop (n + k) s))"
  proof (cases e)
    case (Some k)
    have "drop (n + k) s = drop k (drop n s)"
      by (simp add: add.commute)
    also have "\<dots> = drop (k - 1) cs"
      using c Some utf8_head_Bad [of c cs k] by (cases k) auto
    finally show ?thesis using c Some by simp
  qed (use c in simp)
  then show ?thesis
    using lossy_valid_append [OF v, of "drop n s"] by simp
qed

lemma lossy_incomplete:
  "from_utf8 s = Some (0, None) \<Longrightarrow> from_utf8_lossy s = replacement"
  using lossy_error [of s 0 None] by simp

lemma lossy_bad_piece:
  assumes "from_utf8 s = Some (n, Some k)"
  shows "from_utf8_lossy (take k (drop n s)) = replacement"
proof -
  obtain c cs where c: "drop n s = c # cs" "utf8_head c cs = Bad k"
    using from_utf8_drop [OF assms] by (rule from_utf8_0) simp
  have "take k (drop n s) = c # take (k - 1) cs"
    using c utf8_head_Bad [OF c(2)] by (cases k) auto
  then show ?thesis
    using utf8_head_take_Bad [OF c(2)] by auto
qed

text \<open>Bytes after a decided error do not change what comes before it.\<close>

lemma from_utf8_append:
  "from_utf8 s = Some (n, Some k) \<Longrightarrow> from_utf8 (s @ t) = Some (n, Some k)"
proof (induction s arbitrary: n rule: from_utf8.induct)
  case (2 c cs)
  show ?case
  proof (cases "utf8_head c cs")
    case (Good w)
    have "utf8_head c (cs @ t) = Good w"
      using Good utf8_head_append by fastforce
    then show ?thesis
      using 2 Good utf8_head_Good [OF Good] by auto
  next
    case (Bad j)
    have "utf8_head c (cs @ t) = Bad j"
      using Bad utf8_head_append by fastforce
    then show ?thesis using 2 Bad by auto
  qed (use 2 in auto)
qed simp

lemma lossy_error_append:
  assumes "from_utf8 s = Some (n, Some k)"
  shows "from_utf8_lossy (s @ t) = take n s @ replacement @ from_utf8_lossy (drop (n + k) s @ t)"
proof -
  have "n + k \<le> length s" using from_utf8_bounds [OF assms] by simp
  then show ?thesis
    using lossy_error [OF from_utf8_append [OF assms, of t]] by simp
qed

lemma lossy_incomplete_append:
  assumes "from_utf8 s = Some (n, None)"
  shows "from_utf8_lossy (s @ t) = take n s @ from_utf8_lossy (drop n s @ t)"
  using lossy_valid_append [of "take n s" "drop n s @ t"] from_utf8_take [OF assms]
  by (simp add: valid_utf8_def flip: append_assoc)

end
