(* ===== verification/Guest_Exec.thy ===== *)
theory Guest_Exec
  imports Utf8
begin

text \<open>
  Command execution in the guest agent (\<open>guest/src/exec.rs\<close>): the buffered runner,
  the reader threads and the message loop of the streamed runner, the incremental
  UTF-8 emitter and the capped reader.  The child process, its pipes and the clock are
  environment: a pipe is the list of outcomes of the successive \<open>read\<close> calls on it, and
  the channel of the message loop is the list of outcomes of \<open>recv_timeout\<close>.
\<close>

subsection \<open>Data\<close>

type_synonym io_error = string

text \<open>One \<open>read\<close>: the bytes (none at end of file), \<open>EINTR\<close>, or another error.\<close>

datatype read_result = ReadOk string | ReadInterrupted | ReadErr io_error

datatype StreamKind = Stdout | Stderr

record ExecOutcome =
  eo_exit_code :: int
  eo_stdout :: string
  eo_stderr :: string
  eo_truncated :: bool

record StreamEnd =
  se_exit_code :: int
  se_truncated :: bool

definition TIMEOUT_EXIT_CODE :: int where
  "TIMEOUT_EXIT_CODE = 124"

definition STREAM_MAX_OUTPUT_BYTES :: nat where
  "STREAM_MAX_OUTPUT_BYTES = 16 * 1024 * 1024"

definition MAX_OUTPUT_BYTES :: nat where
  "MAX_OUTPUT_BYTES = 1024 * 1024"

text \<open>The result of \<open>Child::wait\<close>: an error, or the exit code and the signal, if any.\<close>

datatype wait_status = WaitErr | WaitOk "int option" "int option"

definition status_to_code :: "wait_status \<Rightarrow> int" where
  "status_to_code st
     = (case st of
          WaitErr \<Rightarrow> - 1
        | WaitOk c s \<Rightarrow> (case c of Some code \<Rightarrow> code
                       | None \<Rightarrow> (case s of Some sig \<Rightarrow> 128 + sig | None \<Rightarrow> - 1)))"

subsection \<open>Capped reading\<close>

fun read_capped_loop :: "nat \<Rightarrow> read_result list \<Rightarrow> string \<Rightarrow> bool \<Rightarrow> string \<times> bool" where
  "read_capped_loop limit [] buf truncated = (buf, truncated)"
| "read_capped_loop limit (r # rs) buf truncated
     = (case r of
          ReadOk bytes \<Rightarrow>
            if bytes = [] then (buf, truncated)
            else if length buf < limit then
              (let room = limit - length buf;
                   n = min room (length bytes)
               in read_capped_loop limit rs (buf @ take n bytes) (truncated \<or> n < length bytes))
            else read_capped_loop limit rs buf True
        | ReadInterrupted \<Rightarrow> read_capped_loop limit rs buf truncated
        | ReadErr e \<Rightarrow> (buf, truncated))"

definition read_capped :: "read_result list \<Rightarrow> string \<times> bool" where
  "read_capped rs = read_capped_loop MAX_OUTPUT_BYTES rs [] False"

subsection \<open>The buffered runner\<close>

text \<open>
  What the environment does with a spawned child: its pid, the outcomes of the reads on
  its two pipes, its wait status, and the outcome of \<open>recv_timeout\<close> on the waiter's channel.
\<close>

datatype wait_recv = CodeInTime | WaitTimeout | WaitDisconnected

record child_run =
  cr_pid :: nat
  cr_stdout :: "read_result list"
  cr_stderr :: "read_result list"
  cr_status :: wait_status
  cr_recv :: wait_recv

text \<open>\<open>run_exec\<close> on the result of \<open>spawn_grouped\<close>; the second component lists the killed groups.\<close>

definition run_exec ::
    "(io_error, child_run) result \<Rightarrow> (io_error, ExecOutcome) result \<times> nat list" where
  "run_exec spawned
     = (case spawned of
          Inl e \<Rightarrow> (Inl e, [])
        | Inr child \<Rightarrow>
          (let finish = (\<lambda>exit_code.
                 let (stdout_buf, out_trunc) = read_capped (cr_stdout child);
                     (stderr_buf, err_trunc) = read_capped (cr_stderr child)
                 in \<lparr>eo_exit_code = exit_code,
                     eo_stdout = from_utf8_lossy stdout_buf,
                     eo_stderr = from_utf8_lossy stderr_buf,
                     eo_truncated = out_trunc \<or> err_trunc\<rparr>)
           in case cr_recv child of
                CodeInTime \<Rightarrow> (Inr (finish (status_to_code (cr_status child))), [])
              | WaitTimeout \<Rightarrow> (Inr (finish TIMEOUT_EXIT_CODE), [cr_pid child])
              | WaitDisconnected \<Rightarrow> (Inl ''wait thread disconnected'', [])))"

subsection \<open>Incremental UTF-8\<close>

text \<open>
  The callback that sends a chunk to the peer, with the peer's state: \<open>None\<close> is \<open>Ok\<close>.
\<close>

type_synonym 's emitter = "StreamKind \<Rightarrow> string \<Rightarrow> 's \<Rightarrow> io_error option \<times> 's"

lemma from_utf8_rest_shorter:
  "from_utf8 buf = Some (good, Some bad) \<Longrightarrow> length (drop (good + bad) buf) < length buf"
  using from_utf8_bounds [of buf good "Some bad"] by auto

function emit_utf8 ::
    "'s emitter \<Rightarrow> StreamKind \<Rightarrow> bool \<Rightarrow> string \<Rightarrow> string \<Rightarrow> 's \<Rightarrow> io_error option \<times> string \<times> 's"
  where
  "emit_utf8 emit kind final_flush carry bytes s
     = (let buf = carry @ bytes
        in if buf = [] then (None, [], s)
           else case from_utf8 buf of
             None \<Rightarrow> (let (r, s') = emit kind buf s in (r, [], s'))
           | Some (good, error_len) \<Rightarrow>
             (case (if take good buf \<noteq> [] then emit kind (take good buf) s else (None, s)) of
                (Some e, s1) \<Rightarrow> (Some e, buf, s1)
              | (None, s1) \<Rightarrow>
                (case error_len of
                   None \<Rightarrow>
                     (let tail = drop good buf
                      in if final_flush \<and> tail \<noteq> []
                         then (let (r, s2) = emit kind (from_utf8_lossy tail) s1 in (r, [], s2))
                         else (None, tail, s1))
                 | Some bad \<Rightarrow>
                     (case emit kind (from_utf8_lossy (take bad (drop good buf))) s1 of
                        (Some e, s2) \<Rightarrow> (Some e, buf, s2)
                      | (None, s2) \<Rightarrow>
                          emit_utf8 emit kind final_flush [] (drop (good + bad) buf) s2))))"
  by pat_completeness auto
termination
  by (relation "measure (\<lambda>(_, _, _, carry, bytes, _). length (carry @ bytes))")
    (auto dest!: from_utf8_rest_shorter)

declare emit_utf8.simps [simp del]

subsection \<open>The streamed runner\<close>

datatype Msg = Chunk StreamKind string | is_Eof: Eof StreamKind bool | is_Exited: Exited int

text \<open>
  A reader thread: the messages it sends for a pipe.  The receiver outlives the threads,
  which are joined before the function returns, so a send does not fail.
\<close>

fun reader :: "StreamKind \<Rightarrow> nat \<Rightarrow> bool \<Rightarrow> read_result list \<Rightarrow> Msg list" where
  "reader kind sent truncated [] = [Eof kind truncated]"
| "reader kind sent truncated (r # rs)
     = (case r of
          ReadOk bytes \<Rightarrow>
            if bytes = [] then [Eof kind truncated]
            else if sent < STREAM_MAX_OUTPUT_BYTES then
              (let n = min (STREAM_MAX_OUTPUT_BYTES - sent) (length bytes)
               in Chunk kind (take n bytes)
                  # reader kind (sent + n) (truncated \<or> n < length bytes) rs)
            else reader kind sent True rs
        | ReadInterrupted \<Rightarrow> reader kind sent truncated rs
        | ReadErr e \<Rightarrow> [Eof kind truncated])"

datatype recv_result = Got Msg | RecvTimeout | RecvDisconnected

record 's loop_state =
  ls_pending :: nat
  ls_exit :: "int option"
  ls_truncated :: bool
  ls_timed_out :: bool
  ls_emit_err :: "io_error option"
  ls_out_carry :: string
  ls_err_carry :: string
  ls_kills :: nat
  ls_peer :: 's

definition carry_of :: "StreamKind \<Rightarrow> 's loop_state \<Rightarrow> string" where
  "carry_of kind st = (case kind of Stdout \<Rightarrow> ls_out_carry st | Stderr \<Rightarrow> ls_err_carry st)"

definition set_carry :: "StreamKind \<Rightarrow> string \<Rightarrow> 's loop_state \<Rightarrow> 's loop_state" where
  "set_carry kind c st
     = (case kind of Stdout \<Rightarrow> st\<lparr>ls_out_carry := c\<rparr> | Stderr \<Rightarrow> st\<lparr>ls_err_carry := c\<rparr>)"

text \<open>One call of \<open>emit_utf8\<close> on the carry of a stream; an error kills the group.\<close>

definition loop_emit ::
    "'s emitter \<Rightarrow> StreamKind \<Rightarrow> string \<Rightarrow> bool \<Rightarrow> 's loop_state \<Rightarrow> 's loop_state" where
  "loop_emit emit kind bytes final_flush st
     = (case emit_utf8 emit kind final_flush (carry_of kind st) bytes (ls_peer st) of
          (r, c, s) \<Rightarrow>
            (let st' = (set_carry kind c st)\<lparr>ls_peer := s\<rparr>
             in case r of
                  None \<Rightarrow> st'
                | Some e \<Rightarrow> st'\<lparr>ls_emit_err := Some e, ls_kills := ls_kills st' + 1\<rparr>))"

text \<open>One iteration of the loop body; the flag is the \<open>break\<close>.\<close>

definition stream_step :: "'s emitter \<Rightarrow> recv_result \<Rightarrow> 's loop_state \<Rightarrow> 's loop_state \<times> bool" where
  "stream_step emit r st
     = (case r of
          Got (Chunk kind bytes) \<Rightarrow>
            (if ls_emit_err st = None then (loop_emit emit kind bytes False st, False)
             else (st, False))
        | Got (Eof kind t) \<Rightarrow>
            (let st1 = st\<lparr>ls_pending := ls_pending st - 1, ls_truncated := ls_truncated st \<or> t\<rparr>
             in if ls_emit_err st1 = None \<and> carry_of kind st1 \<noteq> []
                then (loop_emit emit kind [] True st1, False)
                else (st1, False))
        | Got (Exited code) \<Rightarrow> (st\<lparr>ls_exit := Some code\<rparr>, False)
        | RecvTimeout \<Rightarrow>
            (if ls_timed_out st \<or> ls_emit_err st \<noteq> None then (st, True)
             else (st\<lparr>ls_timed_out := True, ls_kills := ls_kills st + 1\<rparr>, False))
        | RecvDisconnected \<Rightarrow> (st, True))"

definition loop_done :: "'s loop_state \<Rightarrow> bool" where
  "loop_done st = (ls_pending st = 0 \<and> ls_exit st \<noteq> None)"

text \<open>
  The loop over the outcomes of \<open>recv_timeout\<close>; \<open>None\<close> means that it still waits for the
  next outcome.
\<close>

fun stream_loop :: "'s emitter \<Rightarrow> recv_result list \<Rightarrow> 's loop_state \<Rightarrow> 's loop_state option" where
  "stream_loop emit [] st = (if loop_done st then Some st else None)"
| "stream_loop emit (r # rs) st
     = (if loop_done st then Some st
        else case stream_step emit r st of (st', brk) \<Rightarrow>
               if brk then Some st' else stream_loop emit rs st')"

definition stream_init :: "'s \<Rightarrow> 's loop_state" where
  "stream_init s = \<lparr>ls_pending = 2, ls_exit = None, ls_truncated = False, ls_timed_out = False,
                   ls_emit_err = None, ls_out_carry = [], ls_err_carry = [], ls_kills = 0,
                   ls_peer = s\<rparr>"

definition stream_result :: "'s loop_state \<Rightarrow> (io_error, StreamEnd) result" where
  "stream_result st
     = (case ls_emit_err st of
          Some e \<Rightarrow> Inl e
        | None \<Rightarrow>
            Inr \<lparr>se_exit_code = (if ls_timed_out st then TIMEOUT_EXIT_CODE
                               else case ls_exit st of Some c \<Rightarrow> c | None \<Rightarrow> - 1),
                 se_truncated = ls_truncated st\<rparr>)"

definition run_exec_streamed ::
    "'s emitter \<Rightarrow> (io_error, recv_result list) result \<Rightarrow> 's
      \<Rightarrow> ((io_error, StreamEnd) result \<times> 's) option" where
  "run_exec_streamed emit spawned s
     = (case spawned of
          Inl e \<Rightarrow> Some (Inl e, s)
        | Inr recvs \<Rightarrow>
            map_option (\<lambda>st. (stream_result st, ls_peer st))
              (stream_loop emit recvs (stream_init s)))"

subsection \<open>What the pipes deliver\<close>

text \<open>The bytes a list of read outcomes delivers before end of file or an error.\<close>

fun pipe_bytes :: "read_result list \<Rightarrow> string" where
  "pipe_bytes [] = []"
| "pipe_bytes (ReadOk bytes # rs) = (if bytes = [] then [] else bytes @ pipe_bytes rs)"
| "pipe_bytes (ReadInterrupted # rs) = pipe_bytes rs"
| "pipe_bytes (ReadErr e # rs) = []"

lemma read_capped_loop_eq:
  "length buf \<le> limit \<Longrightarrow>
   read_capped_loop limit rs buf t
     = (buf @ take (limit - length buf) (pipe_bytes rs),
        t \<or> limit < length buf + length (pipe_bytes rs))"
proof (induction rs arbitrary: buf t)
  case (Cons r rs)
  show ?case
  proof (cases r)
    case (ReadOk bytes)
    consider "bytes = []" | "bytes \<noteq> []" "length buf < limit" | "bytes \<noteq> []" "length buf = limit"
      using Cons.prems by fastforce
    then show ?thesis
    proof cases
      case 2
      then show ?thesis
        using Cons.IH [of "buf @ take (min (limit - length buf) (length bytes)) bytes"
            "t \<or> min (limit - length buf) (length bytes) < length bytes"] ReadOk
        by (auto simp: Let_def min_def)
    next
      case 3
      then show ?thesis using Cons.IH [of buf True] Cons.prems ReadOk by auto
    qed (use ReadOk Cons.prems in auto)
  qed (use Cons in auto)
qed auto

lemma read_capped_eq:
  "read_capped rs = (take MAX_OUTPUT_BYTES (pipe_bytes rs), MAX_OUTPUT_BYTES < length (pipe_bytes rs))"
  by (simp add: read_capped_def read_capped_loop_eq)

fun of_stream :: "StreamKind \<Rightarrow> Msg \<Rightarrow> bool" where
  "of_stream k (Chunk k' bytes) = (k' = k)"
| "of_stream k (Eof k' t) = (k' = k)"
| "of_stream k (Exited c) = False"

fun chunk_bytes :: "StreamKind \<Rightarrow> Msg list \<Rightarrow> string" where
  "chunk_bytes k [] = []"
| "chunk_bytes k (Chunk k' bytes # ms) = (if k' = k then bytes else []) @ chunk_bytes k ms"
| "chunk_bytes k (_ # ms) = chunk_bytes k ms"

text \<open>A reader sends the first bytes of its pipe up to the cap, then one end marker.\<close>

lemma reader_eq:
  "sent \<le> STREAM_MAX_OUTPUT_BYTES \<Longrightarrow>
   \<exists>cs. reader k sent t rs
          = map (Chunk k) cs @ [Eof k (t \<or> STREAM_MAX_OUTPUT_BYTES < sent + length (pipe_bytes rs))]
        \<and> concat cs = take (STREAM_MAX_OUTPUT_BYTES - sent) (pipe_bytes rs)"
proof (induction rs arbitrary: sent t)
  case (Cons r rs)
  show ?case
  proof (cases r)
    case (ReadOk bytes)
    consider "bytes = []" | "bytes \<noteq> []" "sent < STREAM_MAX_OUTPUT_BYTES"
      | "bytes \<noteq> []" "sent = STREAM_MAX_OUTPUT_BYTES"
      using Cons.prems by fastforce
    then show ?thesis
    proof cases
      case 2
      let ?n = "min (STREAM_MAX_OUTPUT_BYTES - sent) (length bytes)"
      have le: "sent + ?n \<le> STREAM_MAX_OUTPUT_BYTES"
        using 2 by (auto simp: min_def)
      obtain cs where cs: "reader k (sent + ?n) (t \<or> ?n < length bytes) rs
          = map (Chunk k) cs @ [Eof k ((t \<or> ?n < length bytes)
              \<or> STREAM_MAX_OUTPUT_BYTES < sent + ?n + length (pipe_bytes rs))]"
        "concat cs = take (STREAM_MAX_OUTPUT_BYTES - (sent + ?n)) (pipe_bytes rs)"
        using Cons.IH [of "sent + ?n" "t \<or> ?n < length bytes"] le by blast
      have e: "((t \<or> ?n < length bytes) \<or> STREAM_MAX_OUTPUT_BYTES < sent + ?n + length (pipe_bytes rs))
          = (t \<or> STREAM_MAX_OUTPUT_BYTES < sent + length (bytes @ pipe_bytes rs))"
        using 2 by (cases "pipe_bytes rs") (auto simp: min_def)
      have b: "take ?n bytes @ take (STREAM_MAX_OUTPUT_BYTES - (sent + ?n)) (pipe_bytes rs)
          = take (STREAM_MAX_OUTPUT_BYTES - sent) (bytes @ pipe_bytes rs)"
        using 2 by (auto simp: min_def)
      show ?thesis
        using 2 ReadOk cs e b
        by (intro exI [of _ "take ?n bytes # cs"]) (simp add: Let_def)
    next
      case 3
      then show ?thesis using Cons.IH [of sent True] ReadOk by auto
    qed (use ReadOk Cons.prems in auto)
  qed (use Cons in auto)
qed auto

lemma set_carry_simps [simp]:
  "ls_pending (set_carry k c st) = ls_pending st" "ls_exit (set_carry k c st) = ls_exit st"
  "ls_truncated (set_carry k c st) = ls_truncated st"
  "ls_timed_out (set_carry k c st) = ls_timed_out st"
  "ls_emit_err (set_carry k c st) = ls_emit_err st" "ls_kills (set_carry k c st) = ls_kills st"
  "ls_peer (set_carry k c st) = ls_peer st"
  "carry_of k' (set_carry k c st) = (if k' = k then c else carry_of k' st)"
  by (auto simp: set_carry_def carry_of_def split: StreamKind.splits)

lemma carry_of_update [simp]:
  "carry_of k (st\<lparr>ls_peer := s\<rparr>) = carry_of k st"
  "carry_of k (st\<lparr>ls_pending := p\<rparr>) = carry_of k st"
  "carry_of k (st\<lparr>ls_truncated := t\<rparr>) = carry_of k st"
  "carry_of k (st\<lparr>ls_exit := x\<rparr>) = carry_of k st"
  by (simp_all add: carry_of_def split: StreamKind.splits)

text \<open>
  The message lists the loop can see: interleavings of one run of each open reader (its
  chunks, then its end marker) with the waiter's message.
\<close>

fun interleaved :: "(StreamKind \<Rightarrow> bool) \<Rightarrow> bool \<Rightarrow> Msg list \<Rightarrow> bool" where
  "interleaved opn ex [] = (\<not> opn Stdout \<and> \<not> opn Stderr \<and> \<not> ex)"
| "interleaved opn ex (Chunk k b # ms) = (opn k \<and> interleaved opn ex ms)"
| "interleaved opn ex (Eof k t # ms) = (opn k \<and> interleaved (opn(k := False)) ex ms)"
| "interleaved opn ex (Exited c # ms) = (ex \<and> interleaved opn False ms)"

fun any_truncated :: "Msg list \<Rightarrow> bool" where
  "any_truncated [] = False"
| "any_truncated (Eof k t # ms) = (t \<or> any_truncated ms)"
| "any_truncated (_ # ms) = any_truncated ms"

fun exited_with :: "Msg list \<Rightarrow> int option" where
  "exited_with [] = None"
| "exited_with (Exited c # ms) = Some c"
| "exited_with (_ # ms) = exited_with ms"

lemma chunk_bytes_closed: "interleaved opn ex ms \<Longrightarrow> \<not> opn k \<Longrightarrow> chunk_bytes k ms = []"
  by (induction opn ex ms rule: interleaved.induct) auto

subsection \<open>The contract of the emit callback\<close>

definition texts :: "StreamKind \<Rightarrow> (StreamKind \<times> string) list \<Rightarrow> string" where
  "texts k log = concat (map snd (filter (\<lambda>p. fst p = k) log))"

lemma texts_simps [simp]:
  "texts k [] = []"
  "texts k (p # log) = (if fst p = k then snd p else []) @ texts k log"
  "texts k (xs @ ys) = texts k xs @ texts k ys"
  by (simp_all add: texts_def)

text \<open>
  The message loop talks to the peer through a callback.  The contract of a connection
  that stays up: a call succeeds and delivers its chunk to the peer.
\<close>

locale reliable_emitter =
  fixes emit :: "'s emitter"
    and deliver :: "'s \<Rightarrow> StreamKind \<times> string \<Rightarrow> 's"
  assumes emit_ok: "emit k d s = (None, deliver s (k, d))"
begin

lemma emit_cases:
  obtains s' where "emit k d s = (None, s')" "s' = foldl deliver s [(k, d)]"
  using emit_ok by simp

text \<open>The prefix before an error is sent as one chunk, or not at all when it is empty.\<close>

lemma emit_prefix:
  assumes "valid_utf8 pre"
  obtains s1 new where
    "(if pre \<noteq> [] then emit k pre s else (None, s)) = (None, s1)"
    "s1 = foldl deliver s (map (Pair k) new)" "concat new = pre" "\<forall>d \<in> set new. valid_utf8 d \<and> d \<noteq> []"
proof (cases "pre = []")
  case True
  then show ?thesis using that [of s "[]"] by simp
next
  case False
  obtain s' where "emit k pre s = (None, s')" "s' = foldl deliver s ([(k, pre)])"
    by (rule emit_cases)
  then show ?thesis using that [of s' "[pre]"] False assms by simp
qed

definition emitted :: "StreamKind \<Rightarrow> bool \<Rightarrow> string \<Rightarrow> string \<Rightarrow> 's \<Rightarrow> bool" where
  "emitted k final carry bytes s
     = (\<exists>carry' s' new. emit_utf8 emit k final carry bytes s = (None, carry', s')
         \<and> s' = foldl deliver s (map (Pair k) new) \<and> (\<forall>d \<in> set new. valid_utf8 d \<and> d \<noteq> [])
         \<and> (if final then carry' = [] \<and> concat new = from_utf8_lossy (carry @ bytes)
            else \<forall>t. from_utf8_lossy (carry @ bytes @ t)
                      = concat new @ from_utf8_lossy (carry' @ t)))"

lemma emitted_incomplete:
  assumes e: "from_utf8 (carry @ bytes) = Some (good, None)"
  shows "emitted k final carry bytes s"
proof -
  let ?buf = "carry @ bytes"
  have v: "valid_utf8 (take good ?buf)"
    using from_utf8_take [OF e] by (simp add: valid_utf8_def)
  obtain s1 new where p: "(if take good ?buf \<noteq> [] then emit k (take good ?buf) s else (None, s)) = (None, s1)"
    "s1 = foldl deliver s (map (Pair k) new)" "concat new = take good ?buf"
    "\<forall>d \<in> set new. valid_utf8 d \<and> d \<noteq> []"
    using emit_prefix [OF v] by blast
  have ne: "?buf \<noteq> []" "drop good ?buf \<noteq> []" using from_utf8_bounds [OF e] by auto
  have tail: "from_utf8_lossy (drop good ?buf) = replacement"
    using from_utf8_drop [OF e] by (rule lossy_incomplete)
  show ?thesis
  proof (cases final)
    case True
    obtain s2 where s2: "emit k replacement s1 = (None, s2)" "s2 = foldl deliver s1 ([(k, replacement)])"
      by (rule emit_cases)
    have "emit_utf8 emit k final carry bytes s = (None, [], s2)"
      using ne e p(1) tail s2(1) True by (simp add: emit_utf8.simps Let_def del: append_is_Nil_conv)
    moreover have "replacement \<noteq> []" by (simp add: replacement_def)
    ultimately show ?thesis
      using True p s2 lossy_error [OF e]
      unfolding emitted_def by (intro exI [of _ "[]"] exI [of _ s2] exI [of _ "new @ [replacement]"]) simp
  next
    case False
    have "emit_utf8 emit k final carry bytes s = (None, drop good ?buf, s1)"
      using ne e p(1) False by (simp add: emit_utf8.simps Let_def del: append_is_Nil_conv)
    then show ?thesis
      using False p lossy_incomplete_append [OF e]
      unfolding emitted_def by (intro exI [of _ "drop good ?buf"] exI [of _ s1] exI [of _ new]) simp
  qed
qed

lemma emitted_bad:
  assumes e: "from_utf8 (carry @ bytes) = Some (good, Some bad)"
    and IH: "\<And>s. emitted k final [] (drop (good + bad) (carry @ bytes)) s"
  shows "emitted k final carry bytes s"
proof -
  let ?buf = "carry @ bytes"
  have v: "valid_utf8 (take good ?buf)"
    using from_utf8_take [OF e] by (simp add: valid_utf8_def)
  obtain s1 new where p: "(if take good ?buf \<noteq> [] then emit k (take good ?buf) s else (None, s)) = (None, s1)"
    "s1 = foldl deliver s (map (Pair k) new)" "concat new = take good ?buf"
    "\<forall>d \<in> set new. valid_utf8 d \<and> d \<noteq> []"
    using emit_prefix [OF v] by blast
  obtain s2 where s2: "emit k replacement s1 = (None, s2)" "s2 = foldl deliver s1 ([(k, replacement)])"
    by (rule emit_cases)
  obtain carry' s' rest where i: "emit_utf8 emit k final [] (drop (good + bad) ?buf) s2 = (None, carry', s')"
    "s' = foldl deliver s2 (map (Pair k) rest)" "\<forall>d \<in> set rest. valid_utf8 d \<and> d \<noteq> []"
    "if final then carry' = [] \<and> concat rest = from_utf8_lossy (drop (good + bad) ?buf)
     else \<forall>t. from_utf8_lossy (drop (good + bad) ?buf @ t) = concat rest @ from_utf8_lossy (carry' @ t)"
    using IH [of s2] unfolding emitted_def by (simp only: append_Nil) blast
  have ne: "?buf \<noteq> []" "replacement \<noteq> []"
    using from_utf8_bounds [OF e] by (auto simp: replacement_def)
  have "emit_utf8 emit k final carry bytes s = (None, carry', s')"
    using ne e p(1) lossy_bad_piece [OF e] s2(1) i(1)
    by (subst emit_utf8.simps) (simp add: Let_def del: append_is_Nil_conv)
  then show ?thesis
    using p s2 i ne lossy_error [OF e] lossy_error_append [OF e]
    unfolding emitted_def
    by (intro exI [of _ carry'] exI [of _ s'] exI [of _ "new @ replacement # rest"]) auto
qed

lemma emit_utf8_spec: "emitted k final carry bytes s"
proof (induction "length (carry @ bytes)" arbitrary: carry bytes s rule: less_induct)
  case (less carry bytes s)
  let ?buf = "carry @ bytes"
  show ?case
  proof (cases "from_utf8 ?buf")
    case None
    obtain s' where s': "emit k ?buf s = (None, s')" "s' = foldl deliver s ([(k, ?buf)])"
      by (rule emit_cases)
    have v: "valid_utf8 ?buf" using None by (simp add: valid_utf8_def)
    show ?thesis
    proof (cases "?buf = []")
      case True
      then show ?thesis
        unfolding emitted_def by (simp add: emit_utf8.simps exI [of _ "[]"])
    next
      case False
      then have "emit_utf8 emit k final carry bytes s = (None, [], s')"
        using s' None by (simp add: emit_utf8.simps Let_def del: append_is_Nil_conv)
      then show ?thesis
        using s' v False lossy_valid [OF v] lossy_valid_append [OF v]
        unfolding emitted_def
        by (intro exI [of _ "[]"] exI [of _ s'] exI [of _ "[?buf]"]) auto
    qed
  next
    case (Some err)
    obtain good el where err: "err = (good, el)" by (cases err)
    show ?thesis
    proof (cases el)
      case None
      then show ?thesis using emitted_incomplete Some err by simp
    next
      case (Some bad)
      have e: "from_utf8 ?buf = Some (good, Some bad)"
        using \<open>from_utf8 ?buf = Some err\<close> err Some by simp
      have "emitted k final [] (drop (good + bad) ?buf) s" for s
        by (rule less.hyps) (simp only: append_Nil from_utf8_rest_shorter [OF e])
      then show ?thesis using emitted_bad [OF e] by blast
    qed
  qed
qed

text \<open>
  The loop on a message list that holds, for each stream, its chunks followed by its end
  marker: every stream's text is the lossy decoding of its bytes.
\<close>

definition emit_post ::
    "StreamKind \<Rightarrow> bool \<Rightarrow> string \<Rightarrow> 's loop_state \<Rightarrow> 's loop_state \<Rightarrow> string list \<Rightarrow> bool" where
  "emit_post k final bytes st st' new
     = (ls_peer st' = foldl deliver (ls_peer st) (map (Pair k) new)
        \<and> (\<forall>d \<in> set new. valid_utf8 d \<and> d \<noteq> [])
        \<and> (if final then carry_of k st' = [] \<and> concat new = from_utf8_lossy (carry_of k st @ bytes)
           else \<forall>t. from_utf8_lossy (carry_of k st @ bytes @ t)
                     = concat new @ from_utf8_lossy (carry_of k st' @ t))
        \<and> (\<forall>k'. k' \<noteq> k \<longrightarrow> carry_of k' st' = carry_of k' st)
        \<and> ls_pending st' = ls_pending st \<and> ls_exit st' = ls_exit st
        \<and> ls_truncated st' = ls_truncated st \<and> ls_timed_out st' = ls_timed_out st
        \<and> ls_emit_err st' = None \<and> ls_kills st' = ls_kills st)"

lemma loop_emit_spec:
  assumes "ls_emit_err st = None"
  shows "\<exists>new. emit_post k final bytes st (loop_emit emit k bytes final st) new"
proof -
  obtain c s new where e: "emit_utf8 emit k final (carry_of k st) bytes (ls_peer st) = (None, c, s)"
    "s = foldl deliver (ls_peer st) (map (Pair k) new)" "\<forall>d \<in> set new. valid_utf8 d \<and> d \<noteq> []"
    "if final then c = [] \<and> concat new = from_utf8_lossy (carry_of k st @ bytes)
     else \<forall>t. from_utf8_lossy (carry_of k st @ bytes @ t) = concat new @ from_utf8_lossy (c @ t)"
    using emit_utf8_spec [of k final "carry_of k st" bytes "ls_peer st"]
    unfolding emitted_def by blast
  then have "emit_post k final bytes st (loop_emit emit k bytes final st) new"
    using assms by (simp add: loop_emit_def emit_post_def)
  then show ?thesis ..
qed

text \<open>
  The loop on an interleaving of the threads' messages: it ends, reports the exit code
  and the truncation flags, and each stream's text is the lossy decoding of its bytes.
\<close>

definition loop_post ::
    "(StreamKind \<Rightarrow> bool) \<Rightarrow> bool \<Rightarrow> Msg list \<Rightarrow> 's loop_state \<Rightarrow> 's loop_state
      \<Rightarrow> (StreamKind \<times> string) list \<Rightarrow> bool" where
  "loop_post opn ex ms st st' new
     = (ls_emit_err st' = None \<and> \<not> ls_timed_out st' \<and> ls_kills st' = ls_kills st
        \<and> ls_truncated st' = (ls_truncated st \<or> any_truncated ms)
        \<and> ls_exit st' = (if ex then exited_with ms else ls_exit st)
        \<and> ls_peer st' = foldl deliver (ls_peer st) (new)
        \<and> (\<forall>p \<in> set new. valid_utf8 (snd p) \<and> snd p \<noteq> [])
        \<and> (\<forall>k. texts k new = (if opn k then from_utf8_lossy (carry_of k st @ chunk_bytes k ms) else [])))"

definition loop_pre :: "(StreamKind \<Rightarrow> bool) \<Rightarrow> bool \<Rightarrow> 's loop_state \<Rightarrow> bool" where
  "loop_pre opn ex st
     = (ls_emit_err st = None \<and> \<not> ls_timed_out st \<and> (ls_exit st = None) = ex
        \<and> ls_pending st = of_bool (opn Stdout) + of_bool (opn Stderr))"

lemma loop_pre_open: "loop_pre opn ex st \<Longrightarrow> opn k \<Longrightarrow> \<not> loop_done st"
  by (cases k) (auto simp: loop_pre_def loop_done_def)

lemma texts_pair [simp]: "texts k (map (Pair k') new) = (if k' = k then concat new else [])"
  by (induction new) auto

lemma loop_chunk:
  assumes pre: "loop_pre opn ex st" and k: "opn k"
    and step: "loop_emit emit k b False st = st1"
    and IH: "loop_pre opn ex st1 \<Longrightarrow> stream_loop emit (map Got ms) st1 = Some st' \<and> loop_post opn ex ms st1 st' new"
  shows "\<exists>new. stream_loop emit (map Got (Chunk k b # ms)) st = Some st'
           \<and> loop_post opn ex (Chunk k b # ms) st st' new"
proof -
  obtain new1 where e: "emit_post k False b st st1 new1"
    using loop_emit_spec [of st k False b] pre step by (auto simp: loop_pre_def)
  have "loop_pre opn ex st1" using pre e by (simp add: loop_pre_def emit_post_def)
  note i = IH [OF this]
  have "stream_loop emit (map Got (Chunk k b # ms)) st = Some st'"
    using loop_pre_open [OF pre k] pre step i by (simp add: stream_step_def loop_pre_def)
  moreover have "texts k' (map (Pair k) new1 @ new)
      = (if opn k' then from_utf8_lossy (carry_of k' st @ chunk_bytes k' (Chunk k b # ms)) else [])"
      for k'
    using e i k by (auto simp: loop_post_def emit_post_def)
  ultimately show ?thesis
    using e i
    by (intro exI [of _ "map (Pair k) new1 @ new"]) (auto simp: loop_post_def emit_post_def)
qed

lemma loop_eof:
  assumes pre: "loop_pre opn ex st" and k: "opn k" and il: "interleaved (opn(k := False)) ex ms"
    and step: "stream_step emit (Got (Eof k t)) st = (st1, False)"
    and IH: "loop_pre (opn(k := False)) ex st1 \<Longrightarrow>
        stream_loop emit (map Got ms) st1 = Some st' \<and> loop_post (opn(k := False)) ex ms st1 st' new"
  shows "\<exists>new. stream_loop emit (map Got (Eof k t # ms)) st = Some st'
           \<and> loop_post opn ex (Eof k t # ms) st st' new"
proof -
  let ?st = "st\<lparr>ls_pending := ls_pending st - 1, ls_truncated := ls_truncated st \<or> t\<rparr>"
  have "\<exists>new1. emit_post k True [] ?st st1 new1"
  proof (cases "carry_of k st = []")
    case True
    then show ?thesis
      using step pre by (intro exI [of _ "[]"]) (auto simp: stream_step_def loop_pre_def emit_post_def)
  next
    case False
    then have "loop_emit emit k [] True ?st = st1"
      using step pre by (auto simp: stream_step_def loop_pre_def)
    then show ?thesis
      using loop_emit_spec [of ?st k True "[]"] pre by (auto simp: loop_pre_def)
  qed
  then obtain new1 where e: "emit_post k True [] ?st st1 new1" ..
  have "loop_pre (opn(k := False)) ex st1"
    using pre e k by (cases k) (simp_all add: loop_pre_def emit_post_def)
  note i = IH [OF this]
  have "stream_loop emit (map Got (Eof k t # ms)) st = Some st'"
    using loop_pre_open [OF pre k] step i by simp
  moreover have "texts k' (map (Pair k) new1 @ new)
      = (if opn k' then from_utf8_lossy (carry_of k' st @ chunk_bytes k' (Eof k t # ms)) else [])"
      for k'
    using e i k chunk_bytes_closed [OF il, of k] by (auto simp: loop_post_def emit_post_def)
  ultimately show ?thesis
    using e i
    by (intro exI [of _ "map (Pair k) new1 @ new"]) (auto simp: loop_post_def emit_post_def)
qed

lemma stream_loop_spec:
  "interleaved opn ex ms \<Longrightarrow> loop_pre opn ex st \<Longrightarrow>
   \<exists>st' new. stream_loop emit (map Got ms) st = Some st' \<and> loop_post opn ex ms st st' new"
proof (induction opn ex ms arbitrary: st rule: interleaved.induct)
  case (1 opn ex)
  then have "\<not> opn k" for k by (cases k) auto
  with 1 show ?case
    by (intro exI [of _ st] exI [of _ "[]"]) (auto simp: loop_done_def loop_pre_def loop_post_def)
next
  case (2 opn ex k b ms)
  then show ?case using loop_chunk [of opn ex st k b] by (metis interleaved.simps(2))
next
  case (3 opn ex k t ms)
  obtain st1 where "stream_step emit (Got (Eof k t)) st = (st1, False)"
    by (cases "ls_emit_err st = None \<and> carry_of k st \<noteq> []") (auto simp: stream_step_def Let_def)
  with 3 show ?case using loop_eof [of opn ex st k ms t st1] by (metis interleaved.simps(3))
next
  case (4 opn ex c ms)
  then have nd: "\<not> loop_done st" by (auto simp: loop_pre_def loop_done_def)
  let ?st = "st\<lparr>ls_exit := Some c\<rparr>"
  have "loop_pre opn False ?st" using 4 by (simp add: loop_pre_def)
  then obtain st' new where "stream_loop emit (map Got ms) ?st = Some st'"
      "loop_post opn False ms ?st st' new"
    using 4 by (metis interleaved.simps(4))
  with nd 4 show ?case
    by (intro exI [of _ st'] exI [of _ new]) (simp add: stream_step_def loop_post_def)
qed

end

subsection \<open>The emitter that records what it is given\<close>

definition record_emit :: "(StreamKind \<times> string) list emitter" where
  "record_emit k d log = (None, log @ [(k, d)])"

interpretation recorded: reliable_emitter record_emit "\<lambda>log p. log @ [p]"
  by unfold_locales (simp add: record_emit_def)

lemma foldl_snoc [simp]: "foldl (\<lambda>log p. log @ [p]) xs ys = xs @ ys"
  by (induction ys arbitrary: xs) simp_all

subsection \<open>Interleavings of the reader threads\<close>

lemma interleaved_filters:
  assumes "\<And>k. filter (of_stream k) ms = (if opn k then map (Chunk k) (cs k) @ [Eof k (t k)] else [])"
    and "filter is_Exited ms = (if ex then [Exited c] else [])"
  shows "interleaved opn ex ms
         \<and> (\<forall>k. chunk_bytes k ms = (if opn k then concat (cs k) else []))
         \<and> any_truncated ms = (\<exists>k. opn k \<and> t k) \<and> (ex \<longrightarrow> exited_with ms = Some c)"
  using assms
proof (induction ms arbitrary: opn ex cs)
  case Nil
  have "\<not> opn k" for k using Nil(1) [of k] by (auto split: if_splits)
  then show ?case using Nil(2) by (auto split: if_splits)
next
  case (Cons m ms)
  show ?case
  proof (cases m)
    case (Chunk k b)
    have k: "opn k" "cs k = b # tl (cs k)"
      using Cons.prems(1) [of k] Chunk by (cases "cs k", auto split: if_splits)+
    have f: "filter (of_stream k') ms
        = (if opn k' then map (Chunk k') ((cs(k := tl (cs k))) k') @ [Eof k' (t k')] else [])" for k'
      using Cons.prems(1) [of k'] Chunk k by (cases "cs k") (auto split: if_splits)
    have "concat (cs k) = b @ concat (tl (cs k))"
      using k(2) by (metis concat.simps(2))
    then show ?thesis
      using Cons.IH [of opn "cs(k := tl (cs k))" ex, OF f] Cons.prems(2) Chunk k(1) by auto
  next
    case (Eof k b)
    have k: "opn k" "cs k = []" "t k = b"
      using Cons.prems(1) [of k] Eof by (cases "cs k", auto split: if_splits)+
    define rest where "rest = opn(k := False)"
    have rest: "rest k' = (k' \<noteq> k \<and> opn k')" for k' by (simp add: rest_def)
    have f: "filter (of_stream k') ms
        = (if rest k' then map (Chunk k') (cs k') @ [Eof k' (t k')] else [])" for k'
      using Cons.prems(1) [of k'] Eof k by (auto simp: rest split: if_splits)
    have "interleaved rest ex ms \<and> (\<forall>k'. chunk_bytes k' ms = (if rest k' then concat (cs k') else []))
        \<and> any_truncated ms = (\<exists>k'. rest k' \<and> t k') \<and> (ex \<longrightarrow> exited_with ms = Some c)"
      using Cons.IH [of rest cs ex, OF f] Cons.prems(2) Eof by simp
    then show ?thesis
      using Eof k by (auto simp: rest simp flip: rest_def)
  next
    case (Exited d)
    have f: "filter (of_stream k') ms
        = (if opn k' then map (Chunk k') (cs k') @ [Eof k' (t k')] else [])" for k'
      using Cons.prems(1) [of k'] Exited by simp
    show ?thesis
      using Cons.IH [of opn cs False, OF f] Cons.prems(2) Exited by (auto split: if_splits)
  qed
qed

text \<open>
  \<open>ms\<close> is what the channel delivers in a run without timeout: an interleaving of the
  messages of the two reader threads and the waiter.
\<close>

definition thread_messages ::
    "read_result list \<Rightarrow> read_result list \<Rightarrow> int \<Rightarrow> Msg list \<Rightarrow> bool" where
  "thread_messages outs errs c ms
     = (filter (of_stream Stdout) ms = reader Stdout 0 False outs
        \<and> filter (of_stream Stderr) ms = reader Stderr 0 False errs
        \<and> filter is_Exited ms = [Exited c])"

lemma thread_messages_interleaved:
  assumes "thread_messages outs errs c ms"
  shows "interleaved (\<lambda>_. True) True ms
         \<and> chunk_bytes Stdout ms = take STREAM_MAX_OUTPUT_BYTES (pipe_bytes outs)
         \<and> chunk_bytes Stderr ms = take STREAM_MAX_OUTPUT_BYTES (pipe_bytes errs)
         \<and> any_truncated ms = (STREAM_MAX_OUTPUT_BYTES < length (pipe_bytes outs)
                                \<or> STREAM_MAX_OUTPUT_BYTES < length (pipe_bytes errs))
         \<and> exited_with ms = Some c"
proof -
  obtain co where co: "reader Stdout 0 False outs
      = map (Chunk Stdout) co @ [Eof Stdout (STREAM_MAX_OUTPUT_BYTES < length (pipe_bytes outs))]"
    "concat co = take STREAM_MAX_OUTPUT_BYTES (pipe_bytes outs)"
    using reader_eq [of 0 Stdout False outs] by auto
  obtain ce where ce: "reader Stderr 0 False errs
      = map (Chunk Stderr) ce @ [Eof Stderr (STREAM_MAX_OUTPUT_BYTES < length (pipe_bytes errs))]"
    "concat ce = take STREAM_MAX_OUTPUT_BYTES (pipe_bytes errs)"
    using reader_eq [of 0 Stderr False errs] by auto
  let ?cs = "case_StreamKind co ce"
  let ?t = "case_StreamKind (STREAM_MAX_OUTPUT_BYTES < length (pipe_bytes outs))
              (STREAM_MAX_OUTPUT_BYTES < length (pipe_bytes errs))"
  have "filter (of_stream k) ms = (if True then map (Chunk k) (?cs k) @ [Eof k (?t k)] else [])" for k
    using assms co(1) ce(1) by (cases k) (simp_all add: thread_messages_def)
  from interleaved_filters [of ms "\<lambda>_. True" ?cs ?t True c, OF this]
  have "interleaved (\<lambda>_. True) True ms \<and> (\<forall>k. chunk_bytes k ms = concat (?cs k))
      \<and> any_truncated ms = (\<exists>k. ?t k) \<and> exited_with ms = Some c"
    using assms by (simp add: thread_messages_def)
  moreover have "(\<exists>k. ?t k) = (?t Stdout \<or> ?t Stderr)"
    by (metis StreamKind.exhaust)
  ultimately show ?thesis using co(2) ce(2) by simp
qed

definition decoded_log ::
    "read_result list \<Rightarrow> read_result list \<Rightarrow> (StreamKind \<times> string) list \<Rightarrow> bool" where
  "decoded_log outs errs log
     = (texts Stdout log = from_utf8_lossy (take STREAM_MAX_OUTPUT_BYTES (pipe_bytes outs))
        \<and> texts Stderr log = from_utf8_lossy (take STREAM_MAX_OUTPUT_BYTES (pipe_bytes errs))
        \<and> list_all (\<lambda>(k, d). valid_utf8 d \<and> d \<noteq> []) log)"

definition stream_end :: "read_result list \<Rightarrow> read_result list \<Rightarrow> int \<Rightarrow> StreamEnd" where
  "stream_end outs errs c
     = \<lparr>se_exit_code = c,
        se_truncated = (STREAM_MAX_OUTPUT_BYTES < length (pipe_bytes outs)
                        \<or> STREAM_MAX_OUTPUT_BYTES < length (pipe_bytes errs))\<rparr>"

context reliable_emitter
begin

lemma streamed_run:
  assumes "thread_messages outs errs c ms"
  shows "\<exists>s' log. run_exec_streamed emit (Inr (map Got ms)) s = Some (Inr (stream_end outs errs c), s')
           \<and> s' = foldl deliver s (log) \<and> decoded_log outs errs log"
proof -
  note il = thread_messages_interleaved [OF assms]
  have "loop_pre (\<lambda>_. True) True (stream_init s)"
    by (simp add: loop_pre_def stream_init_def)
  then obtain st' log where r: "stream_loop emit (map Got ms) (stream_init s) = Some st'"
      "loop_post (\<lambda>_. True) True ms (stream_init s) st' log"
    using il stream_loop_spec by blast
  have "stream_result st' = Inr (stream_end outs errs c)"
    using r(2) il by (simp add: loop_post_def stream_result_def stream_end_def stream_init_def)
  moreover have "carry_of k (stream_init s) = []" for k
    by (simp add: stream_init_def carry_of_def split: StreamKind.splits)
  then have "decoded_log outs errs log"
    using r(2) il by (simp add: decoded_log_def loop_post_def list_all_iff case_prod_beta)
  ultimately show ?thesis
    using r by (auto simp: run_exec_streamed_def loop_post_def stream_init_def)
qed

end

subsection \<open>Timeouts\<close>

lemma stream_loop_timed_out_kept:
  "stream_loop emit rs st = Some st' \<Longrightarrow> ls_timed_out st \<Longrightarrow> ls_timed_out st'"
proof (induction rs arbitrary: st)
  case (Cons r rs)
  have "ls_timed_out (fst (stream_step emit r st))"
    using Cons.prems(2)
    by (auto simp: stream_step_def loop_emit_def Let_def split: recv_result.splits Msg.splits
        option.splits prod.splits)
  then show ?case
    using Cons by (auto split: if_splits prod.splits)
qed (auto split: if_splits)

lemma stream_loop_emit_err_kept:
  "stream_loop emit rs st = Some st' \<Longrightarrow> ls_emit_err st \<noteq> None \<Longrightarrow> ls_emit_err st' \<noteq> None"
proof (induction rs arbitrary: st)
  case (Cons r rs)
  have "ls_emit_err (fst (stream_step emit r st)) \<noteq> None"
    using Cons.prems(2)
    by (auto simp: stream_step_def Let_def split: recv_result.splits Msg.splits)
  then show ?case
    using Cons by (auto split: if_splits prod.splits)
qed (auto split: if_splits)

text \<open>Once the group was killed, the next timeout of the channel ends the loop.\<close>

lemma stream_loop_ends:
  assumes "ls_timed_out st \<or> ls_emit_err st \<noteq> None"
  shows "\<exists>st'. stream_loop emit (rs @ [RecvTimeout]) st = Some st'"
  using assms
proof (induction rs arbitrary: st)
  case Nil
  then show ?case by (auto simp: stream_step_def)
next
  case (Cons r rs)
  obtain st1 b where s: "stream_step emit r st = (st1, b)" by fastforce
  have "ls_timed_out st1 \<or> ls_emit_err st1 \<noteq> None"
    using Cons.prems s
    by (auto simp: stream_step_def loop_emit_def Let_def split: recv_result.splits Msg.splits
        option.splits prod.splits if_splits)
  then show ?case using Cons.IH [of st1] s by auto
qed

lemma stream_loop_split:
  "stream_loop emit pre st = None \<Longrightarrow>
   \<exists>st1. stream_loop emit (pre @ rs) st = stream_loop emit rs st1 \<and> \<not> loop_done st1"
proof (induction pre arbitrary: st)
  case (Cons r pre)
  then show ?case by (auto split: if_splits prod.splits)
qed (auto split: if_splits)

lemma streamed_timeout_general:
  assumes "stream_loop emit pre st = None"
  shows "\<exists>st'. stream_loop emit (pre @ RecvTimeout # post @ [RecvTimeout]) st = Some st'
           \<and> (ls_timed_out st' \<or> ls_emit_err st' \<noteq> None)"
proof -
  obtain st1 where st1: "stream_loop emit (pre @ RecvTimeout # post @ [RecvTimeout]) st
      = stream_loop emit (RecvTimeout # post @ [RecvTimeout]) st1" "\<not> loop_done st1"
    using stream_loop_split [OF assms] by blast
  show ?thesis
  proof (cases "ls_timed_out st1 \<or> ls_emit_err st1 \<noteq> None")
    case True
    then show ?thesis using st1 by (auto simp: stream_step_def)
  next
    case False
    let ?st = "st1\<lparr>ls_timed_out := True, ls_kills := ls_kills st1 + 1\<rparr>"
    obtain st' where st': "stream_loop emit (post @ [RecvTimeout]) ?st = Some st'"
      using stream_loop_ends [of ?st emit post] by auto
    then show ?thesis
      using st1 False stream_loop_timed_out_kept [OF st'] by (simp add: stream_step_def)
  qed
qed

subsection \<open>Properties\<close>

text \<open>
  C13. Streaming an execution is the same as decoding its whole output.  For every
  interleaving of the messages of the two reader threads and the waiter, however the
  pipes were cut into reads, the streamed runner returns the child's exit code, the
  chunks it emitted on each stream concatenate to the lossy UTF-8 decoding of the first
  16 MiB of that pipe, every chunk is valid UTF-8 and not empty, and the truncation
  flag says whether one of the pipes delivered more than 16 MiB.
\<close>

theorem streamed_output_is_lossy_decoding:
  assumes "filter (of_stream Stdout) ms = reader Stdout 0 False outs"
    and "filter (of_stream Stderr) ms = reader Stderr 0 False errs"
    and "filter is_Exited ms = [Exited c]"
  shows "\<exists>log. run_exec_streamed record_emit (Inr (map Got ms)) []
             = Some (Inr \<lparr>se_exit_code = c,
                          se_truncated = (STREAM_MAX_OUTPUT_BYTES < length (pipe_bytes outs)
                                          \<or> STREAM_MAX_OUTPUT_BYTES < length (pipe_bytes errs))\<rparr>, log)
           \<and> texts Stdout log = from_utf8_lossy (take STREAM_MAX_OUTPUT_BYTES (pipe_bytes outs))
           \<and> texts Stderr log = from_utf8_lossy (take STREAM_MAX_OUTPUT_BYTES (pipe_bytes errs))
           \<and> list_all (\<lambda>(k, d). valid_utf8 d \<and> d \<noteq> []) log"
  using recorded.streamed_run [of outs errs c ms "[]"] assms
  by (auto simp: thread_messages_def decoded_log_def stream_end_def)

text \<open>The two bytes of e-acute in two reads, with a message of the other stream between them.\<close>

theorem streamed_output_is_lossy_decoding_witness:
  "\<exists>log. run_exec_streamed record_emit
      (Inr (map Got [Chunk Stdout [CHR ''a'', CHR 0xC3], Chunk Stderr ''e'', Chunk Stdout [CHR 0xA9],
                     Eof Stderr False, Exited 3, Eof Stdout False])) []
      = Some (Inr \<lparr>se_exit_code = 3, se_truncated = False\<rparr>, log)
    \<and> texts Stdout log = [CHR ''a'', CHR 0xC3, CHR 0xA9] \<and> texts Stderr log = ''e''"
proof -
  let ?outs = "[ReadOk [CHR ''a'', CHR 0xC3], ReadInterrupted, ReadOk [CHR 0xA9], ReadOk []]"
  let ?errs = "[ReadOk ''e'']"
  let ?ms = "[Chunk Stdout [CHR ''a'', CHR 0xC3], Chunk Stderr ''e'', Chunk Stdout [CHR 0xA9],
              Eof Stderr False, Exited 3, Eof Stdout False]"
  have "filter (of_stream Stdout) ?ms = reader Stdout 0 False ?outs"
    and "filter (of_stream Stderr) ?ms = reader Stderr 0 False ?errs"
    and "filter is_Exited ?ms = [Exited 3]"
    by (simp_all add: STREAM_MAX_OUTPUT_BYTES_def)
  note r = streamed_output_is_lossy_decoding [OF this]
  have "from_utf8_lossy [CHR ''a'', CHR 0xC3, CHR 0xA9] = [CHR ''a'', CHR 0xC3, CHR 0xA9]"
    and "from_utf8_lossy ''e'' = ''e''"
    by (simp_all add: utf8_head_def utf8_char_width_def in_range_def is_cont_def Let_def)
  then show ?thesis
    using r by (auto simp: STREAM_MAX_OUTPUT_BYTES_def)
qed

text \<open>
  C25. The streamed and the buffered runner agree: when neither pipe delivers more than
  1 MiB and the child exits in time, the buffered response holds exactly the text, the
  exit code and the truncation flag that the streamed run of the same child produces.
\<close>

theorem streamed_equals_buffered:
  assumes "thread_messages outs errs (status_to_code st) ms"
    and "length (pipe_bytes outs) \<le> MAX_OUTPUT_BYTES"
    and "length (pipe_bytes errs) \<le> MAX_OUTPUT_BYTES"
  shows "\<exists>o' e log. run_exec (Inr \<lparr>cr_pid = pid, cr_stdout = outs, cr_stderr = errs,
                                cr_status = st, cr_recv = CodeInTime\<rparr>) = (Inr o', [])
           \<and> run_exec_streamed record_emit (Inr (map Got ms)) [] = Some (Inr e, log)
           \<and> eo_stdout o' = texts Stdout log \<and> eo_stderr o' = texts Stderr log
           \<and> eo_exit_code o' = se_exit_code e \<and> \<not> eo_truncated o' \<and> \<not> se_truncated e"
proof -
  have "take STREAM_MAX_OUTPUT_BYTES (pipe_bytes outs) = pipe_bytes outs"
    "take STREAM_MAX_OUTPUT_BYTES (pipe_bytes errs) = pipe_bytes errs"
    "\<not> STREAM_MAX_OUTPUT_BYTES < length (pipe_bytes outs)"
    "\<not> STREAM_MAX_OUTPUT_BYTES < length (pipe_bytes errs)"
    using assms(2,3) by (simp_all add: STREAM_MAX_OUTPUT_BYTES_def MAX_OUTPUT_BYTES_def)
  then show ?thesis
    using recorded.streamed_run [OF assms(1), of "[]"] assms(2,3)
    by (auto simp: decoded_log_def stream_end_def run_exec_def read_capped_eq Let_def)
qed

theorem streamed_equals_buffered_witness:
  "\<exists>o' e log. run_exec (Inr \<lparr>cr_pid = 7, cr_stdout = [ReadOk ''hi''], cr_stderr = [],
                             cr_status = WaitOk None (Some 9), cr_recv = CodeInTime\<rparr>) = (Inr o', [])
     \<and> run_exec_streamed record_emit
         (Inr (map Got [Eof Stderr False, Chunk Stdout ''hi'', Exited 137, Eof Stdout False])) []
         = Some (Inr e, log)
     \<and> eo_stdout o' = texts Stdout log \<and> eo_exit_code o' = se_exit_code e"
proof -
  have "thread_messages [ReadOk ''hi''] [] (status_to_code (WaitOk None (Some 9)))
      [Eof Stderr False, Chunk Stdout ''hi'', Exited 137, Eof Stdout False]"
    by (simp add: thread_messages_def status_to_code_def STREAM_MAX_OUTPUT_BYTES_def)
  from streamed_equals_buffered [OF this, of 7] show ?thesis
    by (auto simp: MAX_OUTPUT_BYTES_def)
qed

text \<open>
  A run that exceeds its deadline ends.  If the loop is still waiting after the
  outcomes \<open>pre\<close> and the channel then times out, the runner returns at the latest with
  the second timeout, whatever arrives in between and whatever the peer does, and it
  returns the peer's error or the exit code 124.
\<close>

theorem streamed_timeout_ends:
  assumes "run_exec_streamed emit (Inr pre) s = None"
  shows "\<exists>r s'. run_exec_streamed emit (Inr (pre @ RecvTimeout # post @ [RecvTimeout])) s = Some (r, s')
           \<and> (\<forall>e. r = Inr e \<longrightarrow> se_exit_code e = 124)"
proof -
  have "stream_loop emit pre (stream_init s) = None"
    using assms by (simp add: run_exec_streamed_def)
  then obtain st where st: "stream_loop emit (pre @ RecvTimeout # post @ [RecvTimeout]) (stream_init s)
      = Some st" "ls_timed_out st \<or> ls_emit_err st \<noteq> None"
    using streamed_timeout_general by blast
  have "se_exit_code e = 124" if "stream_result st = Inr e" for e
    using st(2) that by (auto simp: stream_result_def TIMEOUT_EXIT_CODE_def split: option.splits)
  then show ?thesis
    using st(1) by (simp add: run_exec_streamed_def)
qed

theorem streamed_timeout_ends_witness:
  "\<exists>r s'. run_exec_streamed record_emit
       (Inr [Got (Chunk Stdout ''x''), RecvTimeout, Got (Exited 0), RecvTimeout]) [] = Some (r, s')
     \<and> (\<forall>e. r = Inr e \<longrightarrow> se_exit_code e = 124)"
proof -
  have "run_exec_streamed record_emit (Inr [Got (Chunk Stdout ''x'')]) [] = None"
    by (simp add: run_exec_streamed_def stream_init_def loop_done_def stream_step_def loop_emit_def
        set_carry_def Let_def split: option.splits prod.splits)
  from streamed_timeout_ends [OF this, of "[Got (Exited 0)]"] show ?thesis by simp
qed

text \<open>
  The buffered runner captures at most 1 MiB of each pipe: it returns the first 1 MiB
  of what the pipe delivers before end of file or an error, and sets the truncation flag
  exactly when there was more; interrupted reads lose nothing.
\<close>

theorem read_capped_correct:
  "read_capped rs = (take MAX_OUTPUT_BYTES (pipe_bytes rs), MAX_OUTPUT_BYTES < length (pipe_bytes rs))"
  by (rule read_capped_eq)

end
