(* ===== verification/Guest_Netcfg.thy ===== *)
theory Guest_Netcfg
  imports Utf8 Ipalloc
begin

text \<open>
  Reconfiguration of the guest's interface (\<open>guest/src/netcfg.rs\<close>): the two validators,
  the production runner and \<open>apply_set_ip\<close>.  A runner of type \<open>IpRunner\<close> is a function on
  the state of the guest's network; running the \<open>ip\<close> program is a parameter.
\<close>

subsection \<open>Validators\<close>

definition is_dotted_quad :: "string \<Rightarrow> bool" where
  "is_dotted_quad s
     = (let octets = split_on (CHR ''.'') s
        in list_all (\<lambda>octet. octet \<noteq> [] \<and> length octet \<le> 3 \<and> list_all is_ascii_digit octet
                       \<and> (case parse_uint 65536 octet of Some n \<Rightarrow> n \<le> 255 | None \<Rightarrow> False)) octets
           \<and> length octets = 4)"

definition is_valid_dev :: "string \<Rightarrow> bool" where
  "is_valid_dev dev = (dev \<noteq> [] \<and> list_all (\<lambda>b. is_ascii_lowercase b \<or> is_ascii_digit b) dev)"

subsection \<open>Runners\<close>

text \<open>\<open>run\<close> returns \<open>None\<close> for \<open>Ok\<close> or the error text; \<open>announce\<close> only has an effect.\<close>

record 'n ip_runner =
  ir_run :: "string list \<Rightarrow> 'n \<Rightarrow> string option \<times> 'n"
  ir_announce :: "string \<Rightarrow> 'n \<Rightarrow> 'n"

definition IP_BIN :: string where
  "IP_BIN = ''/sbin/ip''"

text \<open>What \<open>Command::output\<close> returns: a spawn error, or the exit status and stderr.\<close>

datatype command_output = SpawnFailed string | Finished bool string

definition real_run ::
    "(string \<Rightarrow> string list \<Rightarrow> 'n \<Rightarrow> command_output \<times> 'n) \<Rightarrow> string list \<Rightarrow> 'n \<Rightarrow> string option \<times> 'n"
  where
  "real_run command args n
     = (case command IP_BIN args n of
          (SpawnFailed e, n') \<Rightarrow> (Some (''failed to run ip: '' @ e), n')
        | (Finished success err, n') \<Rightarrow>
            (if success then (None, n')
             else (Some (''ip '' @ join_with '' '' args @ '' failed: '' @ trim (from_utf8_lossy err)),
                   n')))"

definition real_announce ::
    "('n \<Rightarrow> 'u option \<times> 'n) \<Rightarrow> ('u \<Rightarrow> string \<Rightarrow> nat \<Rightarrow> string \<Rightarrow> 'n \<Rightarrow> 'n) \<Rightarrow> string \<Rightarrow> 'n \<Rightarrow> 'n" where
  "real_announce udp_bind send_to gw n
     = (case udp_bind n of
          (Some sock, n') \<Rightarrow> send_to sock gw 9 [char_of (0 :: nat)] n'
        | (None, n') \<Rightarrow> n')"

text \<open>The \<open>?\<close> chain: commands run in order until one fails.\<close>

fun run_all :: "'n ip_runner \<Rightarrow> string list list \<Rightarrow> 'n \<Rightarrow> string option \<times> 'n" where
  "run_all runner [] n = (None, n)"
| "run_all runner (args # rest) n
     = (case ir_run runner args n of
          (Some e, n') \<Rightarrow> (Some e, n')
        | (None, n') \<Rightarrow> run_all runner rest n')"

definition set_ip_commands :: "string \<Rightarrow> u8 \<Rightarrow> string \<Rightarrow> string \<Rightarrow> string list list" where
  "set_ip_commands ip pfx gw dev
     = (let cidr = ip @ ''/'' @ show_nat (unat pfx)
        in [[''addr'', ''flush'', ''dev'', dev],
            [''addr'', ''add'', cidr, ''dev'', dev],
            [''link'', ''set'', dev, ''up''],
            [''route'', ''replace'', ''default'', ''via'', gw, ''dev'', dev]])"

definition apply_set_ip ::
    "'n ip_runner \<Rightarrow> string \<Rightarrow> u8 \<Rightarrow> string \<Rightarrow> string \<Rightarrow> 'n \<Rightarrow> string option \<times> 'n" where
  "apply_set_ip runner ip pfx gw dev n
     = (if \<not> is_dotted_quad ip then (Some (''invalid ip: '' @ ip), n)
        else if \<not> is_dotted_quad gw then (Some (''invalid gw: '' @ gw), n)
        else if pfx > 32 then (Some (''invalid prefix: '' @ show_nat (unat pfx)), n)
        else if \<not> is_valid_dev dev then (Some (''invalid dev: '' @ dev), n)
        else run_all runner (set_ip_commands ip pfx gw dev) n)"

subsection \<open>Lemmas\<close>

lemma parse_uint_mono: "parse_uint b s = Some n \<Longrightarrow> n < c \<Longrightarrow> parse_uint c s = Some n"
  by (auto simp: parse_uint_def Let_def split: if_splits option.splits)

lemma is_dotted_quad_octet:
  "n < 256 \<Longrightarrow> show_nat n \<noteq> [] \<and> length (show_nat n) \<le> 3 \<and> list_all is_ascii_digit (show_nat n)
     \<and> (case parse_uint 65536 (show_nat n) of Some n \<Rightarrow> n \<le> 255 | None \<Rightarrow> False)"
  using show_nat_length_le3 [of n] show_nat_digits [of n] by simp

lemma is_dotted_quad_fmt_ip: "is_dotted_quad (fmt_ip v)"
  unfolding is_dotted_quad_def split_fmt_ip Let_def
  by (simp only: list.pred_inject is_dotted_quad_octet [OF octet_less(1)]
      is_dotted_quad_octet [OF octet_less(2)]) simp

lemma is_dotted_quad_chars:
  assumes "is_dotted_quad s" "c \<in> set s"
  shows "is_ascii_digit c \<or> c = CHR ''.''"
proof -
  have "c = CHR ''.'' \<or> (\<exists>w \<in> set (split_on (CHR ''.'') s). c \<in> set w)"
    using assms(2) by (rule split_on_cover)
  moreover have "list_all (list_all is_ascii_digit) (split_on (CHR ''.'') s)"
    using assms(1) by (simp add: is_dotted_quad_def list_all_iff Let_def)
  ultimately show ?thesis by (auto simp: list_all_iff)
qed

lemma is_dotted_quad_parses: "is_dotted_quad s \<Longrightarrow> parse_ip4 s \<noteq> None"
proof -
  assume q: "is_dotted_quad s"
  have p: "\<exists>n. parse_uint 256 w = Some n" if "w \<in> set (split_on (CHR ''.'') s)" for w
  proof -
    have "case parse_uint 65536 w of Some n \<Rightarrow> n \<le> 255 | None \<Rightarrow> False"
      using q that by (simp add: is_dotted_quad_def list_all_iff Let_def)
    then obtain n where "parse_uint 65536 w = Some n" "n < 256"
      by (auto split: option.splits)
    then show ?thesis using parse_uint_mono by blast
  qed
  have "fold (\<lambda>part out. case out of None \<Rightarrow> None | Some (o' :: u32) \<Rightarrow>
            (case parse_uint 256 part of None \<Rightarrow> None
             | Some b \<Rightarrow> Some (shl32 o' 8 OR word_of_nat b))) ws (Some a) \<noteq> None"
    if "\<forall>w \<in> set ws. \<exists>n. parse_uint 256 w = Some n" for ws a
    using that by (induction ws arbitrary: a) auto
  with p q show ?thesis
    by (simp add: parse_ip4_def is_dotted_quad_def Let_def)
qed

text \<open>A runner that records the argument vectors it is given, with arbitrary outcomes.\<close>

definition logging_runner ::
    "(string list \<Rightarrow> string list list \<Rightarrow> string option) \<Rightarrow> string list list ip_runner" where
  "logging_runner f = \<lparr>ir_run = (\<lambda>args log. (f args log, log @ [args])), ir_announce = (\<lambda>gw log. log)\<rparr>"

lemma run_all_logging:
  "run_all (logging_runner f) cmds log = (r, log') \<Longrightarrow>
     \<exists>k \<le> length cmds. log' = log @ take k cmds \<and> (r = None \<longrightarrow> k = length cmds)
       \<and> (cmds \<noteq> [] \<longrightarrow> 0 < k)"
proof (induction cmds arbitrary: log)
  case (Cons args cmds)
  show ?case
  proof (cases "f args log")
    case None
    then have "run_all (logging_runner f) cmds (log @ [args]) = (r, log')"
      using Cons.prems by (simp add: logging_runner_def)
    from Cons.IH [OF this] obtain k where "k \<le> length cmds" "log' = (log @ [args]) @ take k cmds"
        "r = None \<longrightarrow> k = length cmds"
      by blast
    then show ?thesis by (intro exI [of _ "Suc k"]) simp
  next
    case (Some e)
    then show ?thesis using Cons.prems by (intro exI [of _ 1]) (auto simp: logging_runner_def)
  qed
qed simp

definition plain_arg :: "string \<Rightarrow> bool" where
  "plain_arg a = (a \<noteq> [] \<and> list_all (\<lambda>c. is_ascii_lowercase c \<or> is_ascii_digit c \<or> c \<in> set ''./'') a)"

lemma is_dotted_quad_plain: "is_dotted_quad s \<Longrightarrow> plain_arg s"
proof -
  assume q: "is_dotted_quad s"
  then have "s \<noteq> []" by (auto simp: is_dotted_quad_def)
  then show ?thesis using is_dotted_quad_chars [OF q] by (auto simp: plain_arg_def list_all_iff)
qed

lemma set_ip_commands_plain:
  assumes "is_dotted_quad ip" "is_dotted_quad gw" "is_valid_dev dev"
  shows "list_all (list_all plain_arg) (set_ip_commands ip pfx gw dev)"
proof -
  have "plain_arg dev"
    using assms(3) by (auto simp: is_valid_dev_def plain_arg_def list_all_iff)
  moreover have "plain_arg (ip @ ''/'' @ show_nat (unat pfx))"
    using is_dotted_quad_plain [OF assms(1)] show_nat_digits
    by (auto simp: plain_arg_def list_all_iff)
  moreover have "plain_arg w"
    if "w \<in> {''addr'', ''flush'', ''dev'', ''add'', ''link'', ''set'', ''up'', ''route'', ''replace'',
             ''default'', ''via''}" for w
    using that by (auto simp: plain_arg_def is_ascii_lowercase_def)
  ultimately show ?thesis
    using is_dotted_quad_plain [OF assms(2)] by (simp add: set_ip_commands_def Let_def)
qed

subsection \<open>Properties\<close>

text \<open>
  Whatever a request contains and whatever the \<open>ip\<close> program answers, the guest runs
  \<open>ip\<close> only after all four validations passed, it runs a prefix of flush, add, link up and
  default route, all four when it reports success, and every argument is a non-empty word
  over lower-case letters, digits, dots and slashes, so that no argument can be taken for an
  option or carry shell syntax.
\<close>

theorem set_ip_runs_only_plain_commands:
  assumes "apply_set_ip (logging_runner f) ip pfx gw dev [] = (r, log)"
  shows "list_all (list_all plain_arg) log
         \<and> (\<exists>k. log = take k (set_ip_commands ip pfx gw dev))
         \<and> (r = None \<longrightarrow> log = set_ip_commands ip pfx gw dev)
         \<and> (log \<noteq> [] \<longleftrightarrow> is_dotted_quad ip \<and> is_dotted_quad gw \<and> pfx \<le> 32 \<and> is_valid_dev dev)"
proof (cases "is_dotted_quad ip \<and> is_dotted_quad gw \<and> pfx \<le> 32 \<and> is_valid_dev dev")
  case True
  then have "run_all (logging_runner f) (set_ip_commands ip pfx gw dev) [] = (r, log)"
    using assms by (auto simp: apply_set_ip_def split: if_splits)
  moreover have ne: "set_ip_commands ip pfx gw dev \<noteq> []"
    by (simp add: set_ip_commands_def Let_def)
  ultimately obtain k where k: "log = take k (set_ip_commands ip pfx gw dev)"
      "r = None \<longrightarrow> k = length (set_ip_commands ip pfx gw dev)" "0 < k"
    using run_all_logging by fastforce
  have "list_all (list_all plain_arg) log"
    using True set_ip_commands_plain [of ip gw dev pfx] k(1)
    by (auto simp: list_all_iff dest: in_set_takeD)
  then show ?thesis
    using True k ne by auto
next
  case False
  then have "log = [] \<and> r \<noteq> None"
    using assms by (auto simp: apply_set_ip_def split: if_splits)
  then show ?thesis using False by (auto intro: exI [of _ 0])
qed

theorem set_ip_runs_only_plain_commands_witness:
  "\<exists>r log. apply_set_ip (logging_runner (\<lambda>args log. if hd args = ''link'' then Some ''no device'' else None))
       ''10.231.0.7'' 24 ''10.231.0.1'' ''eth0'' [] = (r, log)
     \<and> log = [[''addr'', ''flush'', ''dev'', ''eth0''],
              [''addr'', ''add'', ''10.231.0.7/24'', ''dev'', ''eth0''],
              [''link'', ''set'', ''eth0'', ''up'']]
     \<and> r = Some ''no device'' \<and> list_all (list_all plain_arg) log"
proof -
  let ?f = "\<lambda>args (log :: string list list). if hd args = ''link'' then Some ''no device'' else None"
  have v: "is_dotted_quad ''10.231.0.7''" "is_dotted_quad ''10.231.0.1''" "is_valid_dev ''eth0''"
    by (simp_all add: is_dotted_quad_def is_valid_dev_def parse_uint_def digit_val_def ascii_defs)
  have c: "set_ip_commands ''10.231.0.7'' 24 ''10.231.0.1'' ''eth0''
      = [[''addr'', ''flush'', ''dev'', ''eth0''],
         [''addr'', ''add'', ''10.231.0.7/24'', ''dev'', ''eth0''],
         [''link'', ''set'', ''eth0'', ''up''],
         [''route'', ''replace'', ''default'', ''via'', ''10.231.0.1'', ''dev'', ''eth0'']]"
    by (simp add: set_ip_commands_def show_nat.simps)
  have e: "apply_set_ip (logging_runner ?f) ''10.231.0.7'' 24 ''10.231.0.1'' ''eth0'' []
      = (Some ''no device'', [[''addr'', ''flush'', ''dev'', ''eth0''],
              [''addr'', ''add'', ''10.231.0.7/24'', ''dev'', ''eth0''],
              [''link'', ''set'', ''eth0'', ''up'']])"
    using v by (simp add: apply_set_ip_def c logging_runner_def)
  from set_ip_runs_only_plain_commands [OF e] e show ?thesis by blast
qed

end
