(* ===== verification/Guest_Protocol.thy ===== *)
theory Guest_Protocol
  imports Guest_Exec Guest_Netcfg
begin

text \<open>
  The guest agent's wire protocol (\<open>guest/src/protocol.rs\<close>): requests and responses, the
  bounded line reader, dispatch, and the per-connection handler with its streaming branch.
  The JSON decoder and encoder of \<open>serde_json\<close>, process creation and the transport's write
  side are parameters; the read side is the list of outcomes of successive \<open>read\<close> calls.
\<close>

subsection \<open>Requests and responses\<close>

definition MAX_REQUEST_BYTES :: nat where
  "MAX_REQUEST_BYTES = 64 * 1024"

definition DEFAULT_TIMEOUT_MS :: u64 where
  "DEFAULT_TIMEOUT_MS = 30000"

definition MAX_TIMEOUT_MS :: u64 where
  "MAX_TIMEOUT_MS = 300000"

datatype Request =
    ReqExec (req_cmd: "string list") (req_timeout_ms: "u64 option") (req_stream: bool)
  | ReqSetIp string u8 string string

datatype Response =
    RespExec int string string bool
  | RespOk
  | RespErr string

definition from_exec :: "ExecOutcome \<Rightarrow> Response" where
  "from_exec r = RespExec (eo_exit_code r) (eo_stdout r) (eo_stderr r) (eo_truncated r)"

definition resolve_timeout :: "u64 option \<Rightarrow> u64" where
  "resolve_timeout timeout_ms
     = (case timeout_ms of
          None \<Rightarrow> DEFAULT_TIMEOUT_MS
        | Some v \<Rightarrow> if v = 0 then DEFAULT_TIMEOUT_MS else min v MAX_TIMEOUT_MS)"

subsection \<open>Dispatch\<close>

type_synonym decoder = "string \<Rightarrow> (string, Request) result"
type_synonym spawner = "string list \<Rightarrow> u64 \<Rightarrow> (io_error, child_run) result"
type_synonym stream_spawner = "string list \<Rightarrow> u64 \<Rightarrow> (io_error, recv_result list) result"

definition dispatch ::
    "decoder \<Rightarrow> spawner \<Rightarrow> 'n ip_runner \<Rightarrow> string \<Rightarrow> 'n \<Rightarrow> Response \<times> 'n" where
  "dispatch from_str spawn runner line n
     = (case from_str line of
          Inl e \<Rightarrow> (RespErr (''bad request: '' @ e), n)
        | Inr (ReqExec cmd timeout_ms _) \<Rightarrow>
            (if cmd = [] then (RespErr ''cmd must be a non-empty array'', n)
             else case fst (run_exec (spawn cmd (resolve_timeout timeout_ms))) of
                    Inr outcome \<Rightarrow> (from_exec outcome, n)
                  | Inl e \<Rightarrow> (RespErr (''spawn failed: '' @ e), n))
        | Inr (ReqSetIp ip pfx gw dev) \<Rightarrow>
            (case apply_set_ip runner ip pfx gw dev n of
               (None, n') \<Rightarrow> (RespOk, ir_announce runner gw n')
             | (Some e, n') \<Rightarrow> (RespErr e, n')))"

subsection \<open>Writing\<close>

text \<open>The transport's write side: \<open>write_all\<close> and \<open>flush\<close>, \<open>None\<close> for \<open>Ok\<close>.\<close>

record 'w writer =
  wr_write_all :: "string \<Rightarrow> 'w \<Rightarrow> io_error option \<times> 'w"
  wr_flush :: "'w \<Rightarrow> io_error option \<times> 'w"

definition write_line :: "'w writer \<Rightarrow> string \<Rightarrow> 'w \<Rightarrow> io_error option \<times> 'w" where
  "write_line wr bytes w
     = (case wr_write_all wr (bytes @ [CHR 0x0A]) w of
          (Some e, w') \<Rightarrow> (Some e, w')
        | (None, w') \<Rightarrow> wr_flush wr w')"

definition frame_bytes :: "(json \<Rightarrow> string option) \<Rightarrow> json \<Rightarrow> string" where
  "frame_bytes to_vec v
     = (case to_vec v of
          Some b \<Rightarrow> b
        | None \<Rightarrow> ''{\"done\":true,\"ok\":false,\"error\":\"serialize failed\"}'')"

definition write_frame ::
    "'w writer \<Rightarrow> (json \<Rightarrow> string option) \<Rightarrow> json \<Rightarrow> 'w \<Rightarrow> io_error option \<times> 'w" where
  "write_frame wr to_vec v w = write_line wr (frame_bytes to_vec v) w"

text \<open>The untagged \<open>Serialize\<close> of \<open>Response\<close>.\<close>

definition response_json :: "Response \<Rightarrow> json" where
  "response_json r
     = (case r of
          RespExec c out err t \<Rightarrow>
            JObj [(''ok'', JBool True), (''exit_code'', JNum c), (''stdout'', JStr out),
                  (''stderr'', JStr err), (''truncated'', JBool t)]
        | RespOk \<Rightarrow> JObj [(''ok'', JBool True)]
        | RespErr e \<Rightarrow> JObj [(''ok'', JBool False), (''error'', JStr e)])"

definition write_response ::
    "'w writer \<Rightarrow> (json \<Rightarrow> string option) \<Rightarrow> Response \<Rightarrow> 'w \<Rightarrow> io_error option \<times> 'w" where
  "write_response wr to_vec resp w
     = write_line wr
         (case to_vec (response_json resp) of
            Some b \<Rightarrow> b
          | None \<Rightarrow> ''{\"ok\":false,\"error\":\"serialize failed\"}'') w"

subsection \<open>The bounded line reader\<close>

datatype LineError = TooLong | LineIo io_error

text \<open>The inner loop over the bytes of one read: \<open>Inl\<close> leaves the function with its result.\<close>

fun scan_chunk ::
    "nat \<Rightarrow> string \<Rightarrow> string \<Rightarrow> (LineError, string option) result + string" where
  "scan_chunk limit [] buf = Inr buf"
| "scan_chunk limit (b # bs) buf
     = (if b = CHR 0x0A then Inl (Inr (Some (from_utf8_lossy buf)))
        else if length (buf @ [b]) > limit then Inl (Inl TooLong)
        else scan_chunk limit bs (buf @ [b]))"

text \<open>An interrupted read is an error here; the list of outcomes ends with end of file.\<close>

fun read_line_loop ::
    "nat \<Rightarrow> read_result list \<Rightarrow> string \<Rightarrow> (LineError, string option) result" where
  "read_line_loop limit [] buf
     = (if buf = [] then Inr None else Inr (Some (from_utf8_lossy buf)))"
| "read_line_loop limit (r # rs) buf
     = (case r of
          ReadOk bytes \<Rightarrow>
            if bytes = [] then
              (if buf = [] then Inr None else Inr (Some (from_utf8_lossy buf)))
            else (case scan_chunk limit bytes buf of
                    Inl res \<Rightarrow> res
                  | Inr buf' \<Rightarrow> read_line_loop limit rs buf')
        | ReadInterrupted \<Rightarrow> Inl (LineIo ''interrupted'')
        | ReadErr e \<Rightarrow> Inl (LineIo e))"

definition read_line_bounded :: "read_result list \<Rightarrow> nat \<Rightarrow> (LineError, string option) result" where
  "read_line_bounded rs limit = read_line_loop limit rs []"

subsection \<open>The connection handler\<close>

definition stream_name :: "StreamKind \<Rightarrow> string" where
  "stream_name k = (case k of Stdout \<Rightarrow> ''stdout'' | Stderr \<Rightarrow> ''stderr'')"

definition chunk_frame :: "StreamKind \<Rightarrow> string \<Rightarrow> json" where
  "chunk_frame kind d = JObj [(''data'', JStr d), (''stream'', JStr (stream_name kind))]"

definition done_frame :: "(io_error, StreamEnd) result \<Rightarrow> json" where
  "done_frame r
     = (case r of
          Inr e \<Rightarrow> JObj [(''done'', JBool True), (''exit_code'', JNum (se_exit_code e)), (''ok'', JBool True),
                         (''truncated'', JBool (se_truncated e))]
        | Inl e \<Rightarrow> JObj [(''done'', JBool True), (''error'', JStr (''exec failed: '' @ e)),
                         (''ok'', JBool False)])"

definition frame_emit :: "'w writer \<Rightarrow> (json \<Rightarrow> string option) \<Rightarrow> 'w emitter" where
  "frame_emit wr to_vec kind d w = write_frame wr to_vec (chunk_frame kind d) w"

text \<open>\<open>None\<close> while the streamed command still runs.\<close>

definition handle_exec_stream ::
    "'w writer \<Rightarrow> (json \<Rightarrow> string option) \<Rightarrow> stream_spawner \<Rightarrow> string list \<Rightarrow> u64 option \<Rightarrow> 'w
      \<Rightarrow> (io_error option \<times> 'w) option" where
  "handle_exec_stream wr to_vec spawn cmd timeout_ms w
     = (if cmd = [] then
          Some (write_frame wr to_vec
                  (JObj [(''done'', JBool True), (''error'', JStr ''cmd must be a non-empty array''),
                         (''ok'', JBool False)]) w)
        else
          map_option (\<lambda>(r, w'). write_frame wr to_vec (done_frame r) w')
            (run_exec_streamed (frame_emit wr to_vec) (spawn cmd (resolve_timeout timeout_ms)) w))"

definition handle_connection_with ::
    "'w writer \<Rightarrow> (json \<Rightarrow> string option) \<Rightarrow> decoder \<Rightarrow> spawner \<Rightarrow> stream_spawner \<Rightarrow> 'n ip_runner
      \<Rightarrow> read_result list \<Rightarrow> 'w \<Rightarrow> 'n \<Rightarrow> (io_error option \<times> 'w \<times> 'n) option" where
  "handle_connection_with wr to_vec from_str spawn spawn_stream runner reads w n
     = (case read_line_bounded reads MAX_REQUEST_BYTES of
          Inr None \<Rightarrow> Some (None, w, n)
        | Inl TooLong \<Rightarrow>
            (let (r, w') = write_response wr to_vec (RespErr ''request too long'') w in Some (r, w', n))
        | Inl (LineIo e) \<Rightarrow> Some (Some e, w, n)
        | Inr (Some line) \<Rightarrow>
            (case from_str line of
               Inr (ReqExec cmd timeout_ms True) \<Rightarrow>
                 map_option (\<lambda>(r, w'). (r, w', n))
                   (handle_exec_stream wr to_vec spawn_stream cmd timeout_ms w)
             | _ \<Rightarrow>
                 (let (resp, n') = dispatch from_str spawn runner line n;
                      (r, w') = write_response wr to_vec resp w
                  in Some (r, w', n'))))"

subsection \<open>The line reader\<close>

text \<open>What a line reader should return for the bytes of a connection.\<close>

definition line_of :: "nat \<Rightarrow> string \<Rightarrow> (LineError, string option) result" where
  "line_of limit bytes
     = (case split_once (CHR 0x0A) bytes of
          Some (line, _) \<Rightarrow>
            if length line \<le> limit then Inr (Some (from_utf8_lossy line)) else Inl TooLong
        | None \<Rightarrow>
            if length bytes > limit then Inl TooLong
            else if bytes = [] then Inr None
            else Inr (Some (from_utf8_lossy bytes)))"

lemma line_of_newline:
  "CHR 0x0A \<notin> set buf \<Longrightarrow> length buf \<le> limit \<Longrightarrow>
     line_of limit (buf @ CHR 0x0A # rest) = Inr (Some (from_utf8_lossy buf))"
  by (simp add: line_of_def)

lemma line_of_too_long:
  assumes "CHR 0x0A \<notin> set buf" "length buf > limit"
  shows "line_of limit (buf @ rest) = Inl TooLong"
proof (cases "split_once (CHR 0x0A) (buf @ rest)")
  case None
  then show ?thesis using assms by (simp add: line_of_def)
next
  case (Some p)
  obtain line tl where p: "p = (line, tl)" by (cases p)
  have e: "buf @ rest = line @ CHR 0x0A # tl" "CHR 0x0A \<notin> set line"
    using split_once_SomeD [of "CHR 0x0A" "buf @ rest" line tl] Some p by auto
  have "length buf \<le> length line"
  proof (rule ccontr)
    assume "\<not> length buf \<le> length line"
    then have "buf ! length line = CHR 0x0A" "length line < length buf"
      using e(1) by (auto simp: nth_append dest!: arg_cong [where f = "\<lambda>xs. xs ! length line"])
    then show False using assms(1) nth_mem by fastforce
  qed
  then show ?thesis using assms Some p by (simp add: line_of_def)
qed

lemma scan_chunk_spec:
  assumes "CHR 0x0A \<notin> set buf" "length buf \<le> limit"
  shows "case scan_chunk limit bytes buf of
           Inl res \<Rightarrow> \<forall>rest. line_of limit (buf @ bytes @ rest) = res
         | Inr buf' \<Rightarrow> buf' = buf @ bytes \<and> CHR 0x0A \<notin> set buf' \<and> length buf' \<le> limit"
  using assms
proof (induction bytes arbitrary: buf)
  case (Cons b bytes)
  show ?case
  proof (cases "b = CHR 0x0A \<or> length (buf @ [b]) > limit")
    case True
    then show ?thesis
      using Cons.prems line_of_newline line_of_too_long [of "buf @ [b]" limit "bytes @ _"]
      by auto
  next
    case False
    then show ?thesis
      using Cons.IH [of "buf @ [b]"] Cons.prems by (auto split: sum.splits)
  qed
qed simp

lemma read_line_loop_spec:
  assumes "list_all (\<lambda>r. \<exists>b. r = ReadOk b) rs" "CHR 0x0A \<notin> set buf" "length buf \<le> limit"
  shows "read_line_loop limit rs buf = line_of limit (buf @ pipe_bytes rs)"
  using assms
proof (induction rs arbitrary: buf)
  case Nil
  then show ?case
    by (auto simp: line_of_def split: option.splits dest!: split_once_SomeD)
next
  case (Cons r rs)
  then obtain bytes where r: "r = ReadOk bytes" by auto
  show ?case
  proof (cases "bytes = []")
    case True
    then show ?thesis
      using Cons.prems r by (auto simp: line_of_def split: option.splits dest!: split_once_SomeD)
  next
    case False
    then show ?thesis
      using scan_chunk_spec [OF Cons.prems(2,3), of bytes] Cons r
      by (auto split: sum.splits)
  qed
qed

subsection \<open>A connection that stays up\<close>

text \<open>The written lines; every write and flush succeeds.\<close>

definition line_writer :: "string list writer" where
  "line_writer = \<lparr>wr_write_all = (\<lambda>b w. (None, w @ [b])), wr_flush = (\<lambda>w. (None, w))\<rparr>"

lemma write_line_writer [simp]: "write_line line_writer b w = (None, w @ [b @ [CHR 0x0A]])"
  by (simp add: write_line_def line_writer_def)

definition frame_line :: "(json \<Rightarrow> string option) \<Rightarrow> json \<Rightarrow> string" where
  "frame_line to_vec v = frame_bytes to_vec v @ [CHR 0x0A]"

interpretation frames: reliable_emitter "frame_emit line_writer to_vec"
    "\<lambda>w p. w @ [frame_line to_vec (chunk_frame (fst p) (snd p))]" for to_vec
  by unfold_locales (simp add: frame_emit_def write_frame_def frame_line_def)

lemma foldl_frames:
  "foldl (\<lambda>w p. w @ [f p]) w ps = w @ map f ps"
  by (induction ps arbitrary: w) simp_all

lemma handle_exec_stream_log:
  assumes "cmd \<noteq> []"
    and "spawn cmd (resolve_timeout timeout_ms) = Inr (map Got ms)"
    and "thread_messages outs errs c ms"
  obtains log where "handle_exec_stream line_writer to_vec spawn cmd timeout_ms []
      = Some (None, map (\<lambda>(k, d). frame_line to_vec (chunk_frame k d)) log
                    @ [frame_line to_vec (done_frame (Inr (stream_end outs errs c)))])"
    "decoded_log outs errs log"
proof -
  obtain log where r: "run_exec_streamed (frame_emit line_writer to_vec) (Inr (map Got ms)) []
      = Some (Inr (stream_end outs errs c),
              map (\<lambda>p. frame_line to_vec (chunk_frame (fst p) (snd p))) log)"
    and d: "decoded_log outs errs log"
    using frames.streamed_run [OF assms(3), of to_vec "[]"] by (auto simp: foldl_frames)
  show ?thesis
    using assms(1,2) r d
    by (intro that [of log])
      (simp_all add: handle_exec_stream_def write_frame_def frame_line_def case_prod_beta)
qed

subsection \<open>Properties\<close>

text \<open>
  C29. A streamed execution over a connection that stays up writes a sequence of chunk
  frames followed by exactly one terminal frame.  The data of the chunk frames of each
  stream concatenates to the lossy decoding of the first 16 MiB of that pipe, and the
  terminal frame carries the exit code and the truncation flag.
\<close>

theorem streamed_exec_frames:
  assumes "cmd \<noteq> []"
    and "spawn cmd (resolve_timeout timeout_ms) = Inr (map Got ms)"
    and "thread_messages outs errs c ms"
  shows "\<exists>chunks. handle_exec_stream line_writer to_vec spawn cmd timeout_ms []
           = Some (None, map (\<lambda>(k, d). frame_line to_vec (chunk_frame k d)) chunks
                         @ [frame_line to_vec (done_frame (Inr (stream_end outs errs c)))])
           \<and> texts Stdout chunks = from_utf8_lossy (take STREAM_MAX_OUTPUT_BYTES (pipe_bytes outs))
           \<and> texts Stderr chunks = from_utf8_lossy (take STREAM_MAX_OUTPUT_BYTES (pipe_bytes errs))"
proof -
  obtain log where "handle_exec_stream line_writer to_vec spawn cmd timeout_ms []
      = Some (None, map (\<lambda>(k, d). frame_line to_vec (chunk_frame k d)) log
                    @ [frame_line to_vec (done_frame (Inr (stream_end outs errs c)))])"
      "decoded_log outs errs log"
    using handle_exec_stream_log [where spawn = spawn, OF assms] .
  then show ?thesis by (intro exI [of _ log]) (simp add: decoded_log_def)
qed

theorem streamed_exec_frames_witness:
  "\<exists>chunks. handle_exec_stream line_writer (\<lambda>_. Some ''{}'')
        (\<lambda>_ _. Inr (map Got [Eof Stderr False, Chunk Stdout ''hi'', Exited 0, Eof Stdout False]))
        [''echo'', ''hi''] None []
     = Some (None, map (\<lambda>(k, d). frame_line (\<lambda>_. Some ''{}'') (chunk_frame k d)) chunks
                   @ [frame_line (\<lambda>_. Some ''{}'') (done_frame (Inr (stream_end [ReadOk ''hi''] [] 0)))])
     \<and> texts Stdout chunks = ''hi''"
proof -
  have t: "thread_messages [ReadOk ''hi''] [] 0
      [Eof Stderr False, Chunk Stdout ''hi'', Exited 0, Eof Stdout False]"
    by (simp add: thread_messages_def STREAM_MAX_OUTPUT_BYTES_def)
  have "from_utf8_lossy ''hi'' = ''hi''"
    by (simp add: utf8_head_def utf8_char_width_def Let_def)
  then show ?thesis
    using streamed_exec_frames [OF _ _ t, of "[''echo'', ''hi'']"
        "\<lambda>_ _. Inr (map Got [Eof Stderr False, Chunk Stdout ''hi'', Exited 0, Eof Stdout False])"
        None "\<lambda>_. Some ''{}''"]
    by (auto simp: STREAM_MAX_OUTPUT_BYTES_def)
qed

text \<open>
  C28. The request line does not depend on how the transport cut it into reads: for every
  sequence of successful reads the bounded reader returns the bytes before the first
  newline, or all of them at end of file, decoded lossily, nothing for an empty connection,
  and an error exactly when more than the limit came before the newline.
\<close>

theorem read_line_independent_of_chunking:
  assumes "list_all (\<lambda>r. \<exists>b. r = ReadOk b) rs"
  shows "read_line_bounded rs limit
         = (case split_once (CHR 0x0A) (pipe_bytes rs) of
              Some (line, _) \<Rightarrow>
                if length line \<le> limit then Inr (Some (from_utf8_lossy line)) else Inl TooLong
            | None \<Rightarrow>
                if length (pipe_bytes rs) > limit then Inl TooLong
                else if pipe_bytes rs = [] then Inr None
                else Inr (Some (from_utf8_lossy (pipe_bytes rs))))"
  using read_line_loop_spec [OF assms, of "[]" limit]
  by (simp add: read_line_bounded_def line_of_def)

theorem read_line_independent_of_chunking_witness:
  "read_line_bounded [ReadOk ''{\"op\"'', ReadOk [CHR ''}'', CHR 0x0A, CHR ''x'']] 16
     = Inr (Some ''{\"op\"}'')
   \<and> read_line_bounded [ReadOk ''abc'', ReadOk ''def''] 4 = Inl TooLong"
proof -
  have "from_utf8_lossy ''{\"op\"}'' = ''{\"op\"}''"
    by (simp add: utf8_head_def utf8_char_width_def Let_def)
  then show ?thesis
    using read_line_independent_of_chunking [of "[ReadOk ''{\"op\"'', ReadOk [CHR ''}'', CHR 0x0A, CHR ''x'']]" 16]
      read_line_independent_of_chunking [of "[ReadOk ''abc'', ReadOk ''def'']" 4]
    by simp
qed

text \<open>
  The exec timeout is never zero and never above five minutes, whatever the request asks for,
  and a request within the range gets what it asked for.
\<close>

theorem resolve_timeout_bounds:
  "1 \<le> resolve_timeout t \<and> resolve_timeout t \<le> 300000
   \<and> (case t of Some v \<Rightarrow> (1 \<le> v \<and> v \<le> 300000 \<longrightarrow> resolve_timeout t = v) | None \<Rightarrow> True)"
  by (auto simp: resolve_timeout_def DEFAULT_TIMEOUT_MS_def MAX_TIMEOUT_MS_def min_def
      word_le_nat_alt Suc_le_eq unat_gt_0 split: option.splits)

end
