(* ===== verification/Nft_Rules.thy ===== *)
theory Nft_Rules
  imports Ipalloc
begin

text \<open>
  The nftables rulesets the agent renders (\<open>agent/src/net.rs\<close>, the pure functions): tenant
  isolation, per-tap anti-spoofing, the guest input fence and the bridge L2 fence, with
  their validators.  The renderers are the text the code builds.  To say what a ruleset
  does, a rule list is given the reading nftables documents for a base chain: the first
  rule all of whose matches hold decides, and the policy decides when none does; each
  rendered text is shown to be the print of such a list.
\<close>

definition nl :: string where
  "nl = [CHR 0x0A]"

definition quoted :: "string \<Rightarrow> string" where
  "quoted s = [CHR 0x22] @ s @ [CHR 0x22]"

definition BRIDGE_NAME :: string where
  "BRIDGE_NAME = ''felucca0''"

subsection \<open>\<open>Ipv4Addr\<close> of the standard library\<close>

text \<open>
  \<open>Ipv4Addr::from_str\<close>: four decimal octets of one to three digits, no leading zero, at
  most 255.  Its \<open>Display\<close> is the dotted quad of \<open>fmt_ip\<close>.
\<close>

definition ipv4_octet :: "string \<Rightarrow> nat option" where
  "ipv4_octet w
     = (if w = [] \<or> length w > 3 \<or> (hd w = CHR ''0'' \<and> length w \<noteq> 1) then None
        else case parse_digits 0 w of
               Some n \<Rightarrow> if n \<le> 255 then Some n else None
             | None \<Rightarrow> None)"

definition ipv4_from_str :: "string \<Rightarrow> u32 option" where
  "ipv4_from_str s
     = (case map ipv4_octet (split_on (CHR ''.'') s) of
          [Some a, Some b, Some c, Some d] \<Rightarrow>
            Some (word_of_nat (((a * 256 + b) * 256 + c) * 256 + d))
        | _ \<Rightarrow> None)"

subsection \<open>Validators and names\<close>

definition ident_char :: "char \<Rightarrow> bool" where
  "ident_char b = (is_ascii_alphanumeric b \<or> b = CHR ''-'' \<or> b = CHR ''_'')"

definition valid_ifname :: "string \<Rightarrow> bool" where
  "valid_ifname name = (name \<noteq> [] \<and> length name < 16 \<and> list_all ident_char name)"

definition valid_tenant :: "string \<Rightarrow> bool" where
  "valid_tenant t = (t \<noteq> [] \<and> length t \<le> 64 \<and> list_all ident_char t)"

definition tap_name :: "u32 \<Rightarrow> string" where
  "tap_name idx = ''hth-'' @ show_nat (unat idx)"

text \<open>\<open>GuestMac\<close> is its text; the constructor functions are the only way to make one.\<close>

datatype GuestMac = GuestMac (mac_str: string)

definition valid_mac :: "string \<Rightarrow> bool" where
  "valid_mac mac
     = (let parts = split_on (CHR '':'') mac
        in length parts = 6 \<and> list_all (\<lambda>p. length p = 2 \<and> list_all is_ascii_hexdigit p) parts)"

definition to_ascii_lowercase :: "string \<Rightarrow> string" where
  "to_ascii_lowercase = map (\<lambda>c. if is_ascii_uppercase c then char_of (byte c + 32) else c)"

definition GuestMac_parse :: "string \<Rightarrow> GuestMac option" where
  "GuestMac_parse mac = (if \<not> valid_mac mac then None else Some (GuestMac (to_ascii_lowercase mac)))"

definition guest_mac_for_slot :: "u32 \<Rightarrow> GuestMac" where
  "guest_mac_for_slot idx
     = GuestMac (''02:48:54:'' @ hex2 (unat (drop_bit 16 idx AND 0xff)) @ '':''
                 @ hex2 (unat (drop_bit 8 idx AND 0xff)) @ '':'' @ hex2 (unat (idx AND 0xff)))"

definition antispoof_chain :: "string \<Rightarrow> string" where
  "antispoof_chain tap = ''as_'' @ map (\<lambda>c. if is_ascii_alphanumeric c then c else CHR ''_'') tap"

subsection \<open>The rendered rulesets\<close>

definition guest_input_ruleset :: "u16 option \<Rightarrow> string" where
  "guest_input_ruleset agent_port
     = ''add table ip felucca'' @ nl
       @ ''add chain ip felucca input { type filter hook input priority 0 ; policy accept ; }'' @ nl
       @ ''flush chain ip felucca input'' @ nl
       @ ''add rule ip felucca input iifname != '' @ quoted BRIDGE_NAME @ '' accept'' @ nl
       @ (case agent_port of
            Some port \<Rightarrow> ''add rule ip felucca input iifname '' @ quoted BRIDGE_NAME
                         @ '' tcp dport '' @ show_nat (unat port) @ '' drop'' @ nl
          | None \<Rightarrow> [])
       @ ''add rule ip felucca input iifname '' @ quoted BRIDGE_NAME
       @ '' icmp type { echo-request, echo-reply, destination-unreachable, time-exceeded, parameter-problem } accept'' @ nl
       @ ''add rule ip felucca input iifname '' @ quoted BRIDGE_NAME @ '' ct state established,related accept'' @ nl
       @ ''add rule ip felucca input iifname '' @ quoted BRIDGE_NAME @ '' drop'' @ nl"

definition bridge_l2_ruleset :: string where
  "bridge_l2_ruleset
     = ''add table bridge felucca'' @ nl
       @ ''add chain bridge felucca forward { type filter hook forward priority -200 ; policy accept ; }'' @ nl
       @ ''flush chain bridge felucca forward'' @ nl
       @ ''add rule bridge felucca forward meta ibrname != '' @ quoted BRIDGE_NAME @ '' accept'' @ nl
       @ ''add rule bridge felucca forward meta obrname != '' @ quoted BRIDGE_NAME @ '' accept'' @ nl
       @ ''add rule bridge felucca forward ether type arp accept'' @ nl
       @ ''add rule bridge felucca forward ether type ip accept'' @ nl
       @ ''add rule bridge felucca forward drop'' @ nl"

definition antispoof_ruleset :: "string \<Rightarrow> string \<Rightarrow> GuestMac \<Rightarrow> string option" where
  "antispoof_ruleset tap guest_ip guest_mac
     = (if \<not> valid_ifname tap then None
        else case ipv4_from_str guest_ip of
               None \<Rightarrow> None
             | Some ip \<Rightarrow>
               (let mac = mac_str guest_mac;
                    chain = antispoof_chain tap;
                    rule = ''add rule netdev felucca '' @ chain
                in Some (''add table netdev felucca'' @ nl
                    @ ''add chain netdev felucca '' @ chain @ '' { type filter hook ingress device ''
                    @ quoted tap @ '' priority 0 ; policy drop ; }'' @ nl
                    @ ''flush chain netdev felucca '' @ chain @ nl
                    @ rule @ '' ether saddr != '' @ mac @ '' drop'' @ nl
                    @ rule @ '' arp operation { request, reply } arp saddr ether != '' @ mac @ '' drop'' @ nl
                    @ rule @ '' arp operation { request, reply } arp saddr ip != '' @ fmt_ip ip @ '' drop'' @ nl
                    @ rule @ '' ether type arp accept'' @ nl
                    @ rule @ '' ip saddr '' @ fmt_ip ip @ '' accept'' @ nl)))"

text \<open>
  The \<open>HashMap\<close> keeps, per valid tenant, the parsed addresses in member order; the order in
  which its values are visited is the parameter \<open>visit\<close>.
\<close>

definition member_ips :: "(string \<times> string) list \<Rightarrow> string \<Rightarrow> u32 list" where
  "member_ips members t
     = List.map_filter (\<lambda>(t', ip). if t' = t \<and> valid_tenant t' then ipv4_from_str ip else None) members"

definition tenant_keys :: "(string \<times> string) list \<Rightarrow> string list" where
  "tenant_keys members
     = remdups (map fst (filter (\<lambda>(t, ip). valid_tenant t \<and> ipv4_from_str ip \<noteq> None) members))"

definition pair_text :: "u32 \<Rightarrow> u32 \<Rightarrow> string" where
  "pair_text a b = fmt_ip a @ '' . '' @ fmt_ip b"

definition tenant_pair_elements ::
    "(string list \<Rightarrow> string list) \<Rightarrow> (string \<times> string) list \<Rightarrow> string list" where
  "tenant_pair_elements visit members
     = concat (map (\<lambda>t. let ips = member_ips members t
                         in [pair_text a b. a \<leftarrow> ips, b \<leftarrow> ips, a \<noteq> b])
                   (visit (tenant_keys members)))"

definition isolation_ruleset ::
    "(string list \<Rightarrow> string list) \<Rightarrow> (string \<times> string) list \<Rightarrow> string" where
  "isolation_ruleset visit members
     = ''add table ip felucca'' @ nl
       @ ''add set ip felucca tenant_pairs { type ipv4_addr . ipv4_addr ; }'' @ nl
       @ ''add chain ip felucca forward { type filter hook forward priority 0 ; policy drop ; }'' @ nl
       @ ''flush chain ip felucca forward'' @ nl
       @ ''flush set ip felucca tenant_pairs'' @ nl
       @ (let elems = tenant_pair_elements visit members
          in if elems \<noteq> []
             then ''add element ip felucca tenant_pairs { '' @ join_with '', '' elems @ '' }'' @ nl
             else [])
       @ ''add rule ip felucca forward iifname != '' @ quoted BRIDGE_NAME @ '' accept'' @ nl
       @ ''add rule ip felucca forward oifname != '' @ quoted BRIDGE_NAME @ '' accept'' @ nl
       @ ''add rule ip felucca forward ip saddr . ip daddr @tenant_pairs accept'' @ nl
       @ ''add rule ip felucca forward iifname '' @ quoted BRIDGE_NAME @ '' oifname ''
       @ quoted BRIDGE_NAME @ '' drop'' @ nl"

definition ingress_rule_parts :: "u16 \<Rightarrow> string \<Rightarrow> u16 \<Rightarrow> (string \<times> string) option" where
  "ingress_rule_parts node_port guest_ip guest_port
     = (case ipv4_from_str guest_ip of
          None \<Rightarrow> None
        | Some ip \<Rightarrow> Some (show_nat (unat node_port), fmt_ip ip @ '':'' @ show_nat (unat guest_port)))"

subsection \<open>Addresses\<close>

lemma ipv4_octet_show: "n < 256 \<Longrightarrow> ipv4_octet (show_nat n) = Some n"
  using show_nat_hd [of n] show_nat_length_le3 [of n]
  by (auto simp: ipv4_octet_def show_nat.simps [of 0])

lemma ipv4_from_str_fmt_ip [simp]: "ipv4_from_str (fmt_ip v) = Some v"
proof -
  let ?n = "unat v"
  let ?a = "?n div 256" and ?b = "?n div 256 div 256" and ?c = "?n div 256 div 256 div 256"
  have n: "?n < 2 ^ 32" using unsigned_less [of v, where ?'a = nat] by simp
  have o: "unat (drop_bit 24 v AND 0xff) = ?c" "unat (drop_bit 16 v AND 0xff) = ?b mod 256"
    "unat (drop_bit 8 v AND 0xff) = ?a mod 256" "unat (v AND 0xff) = ?n mod 256"
    using n unat_octet [of 24 v] unat_octet [of 16 v] unat_octet [of 8 v] unat_octet [of 0 v]
    by (simp_all add: div_mult2_eq [symmetric])
  have "((unat (drop_bit 24 v AND 0xff) * 256 + unat (drop_bit 16 v AND 0xff)) * 256
      + unat (drop_bit 8 v AND 0xff)) * 256 + unat (v AND 0xff) = ?n"
    unfolding o by (simp only: div_mult_mod_eq)
  then show ?thesis
    by (simp add: ipv4_from_str_def split_fmt_ip ipv4_octet_show octet_less)
qed

lemma map_four:
  "map f xs = [a, b, c, d] \<longleftrightarrow> (\<exists>w x y z. xs = [w, x, y, z] \<and> f w = a \<and> f x = b \<and> f y = c \<and> f z = d)"
  by (auto simp: map_eq_Cons_conv)

lemma ipv4_octet_chars: "ipv4_octet w = Some n \<Longrightarrow> n < 256"
  by (auto simp: ipv4_octet_def split: if_splits option.splits)

subsection \<open>The reading of a base chain\<close>

datatype arp_op = ArpRequest | ArpReply | ArpOther nat

datatype l4 = Tcp nat | Udp nat | Icmp string | OtherL4 nat

text \<open>Network layer: ARP with operation and sender addresses, IPv4, or another ethertype.\<close>

datatype l3 = Arp arp_op string u32 | Ipv4 u32 u32 l4 | OtherL3 nat

record packet =
  pk_iif :: string
  pk_oif :: string
  pk_ibr :: string
  pk_obr :: string
  pk_ether_saddr :: string
  pk_established :: bool
  pk_l3 :: l3

datatype nft_match =
    Iifname bool string
  | Oifname bool string
  | Ibrname bool string
  | Obrname bool string
  | PairIn
  | TcpDport nat
  | IcmpTypes "string list"
  | CtEstablished
  | EtherSaddrNot string
  | ArpReqReply
  | ArpSaddrEtherNot string
  | ArpSaddrIpNot u32
  | EtherArp
  | EtherIp
  | IpSaddr u32

text \<open>\<open>True\<close> in the name matches is equality, \<open>False\<close> is \<open>!=\<close>.\<close>

definition name_text :: "string \<Rightarrow> bool \<Rightarrow> string \<Rightarrow> string" where
  "name_text kw pos n = kw @ (if pos then '' '' else '' != '') @ quoted n"

fun match_text :: "nft_match \<Rightarrow> string" where
  "match_text (Iifname pos n) = name_text ''iifname'' pos n"
| "match_text (Oifname pos n) = name_text ''oifname'' pos n"
| "match_text (Ibrname pos n) = name_text ''meta ibrname'' pos n"
| "match_text (Obrname pos n) = name_text ''meta obrname'' pos n"
| "match_text PairIn = ''ip saddr . ip daddr @tenant_pairs''"
| "match_text (TcpDport p) = ''tcp dport '' @ show_nat p"
| "match_text (IcmpTypes ts) = ''icmp type { '' @ join_with '', '' ts @ '' }''"
| "match_text CtEstablished = ''ct state established,related''"
| "match_text (EtherSaddrNot m) = ''ether saddr != '' @ m"
| "match_text ArpReqReply = ''arp operation { request, reply }''"
| "match_text (ArpSaddrEtherNot m) = ''arp saddr ether != '' @ m"
| "match_text (ArpSaddrIpNot a) = ''arp saddr ip != '' @ fmt_ip a"
| "match_text EtherArp = ''ether type arp''"
| "match_text EtherIp = ''ether type ip''"
| "match_text (IpSaddr a) = ''ip saddr '' @ fmt_ip a"

type_synonym nft_rule = "nft_match list \<times> bool"

definition rule_text :: "string \<Rightarrow> nft_rule \<Rightarrow> string" where
  "rule_text chain r
     = ''add rule '' @ chain @ '' '' @ concat (map (\<lambda>m. match_text m @ '' '') (fst r))
       @ (if snd r then ''accept'' else ''drop'') @ nl"

text \<open>
  Matching.  \<open>pairs\<close> are the elements of the named set.  A match on a header the packet does
  not have fails, as nftables' implicit dependencies make it.
\<close>

fun matches :: "string list \<Rightarrow> packet \<Rightarrow> nft_match \<Rightarrow> bool" where
  "matches pairs p (Iifname pos n) = ((pk_iif p = n) = pos)"
| "matches pairs p (Oifname pos n) = ((pk_oif p = n) = pos)"
| "matches pairs p (Ibrname pos n) = ((pk_ibr p = n) = pos)"
| "matches pairs p (Obrname pos n) = ((pk_obr p = n) = pos)"
| "matches pairs p PairIn = (case pk_l3 p of Ipv4 s d _ \<Rightarrow> pair_text s d \<in> set pairs | _ \<Rightarrow> False)"
| "matches pairs p (TcpDport n) = (case pk_l3 p of Ipv4 _ _ (Tcp dp) \<Rightarrow> dp = n | _ \<Rightarrow> False)"
| "matches pairs p (IcmpTypes ts) = (case pk_l3 p of Ipv4 _ _ (Icmp t) \<Rightarrow> t \<in> set ts | _ \<Rightarrow> False)"
| "matches pairs p CtEstablished = pk_established p"
| "matches pairs p (EtherSaddrNot m) = (pk_ether_saddr p \<noteq> m)"
| "matches pairs p ArpReqReply
     = (case pk_l3 p of Arp op _ _ \<Rightarrow> op = ArpRequest \<or> op = ArpReply | _ \<Rightarrow> False)"
| "matches pairs p (ArpSaddrEtherNot m) = (case pk_l3 p of Arp _ sha _ \<Rightarrow> sha \<noteq> m | _ \<Rightarrow> False)"
| "matches pairs p (ArpSaddrIpNot a) = (case pk_l3 p of Arp _ _ spa \<Rightarrow> spa \<noteq> a | _ \<Rightarrow> False)"
| "matches pairs p EtherArp = (case pk_l3 p of Arp _ _ _ \<Rightarrow> True | _ \<Rightarrow> False)"
| "matches pairs p EtherIp = (case pk_l3 p of Ipv4 _ _ _ \<Rightarrow> True | _ \<Rightarrow> False)"
| "matches pairs p (IpSaddr a) = (case pk_l3 p of Ipv4 s _ _ \<Rightarrow> s = a | _ \<Rightarrow> False)"

fun chain_accepts :: "bool \<Rightarrow> string list \<Rightarrow> nft_rule list \<Rightarrow> packet \<Rightarrow> bool" where
  "chain_accepts policy pairs [] p = policy"
| "chain_accepts policy pairs ((ms, verdict) # rs) p
     = (if list_all (matches pairs p) ms then verdict else chain_accepts policy pairs rs p)"

subsection \<open>The rule lists of the rendered texts\<close>

definition isolation_rules :: "nft_rule list" where
  "isolation_rules
     = [([Iifname False BRIDGE_NAME], True),
        ([Oifname False BRIDGE_NAME], True),
        ([PairIn], True),
        ([Iifname True BRIDGE_NAME, Oifname True BRIDGE_NAME], False)]"

definition antispoof_rules :: "string \<Rightarrow> u32 \<Rightarrow> nft_rule list" where
  "antispoof_rules mac ip
     = [([EtherSaddrNot mac], False),
        ([ArpReqReply, ArpSaddrEtherNot mac], False),
        ([ArpReqReply, ArpSaddrIpNot ip], False),
        ([EtherArp], True),
        ([IpSaddr ip], True)]"

definition allowed_icmp :: "string list" where
  "allowed_icmp = [''echo-request'', ''echo-reply'', ''destination-unreachable'', ''time-exceeded'',
                   ''parameter-problem'']"

definition guest_input_rules :: "u16 option \<Rightarrow> nft_rule list" where
  "guest_input_rules agent_port
     = [([Iifname False BRIDGE_NAME], True)]
       @ (case agent_port of Some port \<Rightarrow> [([Iifname True BRIDGE_NAME, TcpDport (unat port)], False)]
          | None \<Rightarrow> [])
       @ [([Iifname True BRIDGE_NAME, IcmpTypes allowed_icmp], True),
          ([Iifname True BRIDGE_NAME, CtEstablished], True),
          ([Iifname True BRIDGE_NAME], False)]"

definition bridge_l2_rules :: "nft_rule list" where
  "bridge_l2_rules
     = [([Ibrname False BRIDGE_NAME], True), ([Obrname False BRIDGE_NAME], True),
        ([EtherArp], True), ([EtherIp], True), ([], False)]"

definition chain_header :: "string \<Rightarrow> string \<Rightarrow> string \<Rightarrow> string" where
  "chain_header family name spec
     = ''add chain '' @ family @ '' felucca '' @ name @ '' { type filter hook '' @ spec @ '' ; }'' @ nl"

definition flush_chain :: "string \<Rightarrow> string \<Rightarrow> string" where
  "flush_chain family name = ''flush chain '' @ family @ '' felucca '' @ name @ nl"

definition rules_text :: "string \<Rightarrow> string \<Rightarrow> nft_rule list \<Rightarrow> string" where
  "rules_text family name rs = concat (map (rule_text (family @ '' felucca '' @ name)) rs)"

lemmas nft_text_defs = rules_text_def rule_text_def name_text_def chain_header_def flush_chain_def
  quoted_def

lemma isolation_text:
  "isolation_ruleset visit members
     = ''add table ip felucca'' @ nl
       @ ''add set ip felucca tenant_pairs { type ipv4_addr . ipv4_addr ; }'' @ nl
       @ chain_header ''ip'' ''forward'' ''forward priority 0 ; policy drop''
       @ flush_chain ''ip'' ''forward''
       @ ''flush set ip felucca tenant_pairs'' @ nl
       @ (if tenant_pair_elements visit members \<noteq> []
          then ''add element ip felucca tenant_pairs { ''
               @ join_with '', '' (tenant_pair_elements visit members) @ '' }'' @ nl
          else [])
       @ rules_text ''ip'' ''forward'' isolation_rules"
  by (simp add: isolation_ruleset_def isolation_rules_def nft_text_defs Let_def)

lemma antispoof_text:
  assumes "valid_ifname tap" "ipv4_from_str guest_ip = Some ip"
  shows "antispoof_ruleset tap guest_ip mac
     = Some (''add table netdev felucca'' @ nl
         @ chain_header ''netdev'' (antispoof_chain tap)
             (''ingress device '' @ quoted tap @ '' priority 0 ; policy drop'')
         @ flush_chain ''netdev'' (antispoof_chain tap)
         @ rules_text ''netdev'' (antispoof_chain tap) (antispoof_rules (mac_str mac) ip))"
  using assms by (simp add: antispoof_ruleset_def antispoof_rules_def nft_text_defs Let_def)

lemma guest_input_text:
  "guest_input_ruleset port
     = ''add table ip felucca'' @ nl
       @ chain_header ''ip'' ''input'' ''input priority 0 ; policy accept''
       @ flush_chain ''ip'' ''input''
       @ rules_text ''ip'' ''input'' (guest_input_rules port)"
  by (simp add: guest_input_ruleset_def guest_input_rules_def allowed_icmp_def nft_text_defs
      split: option.splits)

lemma bridge_l2_text:
  "bridge_l2_ruleset
     = ''add table bridge felucca'' @ nl
       @ chain_header ''bridge'' ''forward'' ''forward priority -200 ; policy accept''
       @ flush_chain ''bridge'' ''forward''
       @ rules_text ''bridge'' ''forward'' bridge_l2_rules"
  by (simp add: bridge_l2_ruleset_def bridge_l2_rules_def nft_text_defs)

subsection \<open>Tenant pairs\<close>

lemma fmt_ip_mem: "c \<in> set (fmt_ip v) \<Longrightarrow> is_ascii_digit c \<or> c = CHR ''.''"
  by (auto simp: fmt_ip_def dest: show_nat_mem)

lemma fmt_ip_no_space [simp]: "CHR '' '' \<notin> set (fmt_ip v)"
  using fmt_ip_mem by (fastforce simp: is_ascii_digit_def)

lemma pair_text_inj [simp]: "pair_text a b = pair_text c d \<longleftrightarrow> a = c \<and> b = d"
proof
  assume "pair_text a b = pair_text c d"
  then have "split_once (CHR '' '') (pair_text a b) = split_once (CHR '' '') (pair_text c d)"
    by simp
  then show "a = c \<and> b = d"
    by (auto simp: pair_text_def intro: fmt_ip_inj)
qed simp

lemma member_ips_iff:
  "a \<in> set (member_ips members t)
     \<longleftrightarrow> valid_tenant t \<and> (\<exists>x. (t, x) \<in> set members \<and> ipv4_from_str x = Some a)"
  by (induction members) (auto simp: member_ips_def List.map_filter_simps split: option.splits if_splits)

lemma tenant_keys_member: "a \<in> set (member_ips members t) \<Longrightarrow> t \<in> set (tenant_keys members)"
  by (force simp: member_ips_iff tenant_keys_def)

definition same_tenant :: "(string \<times> string) list \<Rightarrow> u32 \<Rightarrow> u32 \<Rightarrow> bool" where
  "same_tenant members a b
     = (\<exists>t x y. valid_tenant t \<and> (t, x) \<in> set members \<and> (t, y) \<in> set members
                \<and> ipv4_from_str x = Some a \<and> ipv4_from_str y = Some b)"

lemma tenant_pair_elements_iff:
  assumes "set (visit (tenant_keys members)) = set (tenant_keys members)"
  shows "pair_text a b \<in> set (tenant_pair_elements visit members) \<longleftrightarrow> a \<noteq> b \<and> same_tenant members a b"
proof -
  have "pair_text a b \<in> set (tenant_pair_elements visit members)
      \<longleftrightarrow> (\<exists>t. a \<in> set (member_ips members t) \<and> b \<in> set (member_ips members t) \<and> a \<noteq> b)"
    using assms tenant_keys_member by (fastforce simp: tenant_pair_elements_def Let_def)
  then show ?thesis
    by (auto simp: member_ips_iff same_tenant_def)
qed

subsection \<open>What the chains do\<close>

lemma isolation_accepts:
  assumes "set (visit (tenant_keys members)) = set (tenant_keys members)"
  shows "chain_accepts False (tenant_pair_elements visit members) isolation_rules p
     \<longleftrightarrow> pk_iif p \<noteq> BRIDGE_NAME \<or> pk_oif p \<noteq> BRIDGE_NAME
         \<or> (case pk_l3 p of Ipv4 a b _ \<Rightarrow> a \<noteq> b \<and> same_tenant members a b | _ \<Rightarrow> False)"
  using tenant_pair_elements_iff [of visit members, OF assms]
  by (auto simp: isolation_rules_def split: l3.splits)

lemma antispoof_accepts:
  "chain_accepts False [] (antispoof_rules mac ip) p
     \<longleftrightarrow> pk_ether_saddr p = mac
         \<and> (case pk_l3 p of
              Arp op sha spa \<Rightarrow> (op = ArpRequest \<or> op = ArpReply \<longrightarrow> sha = mac \<and> spa = ip)
            | Ipv4 s _ _ \<Rightarrow> s = ip
            | OtherL3 _ \<Rightarrow> False)"
  by (auto simp: antispoof_rules_def split: l3.splits)

lemma bridge_l2_accepts:
  "pk_ibr p = BRIDGE_NAME \<Longrightarrow> pk_obr p = BRIDGE_NAME \<Longrightarrow>
   chain_accepts True [] bridge_l2_rules p \<longleftrightarrow> (case pk_l3 p of OtherL3 _ \<Rightarrow> False | _ \<Rightarrow> True)"
  by (auto simp: bridge_l2_rules_def split: l3.splits)

subsection \<open>Names and MAC addresses of slots\<close>

lemma hex_digit_inj: "a < 16 \<Longrightarrow> b < 16 \<Longrightarrow> hex_digit a = hex_digit b \<Longrightarrow> a = b"
proof -
  assume "a < 16" "b < 16" "hex_digit a = hex_digit b"
  then have "byte (hex_digit a) = byte (hex_digit b)" by simp
  then show "a = b"
    using \<open>a < 16\<close> \<open>b < 16\<close> by (auto simp: hex_digit_def split: if_splits)
qed

lemma hex2_inj: "a < 256 \<Longrightarrow> b < 256 \<Longrightarrow> hex2 a = hex2 b \<Longrightarrow> a = b"
proof -
  assume "a < 256" "b < 256" "hex2 a = hex2 b"
  then have "a div 16 = b div 16" "a mod 16 = b mod 16"
    using hex_digit_inj [of "a div 16" "b div 16"] hex_digit_inj [of "a mod 16" "b mod 16"]
    by (auto simp: hex2_def)
  then show "a = b" by (metis div_mult_mod_eq)
qed

lemma hex2_length [simp]: "length (hex2 b) = 2"
  by (simp add: hex2_def)

lemma guest_mac_inj:
  assumes "i < 2 ^ 24" "j < 2 ^ 24" "guest_mac_for_slot i = guest_mac_for_slot j"
  shows "i = j"
proof -
  have "unat (drop_bit 16 i AND 0xff) = unat (drop_bit 16 j AND 0xff)"
    "unat (drop_bit 8 i AND 0xff) = unat (drop_bit 8 j AND 0xff)"
    "unat (i AND 0xff) = unat (j AND 0xff)"
    using assms(3) octet_less
    by (auto simp: guest_mac_for_slot_def intro!: hex2_inj)
  moreover have "drop_bit 24 i = 0" "drop_bit 24 j = 0"
    using assms(1,2) by (simp_all add: word_less_nat_alt word_unat_eq_iff unat_drop_bit_eq
        drop_bit_eq_div [where ?'a = nat])
  ultimately have "fmt_ip i = fmt_ip j"
    by (simp add: fmt_ip_def)
  then show ?thesis by (rule fmt_ip_inj)
qed

lemma show_nat_length: "n < 10 ^ Suc k \<Longrightarrow> length (show_nat n) \<le> Suc k"
proof (induction k arbitrary: n)
  case 0
  then show ?case by (simp add: show_nat.simps)
next
  case (Suc k)
  then have "n div 10 < 10 ^ Suc k" by (simp add: less_mult_imp_div_less mult.commute)
  from Suc.IH [OF this] show ?case by (subst show_nat.simps) simp
qed

lemma tap_name_valid: "valid_ifname (tap_name i)"
proof -
  have "unat i < 10 ^ Suc 9" using unsigned_less [of i, where ?'a = nat] by simp
  then have "length (show_nat (unat i)) \<le> 10" using show_nat_length by fastforce
  moreover have "list_all ident_char (show_nat (unat i))"
    using show_nat_digits by (auto simp: list_all_iff ident_char_def is_ascii_alphanumeric_def)
  ultimately show ?thesis
    by (simp add: valid_ifname_def tap_name_def ident_char_def ascii_defs)
qed

lemma antispoof_chain_tap: "antispoof_chain (tap_name i) = ''as_hth_'' @ show_nat (unat i)"
proof -
  have "map (\<lambda>c. if is_ascii_alphanumeric c then c else CHR ''_'') (show_nat (unat i)) = show_nat (unat i)"
    using show_nat_digits by (auto simp: list_all_iff is_ascii_alphanumeric_def intro!: map_idI)
  then show ?thesis by (simp add: antispoof_chain_def tap_name_def ascii_defs)
qed

subsection \<open>Properties\<close>

text \<open>
  C7. The forward chain the agent installs separates tenants.  The rendered ruleset is the
  print of \<open>isolation_rules\<close> with policy drop over the set of tenant pairs, in whatever order the
  hash map yields the tenants, and read as a chain it accepts a packet exactly when it is
  not guest-to-guest, or it is IPv4 between two different addresses that belong to
  members of one tenant with a valid name.
\<close>

theorem forward_chain_separates_tenants:
  assumes "set (visit (tenant_keys members)) = set (tenant_keys members)"
  shows "isolation_ruleset visit members
           = ''add table ip felucca'' @ nl
             @ ''add set ip felucca tenant_pairs { type ipv4_addr . ipv4_addr ; }'' @ nl
             @ chain_header ''ip'' ''forward'' ''forward priority 0 ; policy drop''
             @ flush_chain ''ip'' ''forward''
             @ ''flush set ip felucca tenant_pairs'' @ nl
             @ (if tenant_pair_elements visit members \<noteq> []
                then ''add element ip felucca tenant_pairs { ''
                     @ join_with '', '' (tenant_pair_elements visit members) @ '' }'' @ nl
                else [])
             @ rules_text ''ip'' ''forward'' isolation_rules
         \<and> (chain_accepts False (tenant_pair_elements visit members) isolation_rules p
             \<longleftrightarrow> pk_iif p \<noteq> BRIDGE_NAME \<or> pk_oif p \<noteq> BRIDGE_NAME
                 \<or> (\<exists>a b l4 t x y. pk_l3 p = Ipv4 a b l4 \<and> a \<noteq> b \<and> valid_tenant t
                      \<and> (t, x) \<in> set members \<and> (t, y) \<in> set members
                      \<and> ipv4_from_str x = Some a \<and> ipv4_from_str y = Some b))"
  unfolding isolation_accepts [of visit members, OF assms] isolation_text
  by (auto simp: same_tenant_def split: l3.splits)

theorem forward_chain_separates_tenants_witness:
  "let members = [(''acme'', fmt_ip 0x0AE70002), (''acme'', fmt_ip 0x0AE70003),
                  (''evil'', fmt_ip 0x0AE70004), ([], fmt_ip 0x0AE70005)];
       pkt = (\<lambda>a b. \<lparr>pk_iif = BRIDGE_NAME, pk_oif = BRIDGE_NAME, pk_ibr = BRIDGE_NAME,
                      pk_obr = BRIDGE_NAME, pk_ether_saddr = [], pk_established = True,
                      pk_l3 = Ipv4 a b (Tcp 80)\<rparr>)
   in chain_accepts False (tenant_pair_elements rev members) isolation_rules (pkt 0x0AE70002 0x0AE70003)
      \<and> \<not> chain_accepts False (tenant_pair_elements rev members) isolation_rules (pkt 0x0AE70002 0x0AE70004)
      \<and> \<not> chain_accepts False (tenant_pair_elements rev members) isolation_rules (pkt 0x0AE70005 0x0AE70005)"
proof -
  let ?m = "[(''acme'', fmt_ip 0x0AE70002), (''acme'', fmt_ip 0x0AE70003),
             (''evil'', fmt_ip 0x0AE70004), ([], fmt_ip 0x0AE70005)]"
  have "set (rev (tenant_keys ?m)) = set (tenant_keys ?m)" by simp
  note i = forward_chain_separates_tenants [of rev ?m, OF this]
  have v: "valid_tenant ''acme''"
    by (simp add: valid_tenant_def ident_char_def ascii_defs)
  let ?p = "\<lambda>a b. \<lparr>pk_iif = BRIDGE_NAME, pk_oif = BRIDGE_NAME, pk_ibr = BRIDGE_NAME,
      pk_obr = BRIDGE_NAME, pk_ether_saddr = [], pk_established = True, pk_l3 = Ipv4 a b (Tcp 80)\<rparr>"
  have "\<exists>a b l4 t x y. pk_l3 (?p 0x0AE70002 0x0AE70003) = Ipv4 a b l4 \<and> a \<noteq> b \<and> valid_tenant t
      \<and> (t, x) \<in> set ?m \<and> (t, y) \<in> set ?m \<and> ipv4_from_str x = Some a \<and> ipv4_from_str y = Some b"
    by (rule exI [of _ "0x0AE70002"], rule exI [of _ "0x0AE70003"], rule exI [of _ "Tcp 80"],
        rule exI [of _ "''acme''"], rule exI [of _ "fmt_ip 0x0AE70002"],
        rule exI [of _ "fmt_ip 0x0AE70003"]) (use v in simp)
  moreover have "\<not> (\<exists>a b l4 t x y. pk_l3 (?p 0x0AE70002 0x0AE70004) = Ipv4 a b l4 \<and> a \<noteq> b \<and> valid_tenant t
      \<and> (t, x) \<in> set ?m \<and> (t, y) \<in> set ?m \<and> ipv4_from_str x = Some a \<and> ipv4_from_str y = Some b)"
    by auto
  moreover have "\<not> (\<exists>a b l4 t x y. pk_l3 (?p 0x0AE70005 0x0AE70005) = Ipv4 a b l4 \<and> a \<noteq> b \<and> valid_tenant t
      \<and> (t, x) \<in> set ?m \<and> (t, y) \<in> set ?m \<and> ipv4_from_str x = Some a \<and> ipv4_from_str y = Some b)"
    by simp
  ultimately show ?thesis
    unfolding Let_def i [THEN conjunct2] by simp
qed

text \<open>
  C8. The ingress chain of a tap lets through exactly the frames with the guest's own MAC as
  source that are IPv4 from the guest's own address, or ARP whose sender fields, in a request or
  a reply, are the guest's own MAC and address; it is installed under a chain name of its own
  per slot, on the tap of that slot.
\<close>

theorem antispoof_pins_identity:
  assumes "ipv4_from_str guest_ip = Some ip"
  shows "antispoof_ruleset (tap_name slot) guest_ip mac
           = Some (''add table netdev felucca'' @ nl
               @ chain_header ''netdev'' (''as_hth_'' @ show_nat (unat slot))
                   (''ingress device '' @ quoted (tap_name slot) @ '' priority 0 ; policy drop'')
               @ flush_chain ''netdev'' (''as_hth_'' @ show_nat (unat slot))
               @ rules_text ''netdev'' (''as_hth_'' @ show_nat (unat slot))
                   (antispoof_rules (mac_str mac) ip))
         \<and> (chain_accepts False [] (antispoof_rules (mac_str mac) ip) p
             \<longleftrightarrow> pk_ether_saddr p = mac_str mac
                 \<and> (case pk_l3 p of
                      Arp op sha spa \<Rightarrow> (op = ArpRequest \<or> op = ArpReply \<longrightarrow> sha = mac_str mac \<and> spa = ip)
                    | Ipv4 s _ _ \<Rightarrow> s = ip
                    | OtherL3 _ \<Rightarrow> False))"
  using antispoof_text [OF tap_name_valid assms] antispoof_accepts
  by (simp add: antispoof_chain_tap)

theorem antispoof_pins_identity_witness:
  "let p = \<lparr>pk_iif = ''hth-3'', pk_oif = [], pk_ibr = [], pk_obr = [],
            pk_ether_saddr = mac_str (guest_mac_for_slot 3), pk_established = False,
            pk_l3 = Ipv4 0x0AE70005 0x08080808 (Udp 53)\<rparr>
   in chain_accepts False [] (antispoof_rules (mac_str (guest_mac_for_slot 3)) 0x0AE70005) p
      \<and> \<not> chain_accepts False [] (antispoof_rules (mac_str (guest_mac_for_slot 3)) 0x0AE70005)
            (p\<lparr>pk_l3 := Arp ArpReply (mac_str (guest_mac_for_slot 3)) 0x0AE70006\<rparr>)
      \<and> antispoof_ruleset (tap_name 3) (fmt_ip 0x0AE70005) (guest_mac_for_slot 3) \<noteq> None"
  using antispoof_pins_identity [of "fmt_ip 0x0AE70005" "0x0AE70005" 3 "guest_mac_for_slot 3"]
  by (simp add: Let_def)

text \<open>
  The input chain fences the host off from the guests: a packet from another interface is
  not touched; from the bridge, the agent's own port is closed to every TCP packet, and only the
  listed ICMP types and replies to established flows are let through.
\<close>

theorem guest_input_fence:
  "guest_input_ruleset port
     = ''add table ip felucca'' @ nl
       @ chain_header ''ip'' ''input'' ''input priority 0 ; policy accept''
       @ flush_chain ''ip'' ''input'' @ rules_text ''ip'' ''input'' (guest_input_rules port)
   \<and> (chain_accepts True [] (guest_input_rules port) p
       = (if pk_iif p \<noteq> BRIDGE_NAME then True
          else if (case (port, pk_l3 p) of (Some n, Ipv4 _ _ (Tcp dp)) \<Rightarrow> dp = unat n | _ \<Rightarrow> False)
          then False
          else (case pk_l3 p of Ipv4 _ _ (Icmp t) \<Rightarrow> t \<in> set allowed_icmp | _ \<Rightarrow> False)
               \<or> pk_established p))"
  unfolding guest_input_text
  by (auto simp: guest_input_rules_def split: option.splits l3.splits l4.splits)

text \<open>
  Slots do not share names: tap names are valid interface names, different slots have
  different tap names and different chain names, and different slots below $2^{24}$ have
  different MAC addresses.
\<close>

theorem slot_identities_distinct:
  "valid_ifname (tap_name i)
   \<and> (tap_name i = tap_name j \<longleftrightarrow> i = j)
   \<and> (antispoof_chain (tap_name i) = antispoof_chain (tap_name j) \<longleftrightarrow> i = j)
   \<and> (i < 2 ^ 24 \<and> j < 2 ^ 24 \<longrightarrow> (guest_mac_for_slot i = guest_mac_for_slot j \<longleftrightarrow> i = j))"
proof (intro conjI impI)
  have "show_nat (unat i) = show_nat (unat j) \<longleftrightarrow> i = j"
    using show_nat_inj [of "unat i" "unat j"] by (auto simp: word_unat_eq_iff)
  then show "tap_name i = tap_name j \<longleftrightarrow> i = j"
    and "antispoof_chain (tap_name i) = antispoof_chain (tap_name j) \<longleftrightarrow> i = j"
    by (simp_all add: antispoof_chain_tap) (simp add: tap_name_def)
  show "valid_ifname (tap_name i)" by (rule tap_name_valid)
  show "guest_mac_for_slot i = guest_mac_for_slot j \<longleftrightarrow> i = j" if "i < 2 ^ 24 \<and> j < 2 ^ 24"
    using that guest_mac_inj by blast
qed

end
