(* ===== verification/Net.thy ===== *)
theory Net
  imports Nft_Rules
begin

text \<open>
  Host networking (\<open>agent/src/net.rs\<close>, the functions that act): running commands with the
  \<open>sudo -n\<close> fallback, feeding rulesets to \<open>nft\<close>, the bridge and tap set-up, the verified
  sysctl writes and the two readiness flags.  The operating system is a record of functions
  on an abstract world; the \<open>static\<close> variables of the module are fields of the state.
  Log output is not modelled.
\<close>

subsection \<open>The operating system and the module state\<close>

text \<open>How feeding a ruleset to \<open>nft -f -\<close> ended.\<close>

datatype nft_outcome = NftNoSpawn | NftWriteFailed | NftExit bool

record 'w sys =
  sys_cmd :: "string list \<Rightarrow> 'w \<Rightarrow> bool \<times> 'w"
  sys_nft :: "string list \<Rightarrow> string \<Rightarrow> 'w \<Rightarrow> nft_outcome \<times> 'w"
  sys_read :: "string \<Rightarrow> 'w \<Rightarrow> string option"
  sys_exists :: "string \<Rightarrow> 'w \<Rightarrow> bool"

record 'w host =
  h_world :: 'w
  h_guest_cidr :: "string option"
  h_isolation_ok :: bool
  h_filter_ok :: bool
  h_agent_port :: u32

definition set_agent_port :: "u16 \<Rightarrow> 'w host \<Rightarrow> 'w host" where
  "set_agent_port port st = st\<lparr>h_agent_port := ucast port\<rparr>"

subsection \<open>Commands\<close>

definition run_once :: "'w sys \<Rightarrow> string list \<Rightarrow> bool \<Rightarrow> 'w host \<Rightarrow> bool \<times> 'w host" where
  "run_once sys argv use_sudo st
     = (if argv = [] then (False, st)
        else let (ok, w) = sys_cmd sys (if use_sudo then ''sudo'' # ''-n'' # argv else argv) (h_world st)
             in (ok, st\<lparr>h_world := w\<rparr>))"

definition run :: "'w sys \<Rightarrow> string list \<Rightarrow> 'w host \<Rightarrow> bool \<times> 'w host" where
  "run sys argv st
     = (case run_once sys argv False st of
          (True, st1) \<Rightarrow> (True, st1)
        | (False, st1) \<Rightarrow> run_once sys argv True st1)"

definition run_nft_file_once :: "'w sys \<Rightarrow> string \<Rightarrow> bool \<Rightarrow> 'w host \<Rightarrow> bool \<times> 'w host" where
  "run_nft_file_once sys ruleset use_sudo st
     = (let argv = (if use_sudo then [''sudo'', ''-n'', ''nft'', ''-f'', ''-''] else [''nft'', ''-f'', ''-'']);
            (r, w) = sys_nft sys argv ruleset (h_world st)
        in (case r of NftNoSpawn \<Rightarrow> False | NftWriteFailed \<Rightarrow> False | NftExit ok \<Rightarrow> ok,
            st\<lparr>h_world := w\<rparr>))"

definition run_nft_file :: "'w sys \<Rightarrow> string \<Rightarrow> 'w host \<Rightarrow> bool \<times> 'w host" where
  "run_nft_file sys ruleset st
     = (case run_nft_file_once sys ruleset False st of
          (True, st1) \<Rightarrow> (True, st1)
        | (False, st1) \<Rightarrow> run_nft_file_once sys ruleset True st1)"

text \<open>A command whose result is ignored.\<close>

definition run_ignored :: "'w sys \<Rightarrow> string list \<Rightarrow> 'w host \<Rightarrow> 'w host" where
  "run_ignored sys argv st = snd (run sys argv st)"

subsection \<open>Verified sysctl writes\<close>

definition sysctl_confirmed :: "'w sys \<Rightarrow> string \<Rightarrow> 'w host \<Rightarrow> bool" where
  "sysctl_confirmed sys path st
     = (case sys_read sys path (h_world st) of Some s \<Rightarrow> trim s = ''1'' | None \<Rightarrow> False)"

definition set_sysctl_verified :: "'w sys \<Rightarrow> string \<Rightarrow> string \<Rightarrow> 'w host \<Rightarrow> bool \<times> 'w host" where
  "set_sysctl_verified sys key path st
     = (if sysctl_confirmed sys path st then (True, st)
        else
          let arg = key @ ''=1'';
              st1 = snd (run_once sys [''sysctl'', ''-w'', arg] False st)
          in if sysctl_confirmed sys path st1 then (True, st1)
             else
               let st2 = snd (run_once sys [''sysctl'', ''-w'', arg] True st1)
               in if sysctl_confirmed sys path st2 then (True, st2)
                  else
                    let st3 = run_ignored sys [''sh'', ''-c'', ''echo 1 > '' @ path] st2
                    in (sysctl_confirmed sys path st3, st3))"

definition ensure_ipv6_disabled :: "'w sys \<Rightarrow> string \<Rightarrow> 'w host \<Rightarrow> bool \<times> 'w host" where
  "ensure_ipv6_disabled sys iface st
     = (if \<not> valid_ifname iface then (False, st)
        else if \<not> sys_exists sys ''/proc/sys/net/ipv6'' (h_world st) then (True, st)
        else set_sysctl_verified sys (''net.ipv6.conf.'' @ iface @ ''.disable_ipv6'')
               (''/proc/sys/net/ipv6/conf/'' @ iface @ ''/disable_ipv6'') st)"

subsection \<open>The bridge\<close>

definition enable_forwarding :: "'w sys \<Rightarrow> 'w host \<Rightarrow> 'w host" where
  "enable_forwarding sys st
     = (case run sys [''sysctl'', ''-w'', ''net.ipv4.ip_forward=1''] st of
          (True, st1) \<Rightarrow> st1
        | (False, st1) \<Rightarrow>
            run_ignored sys [''sh'', ''-c'', ''echo 1 > /proc/sys/net/ipv4/ip_forward''] st1)"

definition ensure_nat :: "'w sys \<Rightarrow> Cidr \<Rightarrow> 'w host \<Rightarrow> 'w host" where
  "ensure_nat sys cidr st
     = (let base = fmt_ip (net_base cidr AND cidr_mask cidr);
            src = base @ ''/'' @ show_nat (unat (cidr_prefix cidr));
            st1 = run_ignored sys [''nft'', ''add'', ''table'', ''ip'', ''felucca''] st;
            st2 = run_ignored sys [''nft'', ''add'', ''chain'', ''ip'', ''felucca'', ''postrouting'',
                     ''{ type nat hook postrouting priority 100 ; }''] st1;
            st3 = run_ignored sys [''nft'', ''flush'', ''chain'', ''ip'', ''felucca'', ''postrouting''] st2
        in run_ignored sys [''nft'', ''add'', ''rule'', ''ip'', ''felucca'', ''postrouting'', ''ip'',
             ''saddr'', src, ''masquerade''] st3)"

definition ensure_guest_input_filter :: "'w sys \<Rightarrow> 'w host \<Rightarrow> bool \<times> 'w host" where
  "ensure_guest_input_filter sys st
     = (let port = (if h_agent_port st = 0 then None else Some (ucast (h_agent_port st)))
        in run_nft_file sys (guest_input_ruleset port) st)"

definition ensure_bridge_l2_filter :: "'w sys \<Rightarrow> 'w host \<Rightarrow> bool \<times> 'w host" where
  "ensure_bridge_l2_filter sys st = run_nft_file sys bridge_l2_ruleset st"

text \<open>\<open>OnceLock::set\<close> keeps the first value.\<close>

definition once_set :: "'a \<Rightarrow> 'a option \<Rightarrow> 'a option" where
  "once_set v slot = (case slot of None \<Rightarrow> Some v | Some old \<Rightarrow> Some old)"

definition ensure_bridge :: "'w sys \<Rightarrow> Cidr \<Rightarrow> 'w host \<Rightarrow> bool \<times> 'w host" where
  "ensure_bridge sys cidr st
     = (let gw_cidr = fmt_ip (gateway cidr) @ ''/'' @ show_nat (unat (cidr_prefix cidr));
            net = fmt_ip (net_base cidr) @ ''/'' @ show_nat (unat (cidr_prefix cidr));
            st0 = st\<lparr>h_guest_cidr := once_set net (h_guest_cidr st)\<rparr>;
            st1 = run_ignored sys [''ip'', ''link'', ''add'', BRIDGE_NAME, ''type'', ''bridge''] st0
        in case run sys [''ip'', ''link'', ''set'', BRIDGE_NAME, ''up''] st1 of
             (False, st2) \<Rightarrow> (False, st2)
           | (True, st2) \<Rightarrow>
             (let st3 = run_ignored sys [''ip'', ''addr'', ''add'', gw_cidr, ''dev'', BRIDGE_NAME] st2;
                  st4 = enable_forwarding sys st3;
                  st5 = ensure_nat sys cidr st4;
                  (input_ok, st6) = ensure_guest_input_filter sys st5;
                  (l2_ok, st7) = ensure_bridge_l2_filter sys st6;
                  (v6_ok, st8) = ensure_ipv6_disabled sys BRIDGE_NAME st7
              in (True, st8\<lparr>h_filter_ok := (input_ok \<and> l2_ok \<and> v6_ok)\<rparr>)))"

subsection \<open>Taps\<close>

definition ensure_tap :: "'w sys \<Rightarrow> string \<Rightarrow> 'w host \<Rightarrow> bool \<times> 'w host" where
  "ensure_tap sys tap st
     = (let st1 = run_ignored sys [''ip'', ''tuntap'', ''add'', ''dev'', tap, ''mode'', ''tap''] st;
            st2 = run_ignored sys [''ip'', ''link'', ''set'', tap, ''master'', BRIDGE_NAME] st1;
            st3 = snd (ensure_ipv6_disabled sys tap st2)
        in run sys [''ip'', ''link'', ''set'', tap, ''up''] st3)"

definition delete_tap :: "'w sys \<Rightarrow> string \<Rightarrow> 'w host \<Rightarrow> 'w host" where
  "delete_tap sys tap st = run_ignored sys [''ip'', ''link'', ''del'', tap] st"

definition ensure_tap_antispoof ::
    "'w sys \<Rightarrow> string \<Rightarrow> string \<Rightarrow> GuestMac \<Rightarrow> 'w host \<Rightarrow> bool \<times> 'w host" where
  "ensure_tap_antispoof sys tap guest_ip guest_mac st
     = (case antispoof_ruleset tap guest_ip guest_mac of
          None \<Rightarrow> (False, st)
        | Some ruleset \<Rightarrow> run_nft_file sys ruleset st)"

definition clear_tap_antispoof :: "'w sys \<Rightarrow> string \<Rightarrow> 'w host \<Rightarrow> 'w host" where
  "clear_tap_antispoof sys tap st
     = (if \<not> valid_ifname tap then st
        else run_ignored sys [''nft'', ''delete'', ''chain'', ''netdev'', ''felucca'', antispoof_chain tap] st)"

subsection \<open>Isolation and ingress\<close>

definition ensure_bridge_netfilter :: "'w sys \<Rightarrow> 'w host \<Rightarrow> bool \<times> 'w host" where
  "ensure_bridge_netfilter sys st
     = (let st1 = run_ignored sys [''modprobe'', ''br_netfilter''] st
        in set_sysctl_verified sys ''net.bridge.bridge-nf-call-iptables''
             ''/proc/sys/net/bridge/bridge-nf-call-iptables'' st1)"

definition flush_guest_conntrack :: "'w sys \<Rightarrow> 'w host \<Rightarrow> 'w host" where
  "flush_guest_conntrack sys st
     = (case h_guest_cidr st of
          None \<Rightarrow> st
        | Some cidr \<Rightarrow> run_ignored sys [''conntrack'', ''-D'', ''-s'', cidr, ''-d'', cidr] st)"

definition netfilter_ready :: "'w host \<Rightarrow> bool" where
  "netfilter_ready st = (h_filter_ok st \<and> h_isolation_ok st)"

definition rebuild_isolation ::
    "'w sys \<Rightarrow> (string list \<Rightarrow> string list) \<Rightarrow> (string \<times> string) list \<Rightarrow> 'w host \<Rightarrow> bool \<times> 'w host" where
  "rebuild_isolation sys visit members st
     = (let (br_ok, st1) = ensure_bridge_netfilter sys st;
            (applied, st2) = run_nft_file sys (isolation_ruleset visit members) st1;
            st3 = (if applied then flush_guest_conntrack sys st2 else st2);
            ok = (br_ok \<and> applied)
        in (ok, st3\<lparr>h_isolation_ok := ok\<rparr>))"

definition ingress_rule_args :: "string \<Rightarrow> string \<Rightarrow> string list" where
  "ingress_rule_args dport target
     = [''nft'', ''add'', ''rule'', ''ip'', ''felucca'', ''ingress'', ''tcp'', ''dport'', dport, ''dnat'', ''to'', target]"

definition rebuild_ingress :: "'w sys \<Rightarrow> (u16 \<times> string \<times> u16) list \<Rightarrow> 'w host \<Rightarrow> 'w host" where
  "rebuild_ingress sys members st
     = (let st1 = run_ignored sys [''nft'', ''add'', ''table'', ''ip'', ''felucca''] st;
            st2 = run_ignored sys [''nft'', ''add'', ''chain'', ''ip'', ''felucca'', ''ingress'',
                     ''{ type nat hook prerouting priority -100 ; }''] st1;
            st3 = run_ignored sys [''nft'', ''flush'', ''chain'', ''ip'', ''felucca'', ''ingress''] st2
        in fold (\<lambda>(node_port, guest_ip, guest_port) st.
              case ingress_rule_parts node_port guest_ip guest_port of
                Some (dport, target) \<Rightarrow> run_ignored sys (ingress_rule_args dport target) st
              | None \<Rightarrow> st) members st3)"

subsection \<open>What the operations leave alone\<close>

named_theorems net_frame \<open>the module state across operations\<close>

lemma run_once_frame [net_frame]:
  "h_guest_cidr (snd (run_once sys argv b st)) = h_guest_cidr st"
  "h_isolation_ok (snd (run_once sys argv b st)) = h_isolation_ok st"
  "h_filter_ok (snd (run_once sys argv b st)) = h_filter_ok st"
  "h_agent_port (snd (run_once sys argv b st)) = h_agent_port st"
  by (simp_all add: run_once_def case_prod_beta Let_def)

lemma run_frame [net_frame]:
  "h_guest_cidr (snd (run sys argv st)) = h_guest_cidr st"
  "h_isolation_ok (snd (run sys argv st)) = h_isolation_ok st"
  "h_filter_ok (snd (run sys argv st)) = h_filter_ok st"
  "h_agent_port (snd (run sys argv st)) = h_agent_port st"
  by (simp_all add: run_def net_frame case_prod_beta split: bool.splits)

lemma run_ignored_frame [net_frame]:
  "h_guest_cidr (run_ignored sys argv st) = h_guest_cidr st"
  "h_isolation_ok (run_ignored sys argv st) = h_isolation_ok st"
  "h_filter_ok (run_ignored sys argv st) = h_filter_ok st"
  "h_agent_port (run_ignored sys argv st) = h_agent_port st"
  by (simp_all add: run_ignored_def net_frame)

lemma run_nft_file_once_frame [net_frame]:
  "h_guest_cidr (snd (run_nft_file_once sys r b st)) = h_guest_cidr st"
  "h_isolation_ok (snd (run_nft_file_once sys r b st)) = h_isolation_ok st"
  "h_filter_ok (snd (run_nft_file_once sys r b st)) = h_filter_ok st"
  "h_agent_port (snd (run_nft_file_once sys r b st)) = h_agent_port st"
  by (simp_all add: run_nft_file_once_def case_prod_beta Let_def)

lemma run_nft_file_frame [net_frame]:
  "h_guest_cidr (snd (run_nft_file sys r st)) = h_guest_cidr st"
  "h_isolation_ok (snd (run_nft_file sys r st)) = h_isolation_ok st"
  "h_filter_ok (snd (run_nft_file sys r st)) = h_filter_ok st"
  "h_agent_port (snd (run_nft_file sys r st)) = h_agent_port st"
  by (simp_all add: run_nft_file_def net_frame case_prod_beta split: bool.splits)

lemma set_sysctl_verified_frame [net_frame]:
  "h_guest_cidr (snd (set_sysctl_verified sys k p st)) = h_guest_cidr st"
  "h_isolation_ok (snd (set_sysctl_verified sys k p st)) = h_isolation_ok st"
  "h_filter_ok (snd (set_sysctl_verified sys k p st)) = h_filter_ok st"
  "h_agent_port (snd (set_sysctl_verified sys k p st)) = h_agent_port st"
  by (simp_all add: set_sysctl_verified_def Let_def net_frame)

lemma ensure_bridge_netfilter_frame [net_frame]:
  "h_isolation_ok (snd (ensure_bridge_netfilter sys st)) = h_isolation_ok st"
  "h_filter_ok (snd (ensure_bridge_netfilter sys st)) = h_filter_ok st"
  "h_guest_cidr (snd (ensure_bridge_netfilter sys st)) = h_guest_cidr st"
  by (simp_all add: ensure_bridge_netfilter_def Let_def net_frame)

lemma flush_guest_conntrack_frame [net_frame]:
  "h_filter_ok (flush_guest_conntrack sys st) = h_filter_ok st"
  by (simp add: flush_guest_conntrack_def net_frame split: option.splits)

lemma ensure_nat_frame [net_frame]:
  "h_agent_port (ensure_nat sys c st) = h_agent_port st"
  by (simp add: ensure_nat_def Let_def net_frame)

lemma enable_forwarding_frame [net_frame]:
  "h_agent_port (enable_forwarding sys st) = h_agent_port st"
  by (simp add: enable_forwarding_def net_frame case_prod_beta split: bool.splits)

subsection \<open>Transactions that were accepted\<close>

text \<open>
  To say which rulesets the kernel accepted in a run, the operating system is wrapped so
  that its world also records every accepted ruleset.
\<close>

definition traced :: "'w sys \<Rightarrow> ('w \<times> string list) sys" where
  "traced sys
     = \<lparr>sys_cmd = (\<lambda>argv (w, acc). let (ok, w') = sys_cmd sys argv w in (ok, (w', acc))),
        sys_nft = (\<lambda>argv text (w, acc). let (r, w') = sys_nft sys argv text w
                     in (r, (w', if r = NftExit True then acc @ [text] else acc))),
        sys_read = (\<lambda>path (w, acc). sys_read sys path w),
        sys_exists = (\<lambda>path (w, acc). sys_exists sys path w)\<rparr>"

definition accepted :: "('w \<times> string list) host \<Rightarrow> string set" where
  "accepted st = set (snd (h_world st))"

lemma accepted_update [simp]:
  "accepted (st\<lparr>h_guest_cidr := c\<rparr>) = accepted st" "accepted (st\<lparr>h_isolation_ok := b\<rparr>) = accepted st"
  "accepted (st\<lparr>h_filter_ok := b\<rparr>) = accepted st"
  by (simp_all add: accepted_def)

named_theorems accepted_same \<open>operations that do not commit a ruleset\<close>

lemma run_once_accepted [accepted_same]: "accepted (snd (run_once (traced sys) argv b st)) = accepted st"
  by (simp add: run_once_def traced_def accepted_def case_prod_beta Let_def)

lemma run_accepted [accepted_same]: "accepted (snd (run (traced sys) argv st)) = accepted st"
  using run_once_accepted [of sys argv False st] run_once_accepted [of sys argv True]
  by (simp add: run_def case_prod_beta split: bool.splits)

lemma run_ignored_accepted [accepted_same]: "accepted (run_ignored (traced sys) argv st) = accepted st"
  by (simp add: run_ignored_def accepted_same)

lemma set_sysctl_verified_accepted [accepted_same]:
  "accepted (snd (set_sysctl_verified (traced sys) k p st)) = accepted st"
  by (simp add: set_sysctl_verified_def Let_def accepted_same)

lemma ensure_ipv6_disabled_accepted [accepted_same]:
  "accepted (snd (ensure_ipv6_disabled (traced sys) i st)) = accepted st"
  by (simp add: ensure_ipv6_disabled_def accepted_same)

lemma ensure_bridge_netfilter_accepted [accepted_same]:
  "accepted (snd (ensure_bridge_netfilter (traced sys) st)) = accepted st"
  by (simp add: ensure_bridge_netfilter_def Let_def accepted_same)

lemma flush_guest_conntrack_accepted [accepted_same]:
  "accepted (flush_guest_conntrack (traced sys) st) = accepted st"
  by (simp add: flush_guest_conntrack_def accepted_same split: option.splits)

lemma run_nft_file_accepted:
  "accepted (snd (run_nft_file (traced sys) text st))
     = (if fst (run_nft_file (traced sys) text st) then insert text (accepted st) else accepted st)"
proof -
  have once: "accepted (snd (run_nft_file_once (traced sys) text b st))
      = (if fst (run_nft_file_once (traced sys) text b st) then insert text (accepted st) else accepted st)"
    for b st
    by (auto simp: run_nft_file_once_def traced_def accepted_def case_prod_beta Let_def
        split: nft_outcome.splits)
  show ?thesis
    using once [of False st] once [of True "snd (run_nft_file_once (traced sys) text False st)"]
    by (auto simp: run_nft_file_def case_prod_beta split: bool.splits)
qed

lemma ensure_nat_accepted [accepted_same]: "accepted (ensure_nat (traced sys) c st) = accepted st"
  by (simp add: ensure_nat_def Let_def accepted_same)

lemma enable_forwarding_accepted [accepted_same]:
  "accepted (enable_forwarding (traced sys) st) = accepted st"
  by (simp add: enable_forwarding_def accepted_same case_prod_beta split: bool.splits)

lemma set_sysctl_verified_sound:
  "set_sysctl_verified sys k p st = (r, st') \<Longrightarrow> r = sysctl_confirmed sys p st'"
  by (auto simp: set_sysctl_verified_def Let_def split: if_splits)

lemma rebuild_isolation_spec:
  assumes "rebuild_isolation (traced sys) visit members st = (ok, st')"
  shows "h_isolation_ok st' = ok \<and> h_filter_ok st' = h_filter_ok st \<and> accepted st \<subseteq> accepted st'
         \<and> (ok \<longrightarrow> isolation_ruleset visit members \<in> accepted st'
              \<and> fst (ensure_bridge_netfilter (traced sys) st))"
proof -
  let ?s1 = "snd (ensure_bridge_netfilter (traced sys) st)"
  let ?n = "run_nft_file (traced sys) (isolation_ruleset visit members) ?s1"
  have ok: "ok = (fst (ensure_bridge_netfilter (traced sys) st) \<and> fst ?n)"
    and st': "st' = (if fst ?n then flush_guest_conntrack (traced sys) (snd ?n) else snd ?n)
                      \<lparr>h_isolation_ok := ok\<rparr>"
    using assms by (auto simp: rebuild_isolation_def case_prod_beta Let_def)
  have "accepted st' = (if fst ?n then insert (isolation_ruleset visit members) (accepted st)
                        else accepted st)"
    by (simp add: st' accepted_same run_nft_file_accepted)
  then show ?thesis
    using ok by (auto simp: st' net_frame)
qed

lemma ensure_bridge_spec:
  assumes "ensure_bridge (traced sys) cidr st = (b, st')"
  shows "\<not> b \<longrightarrow> h_filter_ok st' = h_filter_ok st"
    and "b \<and> h_filter_ok st' \<longrightarrow>
           bridge_l2_ruleset \<in> accepted st'
           \<and> guest_input_ruleset (if h_agent_port st = 0 then None else Some (ucast (h_agent_port st)))
               \<in> accepted st'
           \<and> (\<exists>st1. fst (ensure_ipv6_disabled (traced sys) BRIDGE_NAME st1)
                   \<and> h_world (snd (ensure_ipv6_disabled (traced sys) BRIDGE_NAME st1)) = h_world st')"
  using assms
  by (auto simp: ensure_bridge_def ensure_guest_input_filter_def ensure_bridge_l2_filter_def
      case_prod_beta Let_def net_frame accepted_same run_nft_file_accepted split: bool.splits if_splits)

subsection \<open>Properties\<close>

text \<open>
  A sysctl write is reported by what can be read back: whatever \<open>sysctl\<close>, \<open>sudo\<close> and \<open>sh\<close>
  return, the result is true exactly when, in the state the function leaves behind, the file
  under \<open>/proc\<close> can be read and holds 1.
\<close>

theorem sysctl_result_is_readback:
  assumes "set_sysctl_verified sys key path st = (r, st')"
  shows "r = (case sys_read sys path (h_world st') of Some s \<Rightarrow> trim s = ''1'' | None \<Rightarrow> False)"
  using set_sysctl_verified_sound [OF assms] by (simp add: sysctl_confirmed_def)

text \<open>A kernel where the plain \<open>sysctl -w\<close> exits with 0 and writes nothing, and \<open>sudo\<close> writes.\<close>

text \<open>
  C9. Readiness is honest.  When the flags say ready after bringing up the bridge and
  rebuilding isolation, the kernel accepted, in this run, the guest input fence for the
  recorded agent port, the bridge L2 fence and the isolation ruleset of the given members,
  and both the IPv6 switch of the bridge and \<open>br_netfilter\<close> were confirmed.
\<close>

theorem ready_means_fenced:
  assumes "\<not> h_filter_ok st"
    and "ensure_bridge (traced sys) cidr st = (b, st1)"
    and "rebuild_isolation (traced sys) visit members st1 = (ok, st2)"
    and "netfilter_ready st2"
  shows "ok \<and> b
         \<and> {guest_input_ruleset (if h_agent_port st = 0 then None else Some (ucast (h_agent_port st))),
            bridge_l2_ruleset, isolation_ruleset visit members} \<subseteq> accepted st2
         \<and> fst (ensure_bridge_netfilter (traced sys) st1)
         \<and> (\<exists>st0. fst (ensure_ipv6_disabled (traced sys) BRIDGE_NAME st0)
                 \<and> h_world (snd (ensure_ipv6_disabled (traced sys) BRIDGE_NAME st0)) = h_world st1)"
proof -
  note r = rebuild_isolation_spec [OF assms(3)]
  have ok: "ok" "h_filter_ok st1"
    using r assms(4) by (auto simp: netfilter_ready_def)
  then have "b" using ensure_bridge_spec(1) [OF assms(2)] assms(1) by auto
  with ok ensure_bridge_spec(2) [OF assms(2)] r show ?thesis by auto
qed

theorem ready_means_fenced_witness:
  "\<exists>(sys :: unit sys) cidr st b st1 ok st2.
     ensure_bridge (traced sys) cidr st = (b, st1)
     \<and> rebuild_isolation (traced sys) id [(''acme'', ''10.231.0.2'')] st1 = (ok, st2)
     \<and> netfilter_ready st2 \<and> ok \<and> b \<and> bridge_l2_ruleset \<in> accepted st2
     \<and> guest_input_ruleset (Some 7070) \<in> accepted st2"
proof -
  let ?sys = "\<lparr>sys_cmd = (\<lambda>_ w. (True, w)), sys_nft = (\<lambda>_ _ w. (NftExit True, w)),
      sys_read = (\<lambda>_ _. Some ''1''), sys_exists = (\<lambda>_ _. False)\<rparr> :: unit sys"
  let ?cidr = "\<lparr>cidr_base = 0x0AE70000, cidr_prefix = 24\<rparr>"
  let ?st = "\<lparr>h_world = ((), []), h_guest_cidr = None, h_isolation_ok = False, h_filter_ok = False,
      h_agent_port = 7070\<rparr>"
  obtain b st1 where e: "ensure_bridge (traced ?sys) ?cidr ?st = (b, st1)" by fastforce
  obtain ok st2 where r: "rebuild_isolation (traced ?sys) id [(''acme'', ''10.231.0.2'')] st1 = (ok, st2)"
    by fastforce
  have t: "trim ''1'' = ''1''"
    by (simp add: trim_alnum ascii_defs)
  have v: "valid_ifname BRIDGE_NAME"
    by (simp add: valid_ifname_def BRIDGE_NAME_def ident_char_def ascii_defs)
  have "h_filter_ok st1"
    using e v by (auto simp: ensure_bridge_def ensure_guest_input_filter_def ensure_bridge_l2_filter_def
        ensure_ipv6_disabled_def run_nft_file_def run_nft_file_once_def run_def run_once_def
        run_ignored_def enable_forwarding_def ensure_nat_def traced_def Let_def)
  moreover have "h_isolation_ok st2"
    using r t by (auto simp: rebuild_isolation_def ensure_bridge_netfilter_def set_sysctl_verified_def
        sysctl_confirmed_def run_nft_file_def run_nft_file_once_def run_ignored_def run_def run_once_def
        traced_def Let_def case_prod_beta)
  ultimately have n: "netfilter_ready st2"
    using rebuild_isolation_spec [OF r] by (simp add: netfilter_ready_def)
  have f: "\<not> h_filter_ok ?st" by simp
  have g: "ok" "b" "bridge_l2_ruleset \<in> accepted st2" "guest_input_ruleset (Some 7070) \<in> accepted st2"
    using ready_means_fenced [OF f e r n] by simp_all
  show ?thesis
    by (rule exI [of _ ?sys], rule exI [of _ ?cidr], rule exI [of _ ?st], rule exI [of _ b],
        rule exI [of _ st1], rule exI [of _ ok], rule exI [of _ st2]) (use e r n g in simp)
qed

end
