(* ===== verification/Json_Text.thy ===== *)
theory Json_Text
  imports Felucca_Prelude
begin

text \<open>
  JSON text.  Several functions of the agent build JSON by hand with \<open>format!\<close>; to say that what
  they build is the JSON they mean, this theory has the compact printer of a JSON value and
  a reader for the JSON grammar (strings, integers, arrays, objects and literals, without
  insignificant white space), and the lemma that the reader gives back what was printed.
\<close>

subsection \<open>String literals\<close>

text \<open>
  The escaping that \<open>vm/meta.rs\<close> and \<open>fc.rs\<close> share: quotation mark, backslash, the three
  short control escapes, \<open>\u00xx\<close> for the other control characters, and everything else as it is.
\<close>

definition json_escape_char :: "char \<Rightarrow> string" where
  "json_escape_char c
     = (if c = CHR 0x22 then [CHR 0x5C, CHR 0x22]
        else if c = CHR 0x5C then [CHR 0x5C, CHR 0x5C]
        else if c = CHR 0x0A then [CHR 0x5C, CHR ''n'']
        else if c = CHR 0x0D then [CHR 0x5C, CHR ''r'']
        else if c = CHR 0x09 then [CHR 0x5C, CHR ''t'']
        else if byte c < 0x20 then [CHR 0x5C, CHR ''u'', CHR ''0'', CHR ''0''] @ hex2 (byte c)
        else [c])"

definition json_str :: "string \<Rightarrow> string" where
  "json_str s = [CHR 0x22] @ concat (map json_escape_char s) @ [CHR 0x22]"

definition show_int :: "int \<Rightarrow> string" where
  "show_int i = (if i < 0 then CHR ''-'' # show_nat (nat (- i)) else show_nat (nat i))"

definition show_bool :: "bool \<Rightarrow> string" where
  "show_bool b = (if b then ''true'' else ''false'')"

subsection \<open>Printer\<close>

fun print_json :: "json \<Rightarrow> string" and print_elems :: "json list \<Rightarrow> string"
  and print_fields :: "(string \<times> json) list \<Rightarrow> string" where
  "print_json JNull = ''null''"
| "print_json (JBool b) = show_bool b"
| "print_json (JNum i) = show_int i"
| "print_json (JStr s) = json_str s"
| "print_json (JArr vs) = ''['' @ print_elems vs @ '']''"
| "print_json (JObj kvs) = ''{'' @ print_fields kvs @ ''}''"
| "print_elems [] = []"
| "print_elems [v] = print_json v"
| "print_elems (v # w # vs) = print_json v @ '','' @ print_elems (w # vs)"
| "print_fields [] = []"
| "print_fields [(k, v)] = json_str k @ '':'' @ print_json v"
| "print_fields ((k, v) # kv # kvs) = json_str k @ '':'' @ print_json v @ '','' @ print_fields (kv # kvs)"

subsection \<open>Reader\<close>

definition hex_val :: "char \<Rightarrow> nat option" where
  "hex_val c
     = (if is_ascii_digit c then Some (byte c - 48)
        else if 97 \<le> byte c \<and> byte c \<le> 102 then Some (byte c - 87)
        else if 65 \<le> byte c \<and> byte c \<le> 70 then Some (byte c - 55)
        else None)"

definition unescape :: "char \<Rightarrow> char option" where
  "unescape e
     = (if e = CHR 0x22 \<or> e = CHR 0x5C \<or> e = CHR ''/'' then Some e
        else if e = CHR ''n'' then Some (CHR 0x0A)
        else if e = CHR ''r'' then Some (CHR 0x0D)
        else if e = CHR ''t'' then Some (CHR 0x09)
        else if e = CHR ''b'' then Some (CHR 0x08)
        else if e = CHR ''f'' then Some (CHR 0x0C)
        else None)"

text \<open>
  An escape after its backslash, with the rest of the text; \<open>\u\<close> escapes above U+007F are
  not read.
\<close>

definition read_escape :: "string \<Rightarrow> (char \<times> string) option" where
  "read_escape cs
     = (case cs of
          [] \<Rightarrow> None
        | e # cs1 \<Rightarrow>
          (case unescape e of
             Some d \<Rightarrow> Some (d, cs1)
           | None \<Rightarrow>
             if e = CHR ''u'' \<and> 4 \<le> length cs1 \<and> take 2 cs1 = ''00'' then
               (case (hex_val (cs1 ! 2), hex_val (cs1 ! 3)) of
                  (Some hx, Some hy) \<Rightarrow>
                    if hx < 8 then Some (char_of (16 * hx + hy), drop 4 cs1) else None
                | _ \<Rightarrow> None)
             else None))"

lemma read_escape_length: "read_escape cs = Some (d, r) \<Longrightarrow> length r < length cs"
  by (auto simp: read_escape_def split: list.splits option.splits if_splits)

text \<open>The rest of a literal after the opening quote.\<close>

function read_str :: "string \<Rightarrow> (string \<times> string) option" where
  "read_str [] = None"
| "read_str (c # cs)
     = (if c = CHR 0x22 then Some ([], cs)
        else if c = CHR 0x5C then
          (case read_escape cs of
             Some (d, r) \<Rightarrow> map_option (\<lambda>(s, r). (d # s, r)) (read_str r)
           | None \<Rightarrow> None)
        else if byte c < 0x20 then None
        else map_option (\<lambda>(s, r). (c # s, r)) (read_str cs))"
  by pat_completeness auto
termination
  by (relation "measure length") (auto dest: read_escape_length)

definition read_digits :: "string \<Rightarrow> (nat \<times> string) option" where
  "read_digits s
     = (let ds = takeWhile is_ascii_digit s
        in if ds = [] then None
           else map_option (\<lambda>n. (n, dropWhile is_ascii_digit s)) (parse_digits 0 ds))"

fun read_json :: "nat \<Rightarrow> string \<Rightarrow> (json \<times> string) option"
  and read_elems :: "nat \<Rightarrow> string \<Rightarrow> (json list \<times> string) option"
  and read_fields :: "nat \<Rightarrow> string \<Rightarrow> ((string \<times> json) list \<times> string) option" where
  "read_json 0 s = None"
| "read_json (Suc n) s
     = (case s of
          [] \<Rightarrow> None
        | c # cs \<Rightarrow>
          if c = CHR 0x22 then map_option (\<lambda>(t, r). (JStr t, r)) (read_str cs)
          else if c = CHR ''['' then
            (if cs \<noteq> [] \<and> hd cs = CHR '']'' then Some (JArr [], tl cs)
             else map_option (\<lambda>(vs, r). (JArr vs, r)) (read_elems n cs))
          else if c = CHR ''{'' then
            (if cs \<noteq> [] \<and> hd cs = CHR ''}'' then Some (JObj [], tl cs)
             else map_option (\<lambda>(kvs, r). (JObj kvs, r)) (read_fields n cs))
          else if c = CHR ''-'' then map_option (\<lambda>(k, r). (JNum (- int k), r)) (read_digits cs)
          else if is_ascii_digit c then map_option (\<lambda>(k, r). (JNum (int k), r)) (read_digits s)
          else
            (case (strip_prefix ''null'' s, strip_prefix ''true'' s, strip_prefix ''false'' s) of
               (Some r, _, _) \<Rightarrow> Some (JNull, r)
             | (None, Some r, _) \<Rightarrow> Some (JBool True, r)
             | (None, None, Some r) \<Rightarrow> Some (JBool False, r)
             | (None, None, None) \<Rightarrow> None))"
| "read_elems 0 s = None"
| "read_elems (Suc n) s
     = (case read_json n s of
          Some (v, d # r) \<Rightarrow>
            if d = CHR '','' then map_option (\<lambda>(vs, r'). (v # vs, r')) (read_elems n r)
            else if d = CHR '']'' then Some ([v], r) else None
        | _ \<Rightarrow> None)"
| "read_fields 0 s = None"
| "read_fields (Suc n) s
     = (case s of
          q # cs \<Rightarrow>
            if q \<noteq> CHR 0x22 then None
            else
              (case read_str cs of
                 Some (k, d # cs1) \<Rightarrow>
                   if d \<noteq> CHR '':'' then None
                   else
                     (case read_json n cs1 of
                        Some (v, e # r) \<Rightarrow>
                          if e = CHR '','' then map_option (\<lambda>(kvs, r'). ((k, v) # kvs, r')) (read_fields n r)
                          else if e = CHR ''}'' then Some ([(k, v)], r) else None
                      | _ \<Rightarrow> None)
               | _ \<Rightarrow> None)
        | [] \<Rightarrow> None)"

text \<open>A whole document: the fuel bounds the nesting and the number of elements.\<close>

definition parse_json :: "string \<Rightarrow> json option" where
  "parse_json s = (case read_json (Suc (length s)) s of Some (v, []) \<Rightarrow> Some v | _ \<Rightarrow> None)"

subsection \<open>Reading back string literals\<close>

lemma hex_val_digit [simp]: "n < 16 \<Longrightarrow> hex_val (hex_digit n) = Some n"
  by (auto simp: hex_val_def hex_digit_def is_ascii_digit_def)

lemma read_str_escape_char:
  "read_str (json_escape_char c @ r) = map_option (\<lambda>(s, r). (c # s, r)) (read_str r)"
proof -
  consider "c = CHR 0x22" | "c = CHR 0x5C" | "c = CHR 0x0A" | "c = CHR 0x0D" | "c = CHR 0x09"
    | "c \<notin> {CHR 0x22, CHR 0x5C, CHR 0x0A, CHR 0x0D, CHR 0x09}" "byte c < 0x20"
    | "c \<notin> {CHR 0x22, CHR 0x5C, CHR 0x0A, CHR 0x0D, CHR 0x09}" "\<not> byte c < 0x20"
    by blast
  then show ?thesis
  proof cases
    case 6
    then have "16 * (byte c div 16) + byte c mod 16 = byte c" "byte c div 16 < 8" by auto
    then show ?thesis
      using 6 by (simp add: json_escape_char_def hex2_def read_escape_def unescape_def)
  qed (simp_all add: json_escape_char_def read_escape_def unescape_def)
qed

lemma read_str_json_str: "read_str (concat (map json_escape_char s) @ CHR 0x22 # r) = Some (s, r)"
  by (induction s) (simp_all add: read_str_escape_char)

lemma json_str_Cons: "json_str s @ r = CHR 0x22 # concat (map json_escape_char s) @ CHR 0x22 # r"
  by (simp add: json_str_def)

subsection \<open>Reading back values\<close>

definition num_end :: "string \<Rightarrow> bool" where
  "num_end r = (r = [] \<or> \<not> is_ascii_digit (hd r))"

lemma takeWhile_digits: "list_all is_ascii_digit ds \<Longrightarrow> num_end r \<Longrightarrow>
    takeWhile is_ascii_digit (ds @ r) = ds \<and> dropWhile is_ascii_digit (ds @ r) = r"
  by (induction ds) (cases r, auto simp: num_end_def)+

lemma read_digits_show: "num_end r \<Longrightarrow> read_digits (show_nat n @ r) = Some (n, r)"
  using takeWhile_digits [OF show_nat_digits, of r n] by (simp add: read_digits_def)

fun fuel :: "json \<Rightarrow> nat" and fuel_elems :: "json list \<Rightarrow> nat"
  and fuel_fields :: "(string \<times> json) list \<Rightarrow> nat" where
  "fuel (JArr vs) = Suc (fuel_elems vs)"
| "fuel (JObj kvs) = Suc (fuel_fields kvs)"
| "fuel _ = 1"
| "fuel_elems [] = 0"
| "fuel_elems (v # vs) = Suc (fuel v + fuel_elems vs)"
| "fuel_fields [] = 0"
| "fuel_fields ((k, v) # kvs) = Suc (fuel v + fuel_fields kvs)"

lemma print_json_hd:
  "\<exists>c cs. print_json v = c # cs \<and> c \<noteq> CHR '']'' \<and> c \<noteq> CHR ''}''"
proof (cases v)
  case (JNum i)
  obtain n where n: "print_json v = show_nat n \<or> print_json v = CHR ''-'' # show_nat n"
    using JNum by (cases "i < 0") (auto simp: show_int_def)
  obtain c cs where c: "show_nat n = c # cs" using show_nat_not_Nil by (meson list.exhaust)
  have "is_ascii_digit c" using c show_nat_mem [of c n] by simp
  then have "c \<noteq> CHR '']'' \<and> c \<noteq> CHR ''}''" by (auto simp: is_ascii_digit_def)
  with n c show ?thesis by auto
qed (auto simp: json_str_def show_bool_def)

lemma show_nat_hd_digit: "\<exists>c cs. show_nat n = c # cs \<and> is_ascii_digit c"
  using show_nat_not_Nil show_nat_mem by (metis list.exhaust list.set_intros(1))

lemma read_json_num:
  assumes "num_end r"
  shows "read_json (Suc n) (show_int i @ r) = Some (JNum i, r)"
proof (cases "i < 0")
  case True
  then show ?thesis
    using read_digits_show [OF assms, of "nat (- i)"] by (simp add: show_int_def)
next
  case False
  obtain c cs where c: "show_nat (nat i) = c # cs" "is_ascii_digit c"
    using show_nat_hd_digit by blast
  have "c \<notin> {CHR 0x22, CHR ''['', CHR ''{'', CHR ''-''}"
    using c(2) by (auto simp: is_ascii_digit_def)
  then show ?thesis
    using read_digits_show [OF assms, of "nat i"] False c by (simp add: show_int_def)
qed

lemma num_end_simps [simp]:
  "num_end []" "num_end (CHR '','' # r)" "num_end (CHR '']'' # r)" "num_end (CHR ''}'' # r)"
  by (simp_all add: num_end_def is_ascii_digit_def)

lemma read_print:
  "fuel v \<le> n \<Longrightarrow> num_end r \<Longrightarrow> read_json n (print_json v @ r) = Some (v, r)"
  "vs \<noteq> [] \<Longrightarrow> fuel_elems vs \<le> n \<Longrightarrow> read_elems n (print_elems vs @ CHR '']'' # r) = Some (vs, r)"
  "kvs \<noteq> [] \<Longrightarrow> fuel_fields kvs \<le> n \<Longrightarrow> read_fields n (print_fields kvs @ CHR ''}'' # r) = Some (kvs, r)"
proof (induction v and vs and kvs arbitrary: n r and n r and n r rule: print_json_print_elems_print_fields.induct)
  case 1
  then show ?case by (cases n) (simp_all add: is_ascii_digit_def)
next
  case (2 b)
  then show ?case by (cases n) (simp_all add: show_bool_def is_ascii_digit_def)
next
  case (3 i)
  then show ?case by (cases n) (simp_all add: read_json_num del: read_json.simps(2))
next
  case (4 s)
  then show ?case by (cases n) (simp_all add: json_str_Cons read_str_json_str)
next
  case (5 vs)
  then obtain m where n: "n = Suc m" "fuel_elems vs \<le> m" by (cases n) auto
  show ?case
  proof (cases vs)
    case Nil
    then show ?thesis by (simp add: n)
  next
    case (Cons w ws)
    obtain c cs where "print_elems vs = c # cs" "c \<noteq> CHR '']''"
      using Cons print_json_hd [of w] by (cases ws) auto
    then show ?thesis
      using 5 n Cons by (auto split: list.splits)
  qed
next
  case (6 kvs)
  then obtain m where n: "n = Suc m" "fuel_fields kvs \<le> m" by (cases n) auto
  show ?case
  proof (cases kvs)
    case Nil
    then show ?thesis by (simp add: n)
  next
    case (Cons kw ws)
    obtain c cs where "print_fields kvs = c # cs" "c \<noteq> CHR ''}''"
      using Cons by (cases kw; cases ws) (auto simp: json_str_def)
    then show ?thesis
      using 6 n Cons by (auto split: list.splits)
  qed
next
  case (8 v)
  then obtain m where "n = Suc m" "fuel v \<le> m" by (cases n) auto
  then show ?case using 8 by simp
next
  case (9 v w vs)
  then obtain m where "n = Suc m" "fuel v \<le> m" "fuel_elems (w # vs) \<le> m" by (cases n) auto
  then show ?case using 9 by simp
next
  case (11 k v)
  then obtain m where "n = Suc m" "fuel v \<le> m" by (cases n) auto
  then show ?case using 11 by (simp add: json_str_Cons read_str_json_str)
next
  case (12 k v kv kvs)
  then obtain m where "n = Suc m" "fuel v \<le> m" "fuel_fields (kv # kvs) \<le> m" by (cases n) auto
  then show ?case using 12 by (simp add: json_str_Cons read_str_json_str)
qed simp_all

lemma fuel_le_length:
  "fuel v \<le> length (print_json v)"
  "fuel_elems vs \<le> Suc (length (print_elems vs))"
  "fuel_fields kvs \<le> length (print_fields kvs)"
proof (induction v and vs and kvs rule: print_json_print_elems_print_fields.induct)
  case (2 b)
  then show ?case by (simp add: show_bool_def)
next
  case (3 i)
  have "show_nat n \<noteq> []" for n by simp
  then show ?case by (auto simp: show_int_def Suc_le_eq simp del: show_nat_not_Nil)
qed (auto simp: json_str_def)

lemma parse_print_json: "parse_json (print_json v) = Some v"
  using read_print(1) [of v "Suc (length (print_json v))" "[]"] fuel_le_length(1) [of v]
  by (simp add: parse_json_def)

end
