(* ===== verification/Vm_Meta.thy ===== *)
theory Vm_Meta
  imports Json_Text Ipalloc
begin

text \<open>
  The persisted metadata of an instance (\<open>agent/src/vm/meta.rs\<close>): states, port mappings, the
  \<open>Meta\<close> record, its hand-written JSON text, and the decoding that the \<open>serde\<close> attributes of
  the declaration describe.
\<close>

subsection \<open>States\<close>

datatype VmState = Creating | Running | Paused | Stopped | Sleeping | Errored | Pooled

definition as_str :: "VmState \<Rightarrow> string" where
  "as_str s = (case s of
       Creating \<Rightarrow> ''creating'' | Running \<Rightarrow> ''running'' | Paused \<Rightarrow> ''paused''
     | Stopped \<Rightarrow> ''stopped'' | Sleeping \<Rightarrow> ''sleeping'' | Errored \<Rightarrow> ''error'' | Pooled \<Rightarrow> ''pooled'')"

definition state_from_str :: "string \<Rightarrow> VmState" where
  "state_from_str s
     = (if s = ''creating'' then Creating
        else if s = ''running'' then Running
        else if s = ''paused'' then Paused
        else if s = ''stopped'' then Stopped
        else if s = ''sleeping'' then Sleeping
        else if s = ''error'' then Errored
        else if s = ''pooled'' then Pooled
        else Stopped)"

subsection \<open>The record\<close>

record ExposeEntry =
  guest_port :: u16
  node_port :: u16

text \<open>A process id is an \<open>i32\<close>, kept as an integer.\<close>

record Meta =
  m_id :: string
  m_name :: string
  m_dir_id :: string
  m_vcpus :: u32
  m_mem_mib :: u64
  m_pid :: "int option"
  m_slot :: "u32 option"
  m_ip :: "string option"
  m_state :: VmState
  m_vsock :: bool
  m_tenant_id :: "string option"
  m_exposes :: "ExposeEntry list"
  m_image :: "string option"
  m_disk_gb :: "u32 option"
  m_image_sha256 :: "string option"

subsection \<open>Text\<close>

text \<open>A field \<open>"key":\<close> in front of its value, and an opening and closing brace.\<close>

definition jkey :: "string \<Rightarrow> string" where
  "jkey k = [CHR 0x22] @ k @ [CHR 0x22, CHR '':'']"

definition expose_text :: "ExposeEntry \<Rightarrow> string" where
  "expose_text e = ''{'' @ jkey ''guest_port'' @ show_nat (unat (guest_port e)) @ '',''
                   @ jkey ''node_port'' @ show_nat (unat (node_port e)) @ ''}''"

definition to_json :: "Meta \<Rightarrow> string" where
  "to_json m
     = (let pid_str = (case m_pid m of Some p \<Rightarrow> show_int p | None \<Rightarrow> ''null'');
            slot_str = (case m_slot m of Some s \<Rightarrow> show_nat (unat s) | None \<Rightarrow> ''null'');
            ip_str = (case m_ip m of Some ip \<Rightarrow> [CHR 0x22] @ ip @ [CHR 0x22] | None \<Rightarrow> ''null'');
            tenant_suffix = (case m_tenant_id m of
               Some t \<Rightarrow> '','' @ jkey ''tenant_id'' @ json_str t | None \<Rightarrow> []);
            exposes_suffix = (if m_exposes m = [] then []
               else '','' @ jkey ''exposes'' @ ''['' @ join_with '','' (map expose_text (m_exposes m)) @ '']'');
            image_suffix = (case m_image m of
               Some im \<Rightarrow> '','' @ jkey ''image'' @ json_str im | None \<Rightarrow> []);
            disk_suffix = (case m_disk_gb m of
               Some d \<Rightarrow> '','' @ jkey ''disk_gb'' @ show_nat (unat d) | None \<Rightarrow> []);
            sha_suffix = (case m_image_sha256 m of
               Some s \<Rightarrow> '','' @ jkey ''image_sha256'' @ json_str s | None \<Rightarrow> [])
        in ''{'' @ jkey ''id'' @ json_str (m_id m) @ '','' @ jkey ''name'' @ json_str (m_name m)
           @ '','' @ jkey ''dir_id'' @ json_str (m_dir_id m)
           @ '','' @ jkey ''vcpus'' @ show_nat (unat (m_vcpus m))
           @ '','' @ jkey ''mem_mib'' @ show_nat (unat (m_mem_mib m))
           @ '','' @ jkey ''pid'' @ pid_str @ '','' @ jkey ''slot'' @ slot_str
           @ '','' @ jkey ''ip'' @ ip_str @ '','' @ jkey ''state'' @ json_str (as_str (m_state m))
           @ '','' @ jkey ''vsock'' @ show_bool (m_vsock m)
           @ tenant_suffix @ exposes_suffix @ image_suffix @ disk_suffix @ sha_suffix @ ''}'')"

subsection \<open>Decoding\<close>

text \<open>
  The derived \<open>Deserialize\<close>: a missing optional field is \<open>None\<close>, \<open>vsock\<close> and \<open>exposes\<close> have
  defaults, the other fields are required, and unknown keys are ignored.
\<close>

definition jfield :: "(string \<times> json) list \<Rightarrow> string \<Rightarrow> json option" where
  "jfield kvs k = map_of kvs k"

text \<open>The derived decoder refuses a known key that occurs twice.\<close>

definition fields_once :: "string list \<Rightarrow> (string \<times> json) list \<Rightarrow> bool" where
  "fields_once ks kvs = distinct (filter (\<lambda>k. k \<in> set ks) (map fst kvs))"

definition de_str :: "json \<Rightarrow> string option" where
  "de_str v = (case v of JStr s \<Rightarrow> Some s | _ \<Rightarrow> None)"

definition de_uint :: "nat \<Rightarrow> json \<Rightarrow> nat option" where
  "de_uint bits v = (case v of JNum i \<Rightarrow> if 0 \<le> i \<and> i < 2 ^ bits then Some (nat i) else None | _ \<Rightarrow> None)"

definition de_i32 :: "json \<Rightarrow> int option" where
  "de_i32 v = (case v of JNum i \<Rightarrow> if - (2 ^ 31) \<le> i \<and> i < 2 ^ 31 then Some i else None | _ \<Rightarrow> None)"

definition de_bool :: "json \<Rightarrow> bool option" where
  "de_bool v = (case v of JBool b \<Rightarrow> Some b | _ \<Rightarrow> None)"

definition de_state :: "json \<Rightarrow> VmState option" where
  "de_state v
     = (case v of
          JStr s \<Rightarrow> if s \<in> set (map as_str [Creating, Running, Paused, Stopped, Sleeping, Errored, Pooled])
                    then Some (state_from_str s) else None
        | _ \<Rightarrow> None)"

text \<open>An \<open>Option\<close> field: missing or null is \<open>None\<close>; \<open>None\<close> of the result is a decoding error.\<close>

definition de_opt :: "(json \<Rightarrow> 'a option) \<Rightarrow> json option \<Rightarrow> 'a option option" where
  "de_opt f v = (case v of None \<Rightarrow> Some None | Some JNull \<Rightarrow> Some None
                 | Some x \<Rightarrow> (case f x of Some a \<Rightarrow> Some (Some a) | None \<Rightarrow> None))"

definition de_default :: "'a \<Rightarrow> (json \<Rightarrow> 'a option) \<Rightarrow> json option \<Rightarrow> 'a option" where
  "de_default d f v = (case v of None \<Rightarrow> Some d | Some x \<Rightarrow> f x)"

definition de_req :: "(json \<Rightarrow> 'a option) \<Rightarrow> json option \<Rightarrow> 'a option" where
  "de_req f v = (case v of None \<Rightarrow> None | Some x \<Rightarrow> f x)"

definition META_KEYS :: "string list" where
  "META_KEYS = [''id'', ''name'', ''dir_id'', ''vcpus'', ''mem_mib'', ''pid'', ''slot'', ''ip'', ''state'', ''vsock'',
                ''tenant_id'', ''exposes'', ''image'', ''disk_gb'', ''image_sha256'']"

definition de_expose :: "json \<Rightarrow> ExposeEntry option" where
  "de_expose v
     = (case v of
          JObj kvs \<Rightarrow>
            if \<not> fields_once [''guest_port'', ''node_port''] kvs then None
            else (case (de_req (de_uint 16) (jfield kvs ''guest_port''), de_req (de_uint 16) (jfield kvs ''node_port'')) of
               (Some g, Some n) \<Rightarrow> Some \<lparr>guest_port = word_of_nat g, node_port = word_of_nat n\<rparr>
             | _ \<Rightarrow> None)
        | _ \<Rightarrow> None)"

definition de_exposes :: "json \<Rightarrow> ExposeEntry list option" where
  "de_exposes v = (case v of JArr vs \<Rightarrow> those (map de_expose vs) | _ \<Rightarrow> None)"

definition de_meta :: "json \<Rightarrow> Meta option" where
  "de_meta v
     = (case v of
          JObj kvs \<Rightarrow>
            if \<not> fields_once META_KEYS kvs then None
            else
            (case (de_req de_str (jfield kvs ''id''), de_req de_str (jfield kvs ''name''),
                   de_req de_str (jfield kvs ''dir_id'')) of
               (Some i, Some n, Some d) \<Rightarrow>
            (case (de_req (de_uint 32) (jfield kvs ''vcpus''), de_req (de_uint 64) (jfield kvs ''mem_mib''),
                   de_opt de_i32 (jfield kvs ''pid''), de_opt (de_uint 32) (jfield kvs ''slot'')) of
               (Some c, Some mm, Some p, Some sl) \<Rightarrow>
            (case (de_opt de_str (jfield kvs ''ip''), de_req de_state (jfield kvs ''state''),
                   de_default False de_bool (jfield kvs ''vsock''), de_opt de_str (jfield kvs ''tenant_id'')) of
               (Some ip, Some st, Some vs, Some t) \<Rightarrow>
            (case (de_default [] de_exposes (jfield kvs ''exposes''), de_opt de_str (jfield kvs ''image''),
                   de_opt (de_uint 32) (jfield kvs ''disk_gb''), de_opt de_str (jfield kvs ''image_sha256'')) of
               (Some ex, Some im, Some dg, Some sha) \<Rightarrow>
                 Some \<lparr>m_id = i, m_name = n, m_dir_id = d, m_vcpus = word_of_nat c, m_mem_mib = word_of_nat mm,
                       m_pid = p, m_slot = map_option word_of_nat sl, m_ip = ip, m_state = st, m_vsock = vs,
                       m_tenant_id = t, m_exposes = ex, m_image = im,
                       m_disk_gb = map_option word_of_nat dg, m_image_sha256 = sha\<rparr>
             | _ \<Rightarrow> None) | _ \<Rightarrow> None) | _ \<Rightarrow> None) | _ \<Rightarrow> None)
        | _ \<Rightarrow> None)"

subsection \<open>The text is the JSON it means\<close>

definition opt_field :: "string \<Rightarrow> ('a \<Rightarrow> json) \<Rightarrow> 'a option \<Rightarrow> (string \<times> json) list" where
  "opt_field k f v = (case v of Some a \<Rightarrow> [(k, f a)] | None \<Rightarrow> [])"

definition opt_json :: "('a \<Rightarrow> json) \<Rightarrow> 'a option \<Rightarrow> json" where
  "opt_json f v = (case v of Some a \<Rightarrow> f a | None \<Rightarrow> JNull)"

abbreviation jword :: "'a::len word \<Rightarrow> json" where
  "jword w \<equiv> JNum (uint w)"

definition expose_json :: "ExposeEntry \<Rightarrow> json" where
  "expose_json e = JObj [(''guest_port'', jword (guest_port e)), (''node_port'', jword (node_port e))]"

definition meta_json :: "Meta \<Rightarrow> json" where
  "meta_json m
     = JObj ([(''id'', JStr (m_id m)), (''name'', JStr (m_name m)), (''dir_id'', JStr (m_dir_id m)),
              (''vcpus'', jword (m_vcpus m)), (''mem_mib'', jword (m_mem_mib m)),
              (''pid'', opt_json JNum (m_pid m)), (''slot'', opt_json jword (m_slot m)),
              (''ip'', opt_json JStr (m_ip m)), (''state'', JStr (as_str (m_state m))),
              (''vsock'', JBool (m_vsock m))]
             @ opt_field ''tenant_id'' JStr (m_tenant_id m)
             @ (if m_exposes m = [] then [] else [(''exposes'', JArr (map expose_json (m_exposes m)))])
             @ opt_field ''image'' JStr (m_image m)
             @ opt_field ''disk_gb'' jword (m_disk_gb m)
             @ opt_field ''image_sha256'' JStr (m_image_sha256 m))"

text \<open>A string that is printed without escapes, which the address field needs.\<close>

definition plain_json :: "string \<Rightarrow> bool" where
  "plain_json s = list_all (\<lambda>c. c \<noteq> CHR 0x22 \<and> c \<noteq> CHR 0x5C \<and> 0x20 \<le> byte c) s"

lemma show_int_uint [simp]: "show_int (uint w) = show_nat (unat w)"
  by (simp add: show_int_def)

lemma json_str_plain: "plain_json s \<Longrightarrow> json_str s = [CHR 0x22] @ s @ [CHR 0x22]"
proof -
  assume "plain_json s"
  then have "concat (map json_escape_char s) = s"
    by (induction s) (auto simp: plain_json_def json_escape_char_def)
  then show ?thesis by (simp add: json_str_def)
qed

lemma jkey_plain: "plain_json k \<Longrightarrow> jkey k = json_str k @ '':''"
  by (simp add: jkey_def json_str_plain)

lemma print_elems_map: "print_elems (map f xs) = join_with '','' (map (\<lambda>x. print_json (f x)) xs)"
  by (induction xs rule: induct_list012) simp_all

lemma print_fields_append:
  "xs \<noteq> [] \<Longrightarrow> print_fields (xs @ ys)
     = print_fields xs @ concat (map (\<lambda>(k, v). '','' @ json_str k @ '':'' @ print_json v) ys)"
proof (induction xs rule: induct_list012)
  case (2 x)
  obtain k v where x: "x = (k, v)" by (cases x)
  show ?case
    unfolding x by (induction ys arbitrary: k v rule: induct_list012) (auto split: prod.splits)
next
  case (3 x y zs)
  then show ?case by (cases x) simp
qed simp

lemma expose_text_eq: "expose_text e = print_json (expose_json e)"
  by (simp add: expose_text_def expose_json_def jkey_plain plain_json_def)

lemma as_str_plain: "plain_json (as_str s)"
  by (cases s) (simp_all add: as_str_def plain_json_def)

lemma to_json_eq:
  assumes "\<And>ip. m_ip m = Some ip \<Longrightarrow> plain_json ip"
  shows "to_json m = print_json (meta_json m)"
proof -
  have j: "map expose_text (m_exposes m) = map (\<lambda>x. print_json (expose_json x)) (m_exposes m)"
    by (simp add: expose_text_eq)
  have ip: "(case m_ip m of Some ip \<Rightarrow> [CHR 0x22] @ ip @ [CHR 0x22] | None \<Rightarrow> ''null'')
      = print_json (opt_json JStr (m_ip m))"
    using assms json_str_plain by (cases "m_ip m") (auto simp: opt_json_def)
  have pid: "(case m_pid m of Some p \<Rightarrow> show_int p | None \<Rightarrow> ''null'') = print_json (opt_json JNum (m_pid m))"
    by (cases "m_pid m") (auto simp: opt_json_def)
  have slot: "(case m_slot m of Some p \<Rightarrow> show_nat (unat p) | None \<Rightarrow> ''null'')
      = print_json (opt_json jword (m_slot m))"
    by (cases "m_slot m") (auto simp: opt_json_def)
  show ?thesis
    unfolding to_json_def Let_def ip pid slot j meta_json_def print_json.simps
    by (simp add: print_fields_append jkey_plain plain_json_def opt_field_def print_elems_map
        del: append.simps split: option.splits) 
qed

subsection \<open>Decoding gives the record back\<close>

lemma state_from_as_str [simp]: "state_from_str (as_str s) = s"
  by (cases s) (simp_all add: as_str_def state_from_str_def)

lemma de_state_as_str [simp]: "de_state (JStr (as_str s)) = Some s"
  by (cases s) (simp_all add: de_state_def as_str_def state_from_str_def)

lemma uint_less: "uint (w :: 'a::len word) < 2 ^ LENGTH('a)"
  by (rule unsigned_less)

lemma de_uint_jword:
  "LENGTH('a::len) = bits \<Longrightarrow> de_uint bits (jword (w :: 'a word)) = Some (unat w)"
  using uint_less [of w] by (auto simp: de_uint_def)

lemma de_uint_jwords [simp]:
  "de_uint 16 (jword (w16 :: u16)) = Some (unat w16)"
  "de_uint 32 (jword (w32 :: u32)) = Some (unat w32)"
  "de_uint 64 (jword (w64 :: u64)) = Some (unat w64)"
  by (rule de_uint_jword; simp)+

lemma de_expose_json [simp]: "de_expose (expose_json e) = Some e"
  by (simp add: fields_once_def de_expose_def expose_json_def jfield_def de_req_def)

lemma de_exposes_json [simp]: "de_exposes (JArr (map expose_json es)) = Some es"
  by (induction es) (simp_all add: de_exposes_def)

lemma jfield_opt_field:
  "jfield (opt_field k f v @ rest) k' = (if k = k' \<and> v \<noteq> None then Some (f (the v)) else jfield rest k')"
  "jfield (opt_field k f v) k' = (if k = k' \<and> v \<noteq> None then Some (f (the v)) else None)"
  by (auto simp: opt_field_def jfield_def split: option.splits)

lemma jfield_Cons: "jfield ((k, v) # rest) k' = (if k = k' then Some v else jfield rest k')"
  by (simp add: jfield_def)

lemma jfield_if: "jfield ((if b then [] else kvs) @ rest) k = (if b then jfield rest k else jfield (kvs @ rest) k)"
  by simp

lemma de_opt_present:
  assumes "f x = Some a" "x \<noteq> JNull"
  shows "de_opt f (Some x) = Some (Some a)"
  using assms by (cases x) (auto simp: de_opt_def)

lemma de_opt_opt_json:
  assumes "\<And>a. f (g a) = Some (h a)" "\<And>a. g a \<noteq> JNull"
  shows "de_opt f (Some (opt_json g v)) = Some (map_option h v)"
proof (cases v)
  case (Some a)
  then show ?thesis using de_opt_present [of f "g a" "h a"] assms by (simp add: opt_json_def)
qed (simp add: de_opt_def opt_json_def)

lemma de_meta_json:
  assumes "\<And>p. m_pid m = Some p \<Longrightarrow> - (2 ^ 31) \<le> p \<and> p < 2 ^ 31"
  shows "de_meta (meta_json m) = Some m"
proof -
  have i32: "de_i32 (JNum p) = Some p" if "m_pid m = Some p" for p
    using assms [OF that] by (simp add: de_i32_def)
  have pid: "de_opt de_i32 (Some (opt_json JNum (m_pid m))) = Some (m_pid m)"
    using i32 by (cases "m_pid m") (auto simp: opt_json_def de_opt_def)
  have slot: "de_opt (de_uint 32) (Some (opt_json jword (m_slot m))) = Some (map_option unat (m_slot m))"
    by (rule de_opt_opt_json) simp_all
  have str: "de_opt de_str (Some (opt_json JStr v)) = Some v" for v
    using de_opt_opt_json [of de_str JStr id v] by (simp add: de_str_def option.map_id)
  have strs: "de_opt de_str (if v \<noteq> None then Some (JStr (the v)) else None) = Some v" for v
    by (cases v) (simp_all add: de_opt_def de_str_def)
  have disk: "de_opt (de_uint 32) (if v \<noteq> None then Some (jword (the v)) else None)
      = Some (map_option unat v)" for v :: "u32 option"
    by (cases v) (simp_all add: de_opt_def)
  have ex: "de_default [] de_exposes (if m_exposes m = [] then None
      else Some (JArr (map expose_json (m_exposes m)))) = Some (m_exposes m)"
    by (simp add: de_default_def)
  have words: "map_option word_of_nat (map_option unat v) = v" for v :: "u32 option"
    by (cases v) simp_all
  obtain kvs where kvs: "meta_json m = JObj kvs" by (simp add: meta_json_def)
  have f: "jfield kvs ''id'' = Some (JStr (m_id m))" "jfield kvs ''name'' = Some (JStr (m_name m))"
    "jfield kvs ''dir_id'' = Some (JStr (m_dir_id m))" "jfield kvs ''vcpus'' = Some (jword (m_vcpus m))"
    "jfield kvs ''mem_mib'' = Some (jword (m_mem_mib m))" "jfield kvs ''pid'' = Some (opt_json JNum (m_pid m))"
    "jfield kvs ''slot'' = Some (opt_json jword (m_slot m))" "jfield kvs ''ip'' = Some (opt_json JStr (m_ip m))"
    "jfield kvs ''state'' = Some (JStr (as_str (m_state m)))" "jfield kvs ''vsock'' = Some (JBool (m_vsock m))"
    "jfield kvs ''tenant_id'' = (if m_tenant_id m \<noteq> None then Some (JStr (the (m_tenant_id m))) else None)"
    "jfield kvs ''image'' = (if m_image m \<noteq> None then Some (JStr (the (m_image m))) else None)"
    "jfield kvs ''disk_gb'' = (if m_disk_gb m \<noteq> None then Some (jword (the (m_disk_gb m))) else None)"
    "jfield kvs ''image_sha256''
       = (if m_image_sha256 m \<noteq> None then Some (JStr (the (m_image_sha256 m))) else None)"
    "jfield kvs ''exposes''
       = (if m_exposes m = [] then None else Some (JArr (map expose_json (m_exposes m))))"
    using kvs by (auto simp: meta_json_def jfield_Cons jfield_opt_field)
  have once: "fields_once META_KEYS kvs"
    using kvs
    by (auto simp: meta_json_def fields_once_def META_KEYS_def opt_field_def split: option.splits if_splits)
  then have "\<not> \<not> fields_once META_KEYS kvs" by simp
  note if_once = if_not_P [OF this]
  show ?thesis
    unfolding kvs de_meta_def json.case if_once f pid slot str strs disk ex
    by (simp add: de_req_def de_str_def de_default_def de_bool_def words)
qed

subsection \<open>Properties\<close>

text \<open>
  C24. What the agent writes to \<open>meta.json\<close> it reads back: the hand-built text is JSON, and
  decoding it as the declaration of \<open>Meta\<close> describes gives the record that was written,
  for every content of the identifier, name, tenant and image strings, provided the process
  id is a 32 bit number and the address needs no escaping.
\<close>

theorem meta_json_round_trip:
  assumes "\<And>p. m_pid m = Some p \<Longrightarrow> - (2 ^ 31) \<le> p \<and> p < 2 ^ 31"
    and "\<And>ip. m_ip m = Some ip \<Longrightarrow> plain_json ip"
  shows "Option.bind (parse_json (to_json m)) de_meta = Some m"
  using to_json_eq [OF assms(2)] de_meta_json [OF assms(1)] by (simp add: parse_print_json)

theorem meta_json_round_trip_witness:
  "let m = \<lparr>m_id = ''vm-1'', m_name = [CHR ''a'', CHR 0x22, CHR 0x5C, CHR 0x01], m_dir_id = ''pool-9f'',
            m_vcpus = 2, m_mem_mib = 512, m_pid = Some 4711, m_slot = Some 3, m_ip = Some ''10.231.0.5'',
            m_state = Running, m_vsock = True, m_tenant_id = Some ''acme'',
            m_exposes = [\<lparr>guest_port = 80, node_port = 20000\<rparr>], m_image = None, m_disk_gb = Some 8,
            m_image_sha256 = None\<rparr>
   in Option.bind (parse_json (to_json m)) de_meta = Some m"
  unfolding Let_def by (rule meta_json_round_trip) (auto simp: plain_json_def)

end
