(* ===== verification/Os.thy ===== *)
theory Os
  imports Net Utf8 Json_Text
begin

text \<open>
  The operating system as the agent uses it outside \<open>net.rs\<close>: files, processes, signals, the
  clock, unix sockets, and the \<open>serde_json\<close> and debug formatting that the sources call.  Each
  is a function of a record over an abstract world; an error is the text the error displays.
  The early return of the \<open>?\<close> operator is \<open>attempt\<close>, and \<open>logged\<close> is the same system with a
  record of what was asked of it, which the properties on effects and their order speak of.
\<close>

subsection \<open>Early return\<close>

type_synonym ('s, 'a) step = "'s \<Rightarrow> (string + 'a) \<times> 's"

definition attempt :: "('e + 'a) \<times> 's \<Rightarrow> ('a \<Rightarrow> 's \<Rightarrow> ('e + 'b) \<times> 's) \<Rightarrow> ('e + 'b) \<times> 's" where
  "attempt r k = (case r of (Inl e, s) \<Rightarrow> (Inl e, s) | (Inr x, s) \<Rightarrow> k x s)"

definition map_err :: "('e \<Rightarrow> 'f) \<Rightarrow> ('e + 'a) \<times> 's \<Rightarrow> ('f + 'a) \<times> 's" where
  "map_err f r = (case r of (Inl e, s) \<Rightarrow> (Inl (f e), s) | (Inr x, s) \<Rightarrow> (Inr x, s))"

definition ok_or :: "'e \<Rightarrow> 'a option \<Rightarrow> 'e + 'a" where
  "ok_or e x = (case x of Some v \<Rightarrow> Inr v | None \<Rightarrow> Inl e)"

lemma attempt_simps [simp]:
  "attempt (Inl e, s) k = (Inl e, s)"
  "attempt (Inr x, s) k = k x s"
  by (simp_all add: attempt_def)

lemma map_err_simps [simp]:
  "map_err f (Inl e, s) = (Inl (f e), s)"
  "map_err f (Inr x, s) = (Inr x, s)"
  "snd (map_err f r) = snd r"
  by (auto simp: map_err_def split: prod.splits sum.splits)

lemma ok_or_simps [simp]:
  "ok_or e (Some v) = Inr v" "ok_or e None = Inl e"
  "ok_or e x = Inr v \<longleftrightarrow> x = Some v"
  by (auto simp: ok_or_def split: option.splits)

lemma attempt_Inr: "attempt r k = (Inr y, s') \<longleftrightarrow> (\<exists>x s. r = (Inr x, s) \<and> k x s = (Inr y, s'))"
  by (auto simp: attempt_def split: prod.splits sum.splits)

lemma map_err_Inr [simp]: "map_err f r = (Inr x, s) \<longleftrightarrow> r = (Inr x, s)"
  by (auto simp: map_err_def split: prod.splits sum.splits)

text \<open>What holds before a fallible step and after each part holds after the whole.\<close>

lemma attempt_pres:
  "P (snd r) \<Longrightarrow> (\<And>x. r = (Inr x, snd r) \<Longrightarrow> P (snd r) \<Longrightarrow> P (snd (k x (snd r)))) \<Longrightarrow> P (snd (attempt r k))"
  by (auto simp: attempt_def split: prod.splits sum.splits)

lemma attemptE:
  assumes "attempt r k = (y, s')"
  obtains (err) e where "r = (Inl e, s')" "y = Inl e" | (ok) x s where "r = (Inr x, s)" "k x s = (y, s')"
  using assms by (cases r) (auto simp: attempt_def split: sum.splits)

lemma attempt_errE:
  assumes "attempt (map_err f r) k = (y, s')"
  obtains (err) e where "r = (Inl e, s')" "y = Inl (f e)" | (ok) x s where "r = (Inr x, s)" "k x s = (y, s')"
  using assms by (cases r) (auto simp: attempt_def map_err_def split: sum.splits)

subsection \<open>The system\<close>

text \<open>How running a command with piped input to its end went.\<close>

datatype proc_result =
    NoSpawn string
  | NoInput string
  | NoWait string
  | Exited "int option" string string string

text \<open>The exit code if any, the status as displayed, and the two outputs.\<close>

definition success :: "proc_result \<Rightarrow> bool" where
  "success r = (case r of Exited (Some c) _ _ _ \<Rightarrow> c = 0 | _ \<Rightarrow> False)"

datatype errno = ESRCH | Errno string

definition errno_text :: "errno \<Rightarrow> string" where
  "errno_text e = (case e of ESRCH \<Rightarrow> ''ESRCH: No such process'' | Errno t \<Rightarrow> t)"

text \<open>An exchange over HTTP: which stage failed, or the status and the body.\<close>

datatype http_result =
    BuildFailed string
  | SendFailed string
  | BodyFailed string
  | HttpReply u16 string

text \<open>A read from a stream under a deadline.\<close>

datatype recv_result = Chunk string | RecvFailed string | Elapsed

record dirent =
  de_name :: string
  de_dir :: "bool option"
  de_modified :: "nat option"

record 'w os =
  os_net :: "'w sys"
  os_read :: "string \<Rightarrow> 'w \<Rightarrow> string option"
  os_there :: "string \<Rightarrow> 'w \<Rightarrow> bool"
  os_len :: "string \<Rightarrow> 'w \<Rightarrow> string + u64"
  os_read_dir :: "string \<Rightarrow> 'w \<Rightarrow> dirent option list option"
  os_now :: "'w \<Rightarrow> nat"
  os_systime :: "'w \<Rightarrow> nat"
  os_write :: "string \<Rightarrow> string \<Rightarrow> ('w, unit) step"
  os_rename :: "string \<Rightarrow> string \<Rightarrow> ('w, unit) step"
  os_unlink :: "string \<Rightarrow> ('w, unit) step"
  os_mkdir_all :: "string \<Rightarrow> nat \<Rightarrow> ('w, unit) step"
  os_chmod :: "string \<Rightarrow> nat \<Rightarrow> ('w, unit) step"
  os_rmtree :: "string \<Rightarrow> ('w, unit) step"
  os_open :: "string \<Rightarrow> bool \<Rightarrow> nat \<Rightarrow> ('w, unit) step"
  os_set_len :: "string \<Rightarrow> u64 \<Rightarrow> ('w, unit) step"
  os_copy :: "string \<Rightarrow> string \<Rightarrow> ('w, unit) step"
  os_exec :: "string list \<Rightarrow> string \<Rightarrow> 'w \<Rightarrow> proc_result \<times> 'w"
  os_spawn :: "string list \<Rightarrow> string \<Rightarrow> ('w, u32 option) step"
  os_kill :: "int \<Rightarrow> nat \<Rightarrow> 'w \<Rightarrow> errno option \<times> 'w"
  os_waitpid :: "int \<Rightarrow> 'w \<Rightarrow> 'w"
  os_sleep :: "nat \<Rightarrow> 'w \<Rightarrow> 'w"
  os_http :: "string \<Rightarrow> string \<Rightarrow> string \<Rightarrow> string \<Rightarrow> 'w \<Rightarrow> http_result \<times> 'w"
  os_connect :: "string \<Rightarrow> 'w \<Rightarrow> (string + nat) option \<times> 'w"
  os_send :: "nat \<Rightarrow> string \<Rightarrow> 'w \<Rightarrow> (string + unit) option \<times> 'w"
  os_recv :: "nat \<Rightarrow> nat \<Rightarrow> 'w \<Rightarrow> recv_result \<times> 'w"
  os_json :: "string \<Rightarrow> string + json"
  os_show_json :: "json \<Rightarrow> string"
  os_debug :: "string \<Rightarrow> string"
  os_visit :: "string list \<Rightarrow> string list"

text \<open>
  \<open>os_open path truncate mode\<close> opens for writing (with \<open>truncate\<close> it also creates with the
  mode); \<open>os_kill pid 0\<close> probes; \<open>os_http sock method path body\<close> is one request over a unix
  socket; \<open>os_connect\<close> and \<open>os_send\<close> give \<open>None\<close> when the deadline around them passes.  The
  clock \<open>os_now\<close> and the wall clock \<open>os_systime\<close> count milliseconds; \<open>os_visit\<close> is the order in
  which a hash map yields its keys.
\<close>

definition read_to_string :: "'w os \<Rightarrow> string \<Rightarrow> 'w \<Rightarrow> string option" where
  "read_to_string os path w
     = (case os_read os path w of Some b \<Rightarrow> (if valid_utf8 b then Some b else None) | None \<Rightarrow> None)"

definition SIGKILL :: nat where "SIGKILL = 9"

definition SIGTERM :: nat where "SIGTERM = 15"

subsection \<open>A record of the effects\<close>

datatype event =
    EvCmd "string list" bool
  | EvNft string bool
  | EvWrite string string
  | EvRename string string
  | EvUnlink string
  | EvMkdir string nat
  | EvChmod string nat
  | EvRmtree string
  | EvOpen string bool nat
  | EvSetLen string u64
  | EvCopy string string
  | EvExec "string list"
  | EvSpawn "string list" string
  | EvKill int nat
  | EvHttp string string string string
  | EvConnect string

definition log_step :: "('a \<Rightarrow> event) \<Rightarrow> ('w \<Rightarrow> 'a \<times> 'w) \<Rightarrow> 'w \<times> event list \<Rightarrow> 'a \<times> 'w \<times> event list" where
  "log_step ev f = (\<lambda>(w, l). let (r, w') = f w in (r, w', l @ [ev r]))"

definition silent_step :: "('w \<Rightarrow> 'a \<times> 'w) \<Rightarrow> 'w \<times> event list \<Rightarrow> 'a \<times> 'w \<times> event list" where
  "silent_step f = (\<lambda>(w, l). let (r, w') = f w in (r, w', l))"

definition logged_sys :: "'w sys \<Rightarrow> ('w \<times> event list) sys" where
  "logged_sys sys
     = \<lparr>sys_cmd = (\<lambda>argv. log_step (EvCmd argv) (sys_cmd sys argv)),
        sys_nft = (\<lambda>argv text. log_step (\<lambda>r. EvNft text (r = NftExit True)) (sys_nft sys argv text)),
        sys_read = (\<lambda>path (w, l). sys_read sys path w),
        sys_exists = (\<lambda>path (w, l). sys_exists sys path w)\<rparr>"

definition logged :: "'w os \<Rightarrow> ('w \<times> event list) os" where
  "logged os
     = \<lparr>os_net = logged_sys (os_net os),
        os_read = (\<lambda>p (w, l). os_read os p w),
        os_there = (\<lambda>p (w, l). os_there os p w),
        os_len = (\<lambda>p (w, l). os_len os p w),
        os_read_dir = (\<lambda>p (w, l). os_read_dir os p w),
        os_now = (\<lambda>(w, l). os_now os w),
        os_systime = (\<lambda>(w, l). os_systime os w),
        os_write = (\<lambda>p c. log_step (\<lambda>_. EvWrite p c) (os_write os p c)),
        os_rename = (\<lambda>p q. log_step (\<lambda>_. EvRename p q) (os_rename os p q)),
        os_unlink = (\<lambda>p. log_step (\<lambda>_. EvUnlink p) (os_unlink os p)),
        os_mkdir_all = (\<lambda>p m. log_step (\<lambda>_. EvMkdir p m) (os_mkdir_all os p m)),
        os_chmod = (\<lambda>p m. log_step (\<lambda>_. EvChmod p m) (os_chmod os p m)),
        os_rmtree = (\<lambda>p. log_step (\<lambda>_. EvRmtree p) (os_rmtree os p)),
        os_open = (\<lambda>p t m. log_step (\<lambda>_. EvOpen p t m) (os_open os p t m)),
        os_set_len = (\<lambda>p n. log_step (\<lambda>_. EvSetLen p n) (os_set_len os p n)),
        os_copy = (\<lambda>p q. log_step (\<lambda>_. EvCopy p q) (os_copy os p q)),
        os_exec = (\<lambda>argv inp. log_step (\<lambda>_. EvExec argv) (os_exec os argv inp)),
        os_spawn = (\<lambda>argv out. log_step (\<lambda>_. EvSpawn argv out) (os_spawn os argv out)),
        os_kill = (\<lambda>pid sig. log_step (\<lambda>_. EvKill pid sig) (os_kill os pid sig)),
        os_waitpid = (\<lambda>pid (w, l). (os_waitpid os pid w, l)),
        os_sleep = (\<lambda>n (w, l). (os_sleep os n w, l)),
        os_http = (\<lambda>s m p b. log_step (\<lambda>_. EvHttp s m p b) (os_http os s m p b)),
        os_connect = (\<lambda>p. log_step (\<lambda>_. EvConnect p) (os_connect os p)),
        os_send = (\<lambda>h b. silent_step (os_send os h b)),
        os_recv = (\<lambda>h n. silent_step (os_recv os h n)),
        os_json = os_json os,
        os_show_json = os_show_json os,
        os_debug = os_debug os,
        os_visit = os_visit os\<rparr>"

end
