(* ===== verification/Vm_Image.thy ===== *)
theory Vm_Image
  imports Os Rust_Str
begin

text \<open>
  Template images: \<open>agent/src/vm/image.rs\<close> (names, digests, the pull-or-use decision, the
  sidecar, the size computation and the \<open>curl\<close> download) and the image functions of the
  manager in \<open>agent/src/vm/mod.rs\<close> that touch only files: \<open>ensure_image\<close>, \<open>pull_image\<close> and
  \<open>grow_rootfs\<close>.  The per-image lock of \<open>ensure_image\<close> is not modelled: a call runs alone.
\<close>

subsection \<open>Names and digests\<close>

definition valid_image_name :: "string \<Rightarrow> bool" where
  "valid_image_name name
     = (if name = [] \<or> 64 < length name then False
        else if hd name = CHR ''.'' \<or> hd name = CHR ''-'' then False
        else if contains_str ''..'' name then False
        else list_all (\<lambda>b. is_ascii_lowercase b \<or> is_ascii_digit b \<or> b = CHR ''.'' \<or> b = CHR ''_''
                           \<or> b = CHR ''-'') name)"

definition valid_sha256 :: "string \<Rightarrow> bool" where
  "valid_sha256 s
     = (length s = 64 \<and> list_all (\<lambda>b. is_ascii_digit b \<or> (97 \<le> byte b \<and> byte b \<le> 102)) s)"

text \<open>
  \<open>to_lowercase\<close> of a word that is not ASCII is not a digest, whatever it is, so lower-casing
  the ASCII letters decides the same.
\<close>

definition sha256_of :: "'w os \<Rightarrow> string \<Rightarrow> ('w, string) step" where
  "sha256_of os path w
     = (case os_exec os [''sha256sum'', path] [] w of
          (NoSpawn e, w1) \<Rightarrow> (Inl (''sha256sum: '' @ e), w1)
        | (NoInput e, w1) \<Rightarrow> (Inl (''sha256sum: '' @ e), w1)
        | (NoWait e, w1) \<Rightarrow> (Inl (''sha256sum: '' @ e), w1)
        | (Exited c st out err, w1) \<Rightarrow>
            if \<not> success (Exited c st out err) then (Inl (''sha256sum '' @ path @ '' failed''), w1)
            else
              let digest = map ascii_lower (case first_word (from_utf8_lossy out) of Some t \<Rightarrow> t | None \<Rightarrow> [])
              in if valid_sha256 digest then (Inr digest, w1)
                 else (Inl (''sha256sum '' @ path @ '': malformed output''), w1))"

subsection \<open>Sidecar and decision\<close>

definition write_sidecar :: "'w os \<Rightarrow> string \<Rightarrow> string \<Rightarrow> ('w, unit) step" where
  "write_sidecar os path sha w
     = (let sidecar = path @ ''.sha256'';
            tmp = sidecar @ ''.tmp''
        in attempt (map_err (\<lambda>e. ''write '' @ tmp @ '': '' @ e) (os_write os tmp (sha @ [CHR 0x0A]) w)) (\<lambda>_ w.
             map_err (\<lambda>e. ''rename '' @ sidecar @ '': '' @ e) (os_rename os tmp sidecar w)))"

datatype ImageDecision = UseExisting | Pull

definition decide :: "'w os \<Rightarrow> string \<Rightarrow> string option \<Rightarrow> string \<Rightarrow> ('w, ImageDecision) step" where
  "decide os path expected_sha img w
     = (if os_there os path w then
          (case expected_sha of
             None \<Rightarrow> (Inr UseExisting, w)
           | Some want \<Rightarrow>
             (case read_to_string os (path @ ''.sha256'') w of
                Some s \<Rightarrow> (Inr (if trim s = want then UseExisting else Pull), w)
              | None \<Rightarrow>
                attempt (sha256_of os path w) (\<lambda>got w.
                  if got = want then attempt (write_sidecar os path want w) (\<lambda>_ w. (Inr UseExisting, w))
                  else (Inr Pull, w))))
        else if expected_sha \<noteq> None then (Inr Pull, w)
        else (Inl (''image '' @ img @ '' not present and no sha256 provided (base images are ''
                   @ ''provisioned by deploy/firecracker-assets.sh)''), w))"

subsection \<open>Download\<close>

text \<open>\<open>curl_config_escape\<close> is in \<open>agent/src/wg.rs\<close>.\<close>

definition curl_config_escape :: "string \<Rightarrow> string" where
  "curl_config_escape s = replace_char (CHR 0x22) [CHR 0x5C, CHR 0x22] (replace_char (CHR 0x5C) [CHR 0x5C, CHR 0x5C] s)"

definition config_line :: "string \<Rightarrow> string \<Rightarrow> string" where
  "config_line key v = key @ '' = '' @ [CHR 0x22] @ v @ [CHR 0x22, CHR 0x0A]"

definition build_download_config :: "string \<Rightarrow> string \<Rightarrow> string \<Rightarrow> string" where
  "build_download_config url token out_path
     = config_line ''url'' (curl_config_escape url)
       @ config_line ''header'' (''Authorization: Bearer '' @ curl_config_escape token)
       @ config_line ''output'' (curl_config_escape out_path)
       @ ''fail'' @ [CHR 0x0A] @ ''connect-timeout = 5'' @ [CHR 0x0A] @ ''max-time = 1800'' @ [CHR 0x0A]"

definition curl_download :: "'w os \<Rightarrow> string \<Rightarrow> string \<Rightarrow> string \<Rightarrow> ('w, unit) step" where
  "curl_download os url token out_path w
     = (case os_exec os [''curl'', ''-sS'', ''--config'', ''-''] (build_download_config url token out_path) w of
          (NoSpawn e, w1) \<Rightarrow> (Inl (''curl spawn: '' @ e), w1)
        | (NoInput e, w1) \<Rightarrow> (Inl (''curl stdin: '' @ e), w1)
        | (NoWait e, w1) \<Rightarrow> (Inl (''curl: '' @ e), w1)
        | (Exited c st out err, w1) \<Rightarrow>
            if \<not> success (Exited c st out err)
            then (Inl (''curl download failed ('' @ st @ ''): '' @ trim (from_utf8_lossy err)), w1)
            else (Inr (), w1))"

definition image_path :: "string \<Rightarrow> string \<Rightarrow> string" where
  "image_path data_dir img = data_dir @ ''/images/'' @ img @ ''.ext4''"

definition partial_path :: "string \<Rightarrow> string \<Rightarrow> string" where
  "partial_path data_dir img = data_dir @ ''/images/.'' @ img @ ''.partial''"

definition pull_image ::
    "'w os \<Rightarrow> string \<Rightarrow> string \<Rightarrow> string \<Rightarrow> string \<Rightarrow> string \<Rightarrow> string \<Rightarrow> ('w, unit) step" where
  "pull_image os data_dir control_plane token image_name want_sha path w
     = (let images_dir = data_dir @ ''/images'';
            tmp = partial_path data_dir image_name;
            url = trim_end_matches (CHR ''/'') control_plane @ ''/api/v1/images/'' @ image_name
        in attempt (os_mkdir_all os images_dir 511 w) (\<lambda>_ w.
           let w = snd (os_unlink os tmp w) in
           attempt (curl_download os url token tmp w) (\<lambda>_ w.
           attempt (sha256_of os tmp w) (\<lambda>got w.
           if got \<noteq> want_sha then
             (Inl (''image '' @ image_name @ '' sha256 mismatch: got '' @ got @ '' want '' @ want_sha),
              snd (os_unlink os tmp w))
           else
             attempt (write_sidecar os path want_sha w) (\<lambda>_ w.
             map_err (\<lambda>e. ''rename '' @ tmp @ '' -> '' @ path @ '': '' @ e) (os_rename os tmp path w))))))"

definition ensure_image ::
    "'w os \<Rightarrow> string \<Rightarrow> string \<Rightarrow> string \<Rightarrow> string \<Rightarrow> string option \<Rightarrow> ('w, unit) step" where
  "ensure_image os data_dir control_plane token image_name expected_sha w
     = (let path = image_path data_dir image_name
        in attempt (decide os path expected_sha image_name w) (\<lambda>d w.
           if d = UseExisting then (Inr (), w)
           else
             attempt (decide os path expected_sha image_name w) (\<lambda>d w.
             case d of
               UseExisting \<Rightarrow> (Inr (), w)
             | Pull \<Rightarrow>
                 attempt (ok_or ''pull without sha256 (internal)'' expected_sha, w) (\<lambda>want w.
                 pull_image os data_dir control_plane token image_name want path w))))"

subsection \<open>Growing a disk\<close>

definition resize_target :: "u64 \<Rightarrow> u64 \<Rightarrow> string + u64 option" where
  "resize_target disk_gb current_size
     = (if disk_gb = 0 then Inr None
        else let target = disk_gb * 1024 * 1024 * 1024
             in if target < current_size then Inl ''disk shrink not supported''
                else if target = current_size then Inr None
                else Inr (Some target))"

definition show_exit :: "int option \<Rightarrow> string" where
  "show_exit c = (case c of Some n \<Rightarrow> ''Some('' @ show_int n @ '')'' | None \<Rightarrow> ''None'')"

definition run_e2fsck :: "'w os \<Rightarrow> string \<Rightarrow> ('w, unit) step" where
  "run_e2fsck os path w
     = (case os_exec os [''e2fsck'', ''-fp'', path] [] w of
          (NoSpawn e, w1) \<Rightarrow> (Inl (''e2fsck spawn: '' @ e), w1)
        | (NoInput e, w1) \<Rightarrow> (Inl (''e2fsck spawn: '' @ e), w1)
        | (NoWait e, w1) \<Rightarrow> (Inl (''e2fsck spawn: '' @ e), w1)
        | (Exited c st out err, w1) \<Rightarrow>
            if c \<in> {Some 0, Some 1, Some 2} then (Inr (), w1)
            else (Inl (''e2fsck '' @ path @ '' failed (exit '' @ show_exit c @ '')''), w1))"

definition grow_rootfs :: "'w os \<Rightarrow> string \<Rightarrow> u64 \<Rightarrow> ('w, unit) step" where
  "grow_rootfs os path disk_gb w
     = attempt (map_err (\<lambda>e. ''stat '' @ path @ '': '' @ e) (os_len os path w, w)) (\<lambda>current w.
       attempt (resize_target disk_gb current, w) (\<lambda>t w.
       case t of
         None \<Rightarrow> (Inr (), w)
       | Some target \<Rightarrow>
           attempt (map_err (\<lambda>e. ''open '' @ path @ '': '' @ e) (os_open os path False 0 w)) (\<lambda>_ w.
           attempt (map_err (\<lambda>e. ''set_len '' @ path @ '': '' @ e) (os_set_len os path target w)) (\<lambda>_ w.
           attempt (run_e2fsck os path w) (\<lambda>_ w.
           let (r, w) = os_exec os [''resize2fs'', path] [] w
           in if success r then (Inr (), w) else (Inl (''resize2fs '' @ path @ '' failed''), w))))))"

subsection \<open>Text of a digest\<close>

lemma ascii_utf8: "list_all (\<lambda>c. byte c < 128) s \<Longrightarrow> valid_utf8 s"
  by (induction s) (simp_all add: valid_utf8_def utf8_head_def utf8_char_width_def)

lemma valid_sha256_chars:
  assumes "valid_sha256 d"
  shows "d \<noteq> []" "list_all is_ascii_alphanumeric d" "list_all (\<lambda>c. byte c < 128) d" "map ascii_lower d = d"
  using assms by (auto simp: valid_sha256_def list_all_iff ascii_defs ascii_lower_def intro!: map_idI)

lemma strip_newline: "List.map_filter (\<lambda>w. strip_prefix w (CHR 0x0A # r)) (map rev whitespace) = [r]"
  by (simp add: whitespace_def upt_whitespace List.map_filter_def char_of_def bit_0)

lemma trim_fuel_append:
  "s \<noteq> [] \<Longrightarrow> is_ascii_alphanumeric (hd s) \<Longrightarrow> list_all (\<lambda>w. w \<noteq> [] \<and> \<not> is_ascii_alphanumeric (hd w)) ws \<Longrightarrow>
   trim_fuel ws n (s @ t) = s @ t"
  by (cases s) (simp_all add: trim_fuel_alnum)

lemma trim_line:
  assumes "s \<noteq> []" "list_all is_ascii_alphanumeric s"
  shows "trim (s @ [CHR 0x0A]) = s"
proof -
  have hd: "is_ascii_alphanumeric (hd s)" and last: "is_ascii_alphanumeric (last s)"
    using assms by (auto simp: list_all_iff)
  have w: "list_all (\<lambda>w. w \<noteq> [] \<and> \<not> is_ascii_alphanumeric (hd w)) whitespace"
    and wr: "list_all (\<lambda>w. w \<noteq> [] \<and> \<not> is_ascii_alphanumeric (hd w)) (map rev whitespace)"
    using whitespace_bytes by (auto simp: list_all_iff hd_rev)
  have t: "trim_fuel whitespace n (s @ [CHR 0x0A]) = s @ [CHR 0x0A]" for n
    by (rule trim_fuel_append [OF assms(1) hd w])
  have r: "trim_fuel (map rev whitespace) n (rev s) = rev s" for n
    using trim_fuel_append [of "rev s" "map rev whitespace" n "[]"] assms(1) last wr by (simp add: hd_rev)
  show ?thesis unfolding trim_def Let_def t by (simp add: strip_newline r)
qed

lemma until_space_word:
  "list_all is_ascii_alphanumeric d \<Longrightarrow> until_space (d @ CHR '' '' # r) = d"
proof (induction d)
  case Nil
  show ?case by (simp add: whitespace_def starts_with_def char_of_def bit_0)
next
  case (Cons c d)
  have "\<not> starts_with w (c # d @ CHR '' '' # r)" if "w \<in> set whitespace" for w
    using whitespace_bytes that Cons.prems by (cases w) (auto simp: list_all_iff starts_with_def)
  then show ?case using Cons by (auto simp: list_ex_iff)
qed

lemma first_word_digest:
  assumes "d \<noteq> []" "list_all is_ascii_alphanumeric d"
  shows "first_word (d @ CHR '' '' # r) = Some d"
proof -
  have "list_all (\<lambda>w. w \<noteq> [] \<and> \<not> is_ascii_alphanumeric (hd w)) whitespace"
    using whitespace_bytes by (auto simp: list_all_iff)
  moreover have "is_ascii_alphanumeric (hd d)" using assms by (auto simp: list_all_iff)
  ultimately have "trim_fuel whitespace n (d @ CHR '' '' # r) = d @ CHR '' '' # r"
    for n by (intro trim_fuel_append [OF assms(1)])
  then have "trim_start (d @ CHR '' '' # r) = d @ CHR '' '' # r" unfolding trim_start_def .
  then show ?thesis
    using assms by (simp add: first_word_def until_space_word Let_def)
qed

subsection \<open>Files\<close>

text \<open>
  What the functions rely on: files are a map from paths to contents, a successful write or
  rename takes effect, a failed rename changes nothing, \<open>sha256sum\<close> prints the digest of the
  file and a space, and \<open>curl\<close> touches only its output file.  \<open>sha256sum\<close> quotes a path with a
  backslash or a newline, so the law on its output is for the other paths.
\<close>

definition plain_path :: "string \<Rightarrow> bool" where
  "plain_path p = (CHR 0x5C \<notin> set p \<and> CHR 0x0A \<notin> set p)"

definition file_system :: "'w os \<Rightarrow> ('w \<Rightarrow> string \<Rightarrow> string option) \<Rightarrow> (string \<Rightarrow> string) \<Rightarrow> bool" where
  "file_system os fs H
     = ((\<forall>p w. os_read os p w = fs w p) \<and>
        (\<forall>p w. os_there os p w = (fs w p \<noteq> None)) \<and>
        (\<forall>p c w e w' q. os_write os p c w = (Inl e, w') \<longrightarrow> q \<noteq> p \<longrightarrow> fs w' q = fs w q) \<and>
        (\<forall>p c w u w'. os_write os p c w = (Inr u, w') \<longrightarrow> fs w' = (fs w)(p \<mapsto> c)) \<and>
        (\<forall>p q w e w'. p \<noteq> q \<longrightarrow> os_rename os p q w = (Inl e, w') \<longrightarrow> fs w' = fs w) \<and>
        (\<forall>p q w u w'. p \<noteq> q \<longrightarrow> os_rename os p q w = (Inr u, w')
            \<longrightarrow> fs w p \<noteq> None \<and> fs w' = (fs w)(p := None, q := fs w p)) \<and>
        (\<forall>p w q. q \<noteq> p \<longrightarrow> fs (snd (os_unlink os p w)) q = fs w q) \<and>
        (\<forall>p m w. fs (snd (os_mkdir_all os p m w)) = fs w) \<and>
        (\<forall>p w. fs (snd (os_exec os [''sha256sum'', p] [] w)) = fs w) \<and>
        (\<forall>p w st out err. plain_path p \<longrightarrow> fst (os_exec os [''sha256sum'', p] [] w) = Exited (Some 0) st out err
            \<longrightarrow> (\<exists>b r. fs w p = Some b \<and> out = H b @ CHR '' '' # r)) \<and>
        (\<forall>url token out w q. q \<noteq> out
            \<longrightarrow> fs (snd (os_exec os [''curl'', ''-sS'', ''--config'', ''-''] (build_download_config url token out) w)) q
                = fs w q) \<and>
        (\<forall>b. valid_sha256 (H b)))"

lemma file_systemD:
  assumes "file_system os fs H"
  shows "os_read os p w = fs w p"
    and "os_there os p w = (fs w p \<noteq> None)"
    and "os_write os p c w = (Inl e, w') \<Longrightarrow> q \<noteq> p \<Longrightarrow> fs w' q = fs w q"
    and "os_write os p c w = (Inr u, w') \<Longrightarrow> fs w' = (fs w)(p \<mapsto> c)"
    and "p \<noteq> q \<Longrightarrow> os_rename os p q w = (Inl e, w') \<Longrightarrow> fs w' = fs w"
    and "p \<noteq> q \<Longrightarrow> os_rename os p q w = (Inr u, w') \<Longrightarrow> fs w p \<noteq> None \<and> fs w' = (fs w)(p := None, q := fs w p)"
    and "q \<noteq> p \<Longrightarrow> fs (snd (os_unlink os p w)) q = fs w q"
    and "fs (snd (os_mkdir_all os p m w)) = fs w"
    and "fs (snd (os_exec os [''sha256sum'', p] [] w)) = fs w"
    and "plain_path p \<Longrightarrow> fst (os_exec os [''sha256sum'', p] [] w) = Exited (Some 0) st out err
            \<Longrightarrow> \<exists>b r. fs w p = Some b \<and> out = H b @ CHR '' '' # r"
    and "q \<noteq> out \<Longrightarrow> fs (snd (os_exec os [''curl'', ''-sS'', ''--config'', ''-''] (build_download_config url token out) w)) q
            = fs w q"
    and "valid_sha256 (H b)"
proof -
  note l = assms [unfolded file_system_def]
  note l1 = l [THEN conjunct1, rule_format]
  note l2 = l [THEN conjunct2, THEN conjunct1, rule_format]
  note l3 = l [THEN conjunct2, THEN conjunct2, THEN conjunct1, rule_format]
  note l4 = l [THEN conjunct2, THEN conjunct2, THEN conjunct2, THEN conjunct1, rule_format]
  note l5 = l [THEN conjunct2, THEN conjunct2, THEN conjunct2, THEN conjunct2, THEN conjunct1, rule_format]
  note l6 = l [THEN conjunct2, THEN conjunct2, THEN conjunct2, THEN conjunct2, THEN conjunct2, THEN conjunct1, rule_format]
  note l7 = l [THEN conjunct2, THEN conjunct2, THEN conjunct2, THEN conjunct2, THEN conjunct2, THEN conjunct2, THEN conjunct1, rule_format]
  note l8 = l [THEN conjunct2, THEN conjunct2, THEN conjunct2, THEN conjunct2, THEN conjunct2, THEN conjunct2, THEN conjunct2, THEN conjunct1, rule_format]
  note l9 = l [THEN conjunct2, THEN conjunct2, THEN conjunct2, THEN conjunct2, THEN conjunct2, THEN conjunct2, THEN conjunct2, THEN conjunct2, THEN conjunct1, rule_format]
  note l10 = l [THEN conjunct2, THEN conjunct2, THEN conjunct2, THEN conjunct2, THEN conjunct2, THEN conjunct2, THEN conjunct2, THEN conjunct2, THEN conjunct2, THEN conjunct1, rule_format]
  note l11 = l [THEN conjunct2, THEN conjunct2, THEN conjunct2, THEN conjunct2, THEN conjunct2, THEN conjunct2, THEN conjunct2, THEN conjunct2, THEN conjunct2, THEN conjunct2, THEN conjunct1, rule_format]
  note l12 = l [THEN conjunct2, THEN conjunct2, THEN conjunct2, THEN conjunct2, THEN conjunct2, THEN conjunct2, THEN conjunct2, THEN conjunct2, THEN conjunct2, THEN conjunct2, THEN conjunct2, rule_format]
  show "os_read os p w = fs w p" by (rule l1)
  show "os_there os p w = (fs w p \<noteq> None)" by (rule l2)
  show "fs w' q = fs w q"
    if "os_write os p c w = (Inl e, w')" "q \<noteq> p"  using that by (rule l3)
  show "fs w' = (fs w)(p \<mapsto> c)"
    if "os_write os p c w = (Inr u, w')"  using that by (rule l4)
  show "fs w' = fs w"
    if "p \<noteq> q" "os_rename os p q w = (Inl e, w')"  using that by (rule l5)
  show "fs w p \<noteq> None \<and> fs w' = (fs w)(p := None, q := fs w p)"
    if "p \<noteq> q" "os_rename os p q w = (Inr u, w')"  using that by (rule l6)
  show "fs (snd (os_unlink os p w)) q = fs w q"
    if "q \<noteq> p"  using that by (rule l7)
  show "fs (snd (os_mkdir_all os p m w)) = fs w" by (rule l8)
  show "fs (snd (os_exec os [''sha256sum'', p] [] w)) = fs w" by (rule l9)
  show "\<exists>b r. fs w p = Some b \<and> out = H b @ CHR '' '' # r"
    if "plain_path p" "fst (os_exec os [''sha256sum'', p] [] w) = Exited (Some 0) st out err"  using that by (rule l10)
  show "fs (snd (os_exec os [''curl'', ''-sS'', ''--config'', ''-''] (build_download_config url token out) w)) q
            = fs w q"
    if "q \<noteq> out"  using that by (rule l11)
  show "valid_sha256 (H b)" by (rule l12)
qed

lemma sha256_of_frame: "file_system os fs H \<Longrightarrow> fs (snd (sha256_of os p w)) = fs w"
  using file_systemD(9) [of os fs H p w]
  by (auto simp: sha256_of_def Let_def split: prod.splits proc_result.splits)

lemma sha256_of_Inr:
  assumes fs: "file_system os fs H" and p: "plain_path p" and r: "sha256_of os p w = (Inr d, w')"
  shows "\<exists>b. fs w p = Some b \<and> d = H b"
proof -
  obtain c st out err w1 where e: "os_exec os [''sha256sum'', p] [] w = (Exited c st out err, w1)"
    and ok: "success (Exited c st out err)"
    and d: "d = map ascii_lower (case first_word (from_utf8_lossy out) of Some t \<Rightarrow> t | None \<Rightarrow> [])"
    using r by (auto simp: sha256_of_def Let_def split: prod.splits proc_result.splits if_splits)
  have c: "c = Some 0" using ok by (auto simp: success_def split: option.splits)
  obtain b t where b: "fs w p = Some b" and out: "out = H b @ CHR '' '' # t"
    using file_systemD(10) [OF fs p, of w st out err] e c by auto
  note v = valid_sha256_chars [OF file_systemD(12) [OF fs, of b]]
  have "from_utf8_lossy out = H b @ from_utf8_lossy (CHR '' '' # t)"
    unfolding out by (rule lossy_valid_append [OF ascii_utf8 [OF v(3)]])
  also have "\<dots> = H b @ CHR '' '' # from_utf8_lossy t"
    by (simp add: utf8_head_def utf8_char_width_def)
  finally have "d = H b" using v(4) by (simp add: d first_word_digest [OF v(1,2)])
  with b show ?thesis by blast
qed

lemma write_sidecar_Inr:
  assumes fs: "file_system os fs H" and r: "write_sidecar os path sha w = (Inr u, w')"
  shows "fs w' = (fs w)(path @ ''.sha256.tmp'' := None, path @ ''.sha256'' \<mapsto> sha @ [CHR 0x0A])"
proof -
  obtain u1 w1 where a: "os_write os (path @ ''.sha256.tmp'') (sha @ [CHR 0x0A]) w = (Inr u1, w1)"
    and b: "os_rename os (path @ ''.sha256.tmp'') (path @ ''.sha256'') w1 = (Inr u, w')"
    using r by (auto simp: write_sidecar_def Let_def attempt_Inr)
  show ?thesis
    using file_systemD(4) [OF fs a] file_systemD(6) [OF fs _ b] by (simp add: fun_upd_twist)
qed

lemma write_sidecar_frame:
  assumes fs: "file_system os fs H" and q: "q \<noteq> path @ ''.sha256''" "q \<noteq> path @ ''.sha256.tmp''"
  shows "fs (snd (write_sidecar os path sha w)) q = fs w q"
proof -
  obtain r1 w1 where a: "os_write os (path @ ''.sha256.tmp'') (sha @ [CHR 0x0A]) w = (r1, w1)" by fastforce
  have w1: "fs w1 q = fs w q"
    using a q file_systemD(3,4) [OF fs, of "path @ ''.sha256.tmp''"] by (cases r1) fastforce+
  obtain r2 w2 where b: "os_rename os (path @ ''.sha256.tmp'') (path @ ''.sha256'') w1 = (r2, w2)" by fastforce
  have w2: "fs w2 q = fs w1 q"
    using b q file_systemD(5,6) [OF fs, of "path @ ''.sha256.tmp''" "path @ ''.sha256''" w1]
    by (cases r2) fastforce+
  show ?thesis using a b w1 w2 by (cases r1) (simp_all add: write_sidecar_def Let_def)
qed

text \<open>The cache entry of an image is coherent: a sidecar beside an image has its digest.\<close>

definition coherent :: "(string \<Rightarrow> string) \<Rightarrow> (string \<Rightarrow> string option) \<Rightarrow> string \<Rightarrow> bool" where
  "coherent H f path
     = (case (f path, f (path @ ''.sha256'')) of (Some b, Some s) \<Rightarrow> trim s = H b | _ \<Rightarrow> True)"

lemma trim_digest: "file_system os fs H \<Longrightarrow> trim (H b @ [CHR 0x0A]) = H b"
  using valid_sha256_chars [OF file_systemD(12)] by (blast intro: trim_line)

lemma decide_Inr:
  assumes fs: "file_system os fs H" and p: "plain_path path" and co: "coherent H (fs w) path"
    and r: "decide os path (Some want) img w = (Inr d, w')"
  shows "coherent H (fs w') path \<and> (d = UseExisting \<longrightarrow> (\<exists>b. fs w' path = Some b \<and> H b = want))"
proof (cases "fs w path")
  case None
  then show ?thesis using r co file_systemD(2) [OF fs] by (auto simp: decide_def)
next
  case (Some b)
  show ?thesis
  proof (cases "read_to_string os (path @ ''.sha256'') w")
    case None
    obtain got w1 where g: "sha256_of os path w = (Inr got, w1)"
      and k: "(if got = want then attempt (write_sidecar os path want w1) (\<lambda>_ w. (Inr UseExisting, w))
               else (Inr Pull, w1)) = (Inr d, w')"
      using r Some None file_systemD(2) [OF fs] by (auto simp: decide_def attempt_Inr)
    have got: "got = H b" and w1: "fs w1 = fs w"
      using sha256_of_Inr [OF fs p g] sha256_of_frame [OF fs, of path w] Some g by auto
    show ?thesis
    proof (cases "got = want")
      case True
      then obtain u where "write_sidecar os path want w1 = (Inr u, w')" and d: "d = UseExisting"
        using k by (auto simp: attempt_Inr)
      from write_sidecar_Inr [OF fs this(1)] have "fs w' path = Some b"
        "fs w' (path @ ''.sha256'') = Some (H b @ [CHR 0x0A])"
        using Some w1 True got by simp_all
      then show ?thesis using trim_digest [OF fs, of b] True got by (simp add: coherent_def)
    qed (use k co w1 in simp)
  next
    case (Some s)
    then have "fs w (path @ ''.sha256'') = Some s"
      using file_systemD(1) [OF fs] by (auto simp: read_to_string_def split: option.splits if_splits)
    then show ?thesis
      using r Some \<open>fs w path = Some b\<close> co file_systemD(2) [OF fs]
      by (auto simp: decide_def coherent_def split: if_splits)
  qed
qed

lemma image_paths_distinct:
  assumes "valid_image_name img"
  shows "partial_path d img \<noteq> image_path d img" "partial_path d img \<noteq> image_path d img @ ''.sha256''"
    "partial_path d img \<noteq> image_path d img @ ''.sha256.tmp''"
  using assms by (cases img; simp add: valid_image_name_def partial_path_def image_path_def)+

lemma plain_image_path:
  assumes "plain_path d" "valid_image_name img"
  shows "plain_path (image_path d img)" "plain_path (partial_path d img)"
  using assms by (auto simp: plain_path_def image_path_def partial_path_def valid_image_name_def list_all_iff
      ascii_defs split: if_splits)

lemma pull_image_Inr:
  assumes fs: "file_system os fs H" and d: "plain_path data_dir" and v: "valid_image_name img"
    and r: "pull_image os data_dir cp token img want (image_path data_dir img) w = (Inr u, w')"
  shows "\<exists>b. fs w' (image_path data_dir img) = Some b \<and> H b = want \<and> coherent H (fs w') (image_path data_dir img)"
proof -
  let ?p = "image_path data_dir img" and ?t = "partial_path data_dir img"
  note n = image_paths_distinct [OF v, of data_dir]
  obtain w1 got w2 u3 w3 where g: "sha256_of os ?t w1 = (Inr got, w2)" and got: "got = want"
    and s: "write_sidecar os ?p want w2 = (Inr u3, w3)" and m: "os_rename os ?t ?p w3 = (Inr u, w')"
    using r by (auto simp: pull_image_def Let_def attempt_Inr split: if_splits)
  obtain b where b: "fs w2 ?t = Some b" "H b = want"
    using sha256_of_Inr [OF fs plain_image_path(2) [OF d v] g] sha256_of_frame [OF fs, of ?t w1] g got by auto
  have w3: "fs w3 = (fs w2)(?p @ ''.sha256.tmp'' := None, ?p @ ''.sha256'' \<mapsto> want @ [CHR 0x0A])"
    by (rule write_sidecar_Inr [OF fs s])
  have w': "fs w' = (fs w3)(?t := None, ?p := fs w3 ?t)"
    using file_systemD(6) [OF fs n(1) m] by simp
  have "fs w3 ?t = Some b" using n(2,3) b(1) by (simp add: w3)
  then have "fs w' ?p = Some b" "fs w' (?p @ ''.sha256'') = Some (want @ [CHR 0x0A])"
    using n by (simp_all add: w' w3)
  then show ?thesis using b(2) trim_digest [OF fs, of b] by (auto simp: coherent_def)
qed

lemma ensure_image_Inr:
  assumes fs: "file_system os fs H" and d: "plain_path data_dir" and v: "valid_image_name img"
    and co: "coherent H (fs w) (image_path data_dir img)"
    and r: "ensure_image os data_dir cp token img (Some want) w = (Inr u, w')"
  shows "(\<exists>b. fs w' (image_path data_dir img) = Some b \<and> H b = want)
         \<and> coherent H (fs w') (image_path data_dir img)"
proof -
  note p = plain_image_path(1) [OF d v]
  obtain d1 w1 where d1: "decide os (image_path data_dir img) (Some want) img w = (Inr d1, w1)"
    and k1: "(if d1 = UseExisting then (Inr (), w1)
              else attempt (decide os (image_path data_dir img) (Some want) img w1) (\<lambda>d w. case d of
                 UseExisting \<Rightarrow> (Inr (), w)
               | Pull \<Rightarrow> attempt (ok_or ''pull without sha256 (internal)'' (Some want), w) (\<lambda>want w.
                   pull_image os data_dir cp token img want (image_path data_dir img) w))) = (Inr u, w')"
    using r by (auto simp: ensure_image_def Let_def attempt_Inr)
  note one = decide_Inr [OF fs p co d1]
  show ?thesis
  proof (cases "d1 = UseExisting")
    case False
    then obtain d2 w2 where d2: "decide os (image_path data_dir img) (Some want) img w1 = (Inr d2, w2)"
      and k2: "(case d2 of UseExisting \<Rightarrow> (Inr (), w2)
               | Pull \<Rightarrow> pull_image os data_dir cp token img want (image_path data_dir img) w2) = (Inr u, w')"
      using k1 by (auto simp: attempt_Inr split: ImageDecision.splits) (meson ImageDecision.exhaust)
    show ?thesis
      using decide_Inr [OF fs p _ d2] one k2 pull_image_Inr [OF fs d v, of cp token want w2 u w'] by (cases d2) auto
  qed (use one k1 in auto)
qed

text \<open>
  A system for examples: the world is a map from paths to contents, the download finds what is
  already at its output path, and renaming onto \<open>stuck\<close> fails.
\<close>

definition demo_hash :: "string \<Rightarrow> string" where
  "demo_hash b = (if b = ''new'' then replicate 64 (CHR ''b'') else replicate 64 (CHR ''a''))"

definition demo_os :: "string option \<Rightarrow> (string \<Rightarrow> string option) os" where
  "demo_os stuck
     = \<lparr>os_net = \<lparr>sys_cmd = (\<lambda>_ w. (True, w)), sys_nft = (\<lambda>_ _ w. (NftExit True, w)),
                 sys_read = (\<lambda>p w. w p), sys_exists = (\<lambda>p w. w p \<noteq> None)\<rparr>,
        os_read = (\<lambda>p w. w p), os_there = (\<lambda>p w. w p \<noteq> None), os_len = (\<lambda>p w. Inr 0),
        os_read_dir = (\<lambda>_ _. None), os_now = (\<lambda>_. 0), os_systime = (\<lambda>_. 0),
        os_write = (\<lambda>p c w. (Inr (), w(p \<mapsto> c))),
        os_rename = (\<lambda>p q w. if stuck = Some q \<or> w p = None then (Inl ''busy'', w)
                             else (Inr (), w(p := None, q := w p))),
        os_unlink = (\<lambda>_ w. (Inl ''kept'', w)), os_mkdir_all = (\<lambda>_ _ w. (Inr (), w)),
        os_chmod = (\<lambda>_ _ w. (Inr (), w)), os_rmtree = (\<lambda>_ w. (Inr (), w)),
        os_open = (\<lambda>_ _ _ w. (Inr (), w)), os_set_len = (\<lambda>_ _ w. (Inr (), w)),
        os_copy = (\<lambda>p q w. (Inr (), w(q := w p))),
        os_exec = (\<lambda>argv inp w.
           if length argv = 2 \<and> hd argv = ''sha256sum'' then
             (case w (argv ! 1) of
                Some b \<Rightarrow> (Exited (Some 0) ''exit status: 0'' (demo_hash b @ ''  f'') [], w)
              | None \<Rightarrow> (Exited (Some 1) ''exit status: 1'' [] [], w))
           else (Exited (Some 0) ''exit status: 0'' [] [], w)),
        os_spawn = (\<lambda>_ _ w. (Inr (Some 7), w)), os_kill = (\<lambda>_ _ w. (None, w)), os_waitpid = (\<lambda>_ w. w),
        os_sleep = (\<lambda>_ w. w), os_http = (\<lambda>_ _ _ _ w. (HttpReply 204 [], w)),
        os_connect = (\<lambda>_ w. (None, w)), os_send = (\<lambda>_ _ w. (None, w)), os_recv = (\<lambda>_ _ w. (Elapsed, w)),
        os_json = (\<lambda>_. Inl ''syntax''), os_show_json = print_json, os_debug = (\<lambda>s. s), os_visit = (\<lambda>ks. ks)\<rparr>"

lemma demo_file_system: "file_system (demo_os stuck) (\<lambda>w. w) demo_hash"
proof -
  have "valid_sha256 (demo_hash b)" for b
    by (simp add: demo_hash_def valid_sha256_def ascii_defs list_all_iff)
  then show ?thesis
    by (auto simp: file_system_def demo_os_def split: option.splits)
qed

lemma demo_sha256_of: "w p = Some b \<Longrightarrow> sha256_of (demo_os stuck) p w = (Inr (demo_hash b), w)"
proof -
  assume w: "w p = Some b"
  have v: "valid_sha256 (demo_hash b)"
    by (simp add: demo_hash_def valid_sha256_def ascii_defs list_all_iff)
  note c = valid_sha256_chars [OF v]
  have "from_utf8_lossy (demo_hash b @ ''  f'') = demo_hash b @ ''  f''"
    using lossy_valid_append [OF ascii_utf8 [OF c(3)], of "''  f''"]
    by (simp add: utf8_head_def utf8_char_width_def)
  then show ?thesis
    using w v c(4) first_word_digest [OF c(1,2), of "'' f''"]
    by (simp add: sha256_of_def demo_os_def success_def)
qed

lemma demo_write_sidecar:
  "stuck \<noteq> Some (p @ ''.sha256'') \<Longrightarrow>
   write_sidecar (demo_os stuck) p sha w
     = (Inr (), w(p @ ''.sha256.tmp'' := None, p @ ''.sha256'' \<mapsto> sha @ [CHR 0x0A]))"
  by (auto simp: write_sidecar_def demo_os_def Let_def)

lemma demo_simps:
  "os_there (demo_os stuck) p w = (w p \<noteq> None)"
  "read_to_string (demo_os stuck) p w
     = (case w p of Some b \<Rightarrow> (if valid_utf8 b then Some b else None) | None \<Rightarrow> None)"
  "os_mkdir_all (demo_os stuck) p m w = (Inr (), w)"
  "os_unlink (demo_os stuck) p w = (Inl ''kept'', w)"
  "os_rename (demo_os stuck) p q w
     = (if stuck = Some q \<or> w p = None then (Inl ''busy'', w) else (Inr (), w(p := None, q := w p)))"
  "curl_download (demo_os stuck) url token out w = (Inr (), w)"
  by (simp_all add: demo_os_def read_to_string_def curl_download_def success_def)



text \<open>
  C35. The order of publication does not survive an interruption when an older image is in place.
  There is a system that obeys the file laws, and a coherent entry with an old image, such that
  \<open>ensure_image\<close> fails after having published the new sidecar, and the same call again
  succeeds without a download although the file still has the old bytes, whose digest is not
  the one asked for.
\<close>

theorem interrupted_publish_serves_stale_image:
  "\<exists>(os :: (string \<Rightarrow> string option) os) H w w1 want old e.
     file_system os (\<lambda>w. w) H \<and> coherent H w (image_path ''/d'' ''web'')
     \<and> w (image_path ''/d'' ''web'') = Some old
     \<and> ensure_image os ''/d'' ''http://cp'' ''t'' ''web'' (Some want) w = (Inl e, w1)
     \<and> ensure_image os ''/d'' ''http://cp'' ''t'' ''web'' (Some want) w1 = (Inr (), w1)
     \<and> w1 (image_path ''/d'' ''web'') = Some old \<and> H old \<noteq> want"
proof -
  let ?p = "image_path ''/d'' ''web''" and ?t = "partial_path ''/d'' ''web''"
  let ?w = "[?p \<mapsto> ''old'', ?t \<mapsto> ''new'']" and ?os = "demo_os (Some ?p)" and ?want = "demo_hash ''new''"
  let ?w1 = "?w(?p @ ''.sha256.tmp'' := None, ?p @ ''.sha256'' \<mapsto> ?want @ [CHR 0x0A])"
  have n: "?t \<noteq> ?p" "?t \<noteq> ?p @ ''.sha256''" "?t \<noteq> ?p @ ''.sha256.tmp''"
    by (simp_all add: image_path_def partial_path_def)
  have h: "demo_hash ''old'' \<noteq> ?want" by (simp add: demo_hash_def)
  have s: "valid_sha256 ?want" by (simp add: demo_hash_def valid_sha256_def ascii_defs list_all_iff)
  have t: "trim (?want @ [CHR 0x0A]) = ?want" "valid_utf8 (?want @ [CHR 0x0A])"
    using trim_digest [OF demo_file_system] valid_utf8_append [OF ascii_utf8 [OF valid_sha256_chars(3) [OF s]]]
    by (simp_all add: ascii_utf8)
  have "coherent demo_hash ?w ?p" using n by (auto simp: coherent_def)
  moreover obtain e where "ensure_image ?os ''/d'' ''http://cp'' ''t'' ''web'' (Some ?want) ?w = (Inl e, ?w1)"
    using n h by (simp add: ensure_image_def decide_def pull_image_def demo_simps demo_write_sidecar Let_def
        demo_sha256_of [of _ _ "''old''"] demo_sha256_of [of _ _ "''new''"])
  moreover have "ensure_image ?os ''/d'' ''http://cp'' ''t'' ''web'' (Some ?want) ?w1 = (Inr (), ?w1)"
    using n t by (simp add: ensure_image_def decide_def demo_simps Let_def)
  ultimately show ?thesis
    using demo_file_system [of "Some ?p"] h n
    by (intro exI [of _ ?os] exI [of _ demo_hash] exI [of _ ?w] exI [of _ ?w1] exI [of _ ?want]
        exI [of _ "''old''"] exI [of _ e]) simp
qed

end
