(* ===== verification/Fc_Api.thy ===== *)
theory Fc_Api
  imports Os Vm_Meta
begin

text \<open>
  The Firecracker API client (\<open>agent/src/fc.rs\<close>): one HTTP request per call over the instance's
  unix socket, with request bodies assembled as text.  The properties say that each body is the
  JSON document it is meant to be, whatever paths and names it carries.
\<close>

subsection \<open>Requests\<close>

definition fc_error :: "string \<Rightarrow> string" where
  "fc_error e = ''FcError: '' @ e"

definition request_uds :: "'w os \<Rightarrow> string \<Rightarrow> string \<Rightarrow> string \<Rightarrow> string \<Rightarrow> ('w, u16 \<times> string) step" where
  "request_uds os sock method path body w
     = (case os_http os sock method path body w of
          (BuildFailed e, w1) \<Rightarrow> (Inl (''build request: '' @ e), w1)
        | (SendFailed e, w1) \<Rightarrow> (Inl (''send request: '' @ e), w1)
        | (BodyFailed e, w1) \<Rightarrow> (Inl (''read body: '' @ e), w1)
        | (HttpReply status bytes, w1) \<Rightarrow> (Inr (status, from_utf8_lossy bytes), w1))"

definition checked :: "'w os \<Rightarrow> string \<Rightarrow> string \<Rightarrow> string \<Rightarrow> string \<Rightarrow> string \<Rightarrow> ('w, unit) step" where
  "checked os what sock method path body w
     = attempt (request_uds os sock method path body w) (\<lambda>(status, resp_body) w.
         if 300 \<le> status
         then (Inl (what @ '' -> '' @ show_nat (unat status) @ '': '' @ resp_body), w)
         else (Inr (), w))"

definition fc_put :: "'w os \<Rightarrow> string \<Rightarrow> string \<Rightarrow> string \<Rightarrow> ('w, unit) step" where
  "fc_put os sock path body = checked os (''PUT '' @ path) sock ''PUT'' path body"

definition fc_patch :: "'w os \<Rightarrow> string \<Rightarrow> string \<Rightarrow> string \<Rightarrow> ('w, unit) step" where
  "fc_patch os sock path body = checked os (''PATCH '' @ path) sock ''PATCH'' path body"

subsection \<open>Bodies\<close>

definition BOOT_ARGS :: string where
  "BOOT_ARGS = ''console=ttyS0 reboot=k panic=1 root=/dev/vda rw''"

definition build_boot_source :: "string \<Rightarrow> bool \<Rightarrow> string option \<Rightarrow> string \<Rightarrow> string \<Rightarrow> string" where
  "build_boot_source kern net_on ip gw msk
     = (case (net_on, ip) of
          (True, Some ip) \<Rightarrow>
            ''{'' @ jkey ''kernel_image_path'' @ json_str kern @ '','' @ jkey ''boot_args''
            @ json_str (BOOT_ARGS @ '' ip='' @ ip @ ''::'' @ gw @ '':'' @ msk @ ''::eth0:off'') @ ''}''
        | _ \<Rightarrow>
            ''{'' @ jkey ''kernel_image_path'' @ json_str kern @ '','' @ jkey ''boot_args''
            @ [CHR 0x22] @ BOOT_ARGS @ [CHR 0x22] @ ''}'')"

definition drive_rootfs_body :: "string \<Rightarrow> string" where
  "drive_rootfs_body rootfs_path
     = ''{'' @ jkey ''drive_id'' @ [CHR 0x22] @ ''rootfs'' @ [CHR 0x22] @ '','' @ jkey ''path_on_host''
       @ json_str rootfs_path @ '','' @ jkey ''is_root_device'' @ ''true,'' @ jkey ''is_read_only'' @ ''false}''"

definition build_network_interface :: "string \<Rightarrow> GuestMac \<Rightarrow> string" where
  "build_network_interface tap guest_mac
     = ''{'' @ jkey ''iface_id'' @ [CHR 0x22] @ ''eth0'' @ [CHR 0x22] @ '','' @ jkey ''host_dev_name''
       @ json_str tap @ '','' @ jkey ''guest_mac'' @ json_str (mac_str guest_mac) @ ''}''"

definition machine_config_body :: "u32 \<Rightarrow> u64 \<Rightarrow> string" where
  "machine_config_body vcpus mem_mib
     = ''{'' @ jkey ''vcpu_count'' @ show_nat (unat vcpus) @ '','' @ jkey ''mem_size_mib''
       @ show_nat (unat mem_mib) @ ''}''"

definition build_vsock :: "u32 \<Rightarrow> string \<Rightarrow> string" where
  "build_vsock guest_cid uds_path
     = ''{'' @ jkey ''guest_cid'' @ show_nat (unat guest_cid) @ '','' @ jkey ''uds_path''
       @ json_str uds_path @ ''}''"

definition vm_state_body :: "string \<Rightarrow> string" where
  "vm_state_body state = ''{'' @ jkey ''state'' @ [CHR 0x22] @ state @ [CHR 0x22] @ ''}''"

definition build_snapshot_create :: "string \<Rightarrow> string \<Rightarrow> string" where
  "build_snapshot_create vmstate_path mem_path
     = ''{'' @ jkey ''snapshot_type'' @ [CHR 0x22] @ ''Full'' @ [CHR 0x22] @ '','' @ jkey ''snapshot_path''
       @ json_str vmstate_path @ '','' @ jkey ''mem_file_path'' @ json_str mem_path @ ''}''"

definition build_snapshot_load ::
    "string \<Rightarrow> string \<Rightarrow> bool \<Rightarrow> u32 option \<Rightarrow> string option \<Rightarrow> string" where
  "build_snapshot_load vmstate_path mem_path net_on slot vsock_uds
     = ''{'' @ jkey ''snapshot_path'' @ json_str vmstate_path @ '','' @ jkey ''mem_backend'' @ ''{''
       @ jkey ''backend_path'' @ json_str mem_path @ '','' @ jkey ''backend_type''
       @ [CHR 0x22] @ ''File'' @ [CHR 0x22] @ ''}''
       @ (case (net_on, slot) of
            (True, Some s) \<Rightarrow>
              '','' @ jkey ''network_overrides'' @ ''[{'' @ jkey ''iface_id'' @ [CHR 0x22] @ ''eth0'' @ [CHR 0x22]
              @ '','' @ jkey ''host_dev_name'' @ json_str (tap_name s) @ ''}]''
          | _ \<Rightarrow> [])
       @ (case vsock_uds of
            Some uds \<Rightarrow> '','' @ jkey ''vsock_override'' @ ''{'' @ jkey ''guest_cid'' @ ''3,''
                        @ jkey ''uds_path'' @ json_str uds @ ''}''
          | None \<Rightarrow> [])
       @ '','' @ jkey ''resume_vm'' @ ''true}''"

subsection \<open>Calls\<close>

definition put_boot_source ::
    "'w os \<Rightarrow> string \<Rightarrow> string \<Rightarrow> bool \<Rightarrow> string option \<Rightarrow> string \<Rightarrow> string \<Rightarrow> ('w, unit) step" where
  "put_boot_source os sock kern net_on ip gw msk
     = fc_put os sock ''/boot-source'' (build_boot_source kern net_on ip gw msk)"

definition put_drive_rootfs :: "'w os \<Rightarrow> string \<Rightarrow> string \<Rightarrow> ('w, unit) step" where
  "put_drive_rootfs os sock rootfs_path = fc_put os sock ''/drives/rootfs'' (drive_rootfs_body rootfs_path)"

definition put_network_interface :: "'w os \<Rightarrow> string \<Rightarrow> string \<Rightarrow> GuestMac \<Rightarrow> ('w, unit) step" where
  "put_network_interface os sock tap guest_mac
     = fc_put os sock ''/network-interfaces/eth0'' (build_network_interface tap guest_mac)"

definition put_machine_config :: "'w os \<Rightarrow> string \<Rightarrow> u32 \<Rightarrow> u64 \<Rightarrow> ('w, unit) step" where
  "put_machine_config os sock vcpus mem_mib
     = fc_put os sock ''/machine-config'' (machine_config_body vcpus mem_mib)"

definition put_vsock :: "'w os \<Rightarrow> string \<Rightarrow> u32 \<Rightarrow> string \<Rightarrow> ('w, unit) step" where
  "put_vsock os sock guest_cid uds_path = fc_put os sock ''/vsock'' (build_vsock guest_cid uds_path)"

definition put_instance_start :: "'w os \<Rightarrow> string \<Rightarrow> ('w, unit) step" where
  "put_instance_start os sock
     = fc_put os sock ''/actions''
         (''{'' @ jkey ''action_type'' @ [CHR 0x22] @ ''InstanceStart'' @ [CHR 0x22] @ ''}'')"

definition patch_vm_state :: "'w os \<Rightarrow> string \<Rightarrow> string \<Rightarrow> ('w, unit) step" where
  "patch_vm_state os sock state = fc_patch os sock ''/vm'' (vm_state_body state)"

definition put_snapshot_create :: "'w os \<Rightarrow> string \<Rightarrow> string \<Rightarrow> string \<Rightarrow> ('w, unit) step" where
  "put_snapshot_create os sock vmstate_path mem_path
     = checked os ''snapshot/create'' sock ''PUT'' ''/snapshot/create''
         (build_snapshot_create vmstate_path mem_path)"

definition put_snapshot_load ::
    "'w os \<Rightarrow> string \<Rightarrow> string \<Rightarrow> string \<Rightarrow> bool \<Rightarrow> u32 option \<Rightarrow> string option \<Rightarrow> ('w, unit) step" where
  "put_snapshot_load os sock vmstate_path mem_path net_on slot vsock_uds
     = checked os ''snapshot/load'' sock ''PUT'' ''/snapshot/load''
         (build_snapshot_load vmstate_path mem_path net_on slot vsock_uds)"

subsection \<open>Properties\<close>

text \<open>The documents the bodies are meant to be.\<close>

definition boot_source_json :: "string \<Rightarrow> bool \<Rightarrow> string option \<Rightarrow> string \<Rightarrow> string \<Rightarrow> json" where
  "boot_source_json kern net_on ip gw msk
     = JObj [(''kernel_image_path'', JStr kern),
             (''boot_args'', JStr (BOOT_ARGS @ (case (net_on, ip) of
                (True, Some ip) \<Rightarrow> '' ip='' @ ip @ ''::'' @ gw @ '':'' @ msk @ ''::eth0:off'' | _ \<Rightarrow> [])))]"

definition snapshot_load_json ::
    "string \<Rightarrow> string \<Rightarrow> bool \<Rightarrow> u32 option \<Rightarrow> string option \<Rightarrow> json" where
  "snapshot_load_json vmstate mem net_on slot vsock_uds
     = JObj ([(''snapshot_path'', JStr vmstate),
              (''mem_backend'', JObj [(''backend_path'', JStr mem), (''backend_type'', JStr ''File'')])]
             @ (case (net_on, slot) of
                  (True, Some s) \<Rightarrow> [(''network_overrides'',
                     JArr [JObj [(''iface_id'', JStr ''eth0''), (''host_dev_name'', JStr (tap_name s))]])]
                | _ \<Rightarrow> [])
             @ (case vsock_uds of
                  Some uds \<Rightarrow> [(''vsock_override'', JObj [(''guest_cid'', JNum 3), (''uds_path'', JStr uds)])]
                | None \<Rightarrow> [])
             @ [(''resume_vm'', JBool True)])"

lemma BOOT_ARGS_plain: "plain_json BOOT_ARGS"
  by (simp add: plain_json_def BOOT_ARGS_def)

lemma boot_source_print: "build_boot_source kern net_on ip gw msk = print_json (boot_source_json kern net_on ip gw msk)"
  using json_str_plain [OF BOOT_ARGS_plain]
  by (cases net_on; cases ip) (simp_all add: build_boot_source_def boot_source_json_def jkey_plain plain_json_def)

lemma snapshot_load_print:
  "build_snapshot_load vmstate mem net_on slot uds = print_json (snapshot_load_json vmstate mem net_on slot uds)"
  using json_str_plain [of "''File''"] json_str_plain [of "''eth0''"] show_nat.simps [of 3]
  by (cases net_on; cases slot; cases uds)
    (simp_all add: build_snapshot_load_def snapshot_load_json_def jkey_plain plain_json_def show_int_def show_bool_def)

text \<open>
  No value that goes into a Firecracker request can change the shape of the request: reading
  the text of each body as JSON gives the intended document with the given kernel path, boot
  arguments, drive path, tap, MAC address, sizes, socket and snapshot paths as its values.
\<close>

theorem fc_bodies_are_json:
  "parse_json (build_boot_source kern net_on ip gw msk) = Some (boot_source_json kern net_on ip gw msk)
   \<and> parse_json (drive_rootfs_body rootfs)
      = Some (JObj [(''drive_id'', JStr ''rootfs''), (''path_on_host'', JStr rootfs),
                    (''is_root_device'', JBool True), (''is_read_only'', JBool False)])
   \<and> parse_json (build_network_interface tap mac)
      = Some (JObj [(''iface_id'', JStr ''eth0''), (''host_dev_name'', JStr tap), (''guest_mac'', JStr (mac_str mac))])
   \<and> parse_json (machine_config_body vcpus mem_mib)
      = Some (JObj [(''vcpu_count'', JNum (uint vcpus)), (''mem_size_mib'', JNum (uint mem_mib))])
   \<and> parse_json (build_vsock cid uds) = Some (JObj [(''guest_cid'', JNum (uint cid)), (''uds_path'', JStr uds)])
   \<and> parse_json (build_snapshot_create vmstate mem)
      = Some (JObj [(''snapshot_type'', JStr ''Full''), (''snapshot_path'', JStr vmstate), (''mem_file_path'', JStr mem)])
   \<and> parse_json (build_snapshot_load vmstate mem net_on slot ovr)
      = Some (snapshot_load_json vmstate mem net_on slot ovr)"
proof (intro conjI)
  note q = json_str_plain [of "''rootfs''"] json_str_plain [of "''eth0''"] json_str_plain [of "''Full''"]
  have p: "print_json v = t \<Longrightarrow> parse_json t = Some v" for v t
    using parse_print_json by auto
  show "parse_json (build_boot_source kern net_on ip gw msk) = Some (boot_source_json kern net_on ip gw msk)"
    by (simp add: boot_source_print parse_print_json)
  show "parse_json (drive_rootfs_body rootfs)
      = Some (JObj [(''drive_id'', JStr ''rootfs''), (''path_on_host'', JStr rootfs),
                    (''is_root_device'', JBool True), (''is_read_only'', JBool False)])"
    by (rule p) (simp add: drive_rootfs_body_def q jkey_plain plain_json_def show_bool_def)
  show "parse_json (build_network_interface tap mac)
      = Some (JObj [(''iface_id'', JStr ''eth0''), (''host_dev_name'', JStr tap), (''guest_mac'', JStr (mac_str mac))])"
    by (rule p) (simp add: build_network_interface_def q jkey_plain plain_json_def)
  show "parse_json (machine_config_body vcpus mem_mib)
      = Some (JObj [(''vcpu_count'', JNum (uint vcpus)), (''mem_size_mib'', JNum (uint mem_mib))])"
    by (rule p) (simp add: machine_config_body_def jkey_plain plain_json_def)
  show "parse_json (build_vsock cid uds) = Some (JObj [(''guest_cid'', JNum (uint cid)), (''uds_path'', JStr uds)])"
    by (rule p) (simp add: build_vsock_def jkey_plain plain_json_def)
  show "parse_json (build_snapshot_create vmstate mem)
      = Some (JObj [(''snapshot_type'', JStr ''Full''), (''snapshot_path'', JStr vmstate), (''mem_file_path'', JStr mem)])"
    by (rule p) (simp add: build_snapshot_create_def q jkey_plain plain_json_def)
  show "parse_json (build_snapshot_load vmstate mem net_on slot ovr)
      = Some (snapshot_load_json vmstate mem net_on slot ovr)"
    by (simp add: snapshot_load_print parse_print_json)
qed

end
