(* ===== verification/Guest_Client.thy ===== *)
theory Guest_Client
  imports Os Rust_Str
begin

text \<open>
  The host side of the guest protocol (\<open>agent/src/guestclient.rs\<close>): the \<open>CONNECT\<close> handshake of
  Firecracker's hybrid vsock, the bounded readers, and the three calls \<open>exec\<close>, \<open>exec_stream\<close>
  and \<open>set_ip\<close>.  A deadline that passes during a connect, send or receive ends the call; the
  semaphore that bounds the number of calls is never closed, so waiting for a permit can only
  end in a permit or in that deadline, and it is part of the connect.
\<close>

subsection \<open>Calls under a deadline\<close>

text \<open>\<open>None\<close> is the deadline.\<close>

type_synonym ('w, 'a) timed = "'w \<Rightarrow> (string + 'a) option \<times> 'w"

definition await :: "(string + 'a) option \<times> 'w \<Rightarrow> ('a \<Rightarrow> ('w, 'b) timed) \<Rightarrow> (string + 'b) option \<times> 'w" where
  "await r k
     = (case r of
          (None, w) \<Rightarrow> (None, w)
        | (Some (Inl e), w) \<Rightarrow> (Some (Inl e), w)
        | (Some (Inr x), w) \<Rightarrow> k x w)"

definition await_err :: "(string \<Rightarrow> string) \<Rightarrow> (string + 'a) option \<times> 'w \<Rightarrow> (string + 'a) option \<times> 'w" where
  "await_err f r
     = (case r of (Some (Inl e), w) \<Rightarrow> (Some (Inl (f e)), w) | (x, w) \<Rightarrow> (x, w))"

definition timeout :: "string \<Rightarrow> (string + 'a) option \<times> 'w \<Rightarrow> (string + 'a) \<times> 'w" where
  "timeout msg r = (case r of (None, w) \<Rightarrow> (Inl msg, w) | (Some x, w) \<Rightarrow> (x, w))"

lemma await_simps [simp]:
  "await (None, w) k = (None, w)"
  "await (Some (Inl e), w) k = (Some (Inl e), w)"
  "await (Some (Inr x), w) k = k x w"
  by (simp_all add: await_def)

subsection \<open>Reading\<close>

definition MAX_RESPONSE :: nat where
  "MAX_RESPONSE = 4 * 1024 * 1024"

definition GUEST_PORT :: nat where
  "GUEST_PORT = 52"

definition MAX_HANDSHAKE :: nat where
  "MAX_HANDSHAKE = 128"

text \<open>One byte per read, until a newline, the end, or too many bytes.\<close>

function handshake_loop :: "'w os \<Rightarrow> nat \<Rightarrow> string \<Rightarrow> ('w, string) timed" where
  "handshake_loop os h buf w
     = (case os_recv os h 1 w of
          (Elapsed, w1) \<Rightarrow> (None, w1)
        | (RecvFailed e, w1) \<Rightarrow> (Some (Inl (''read: '' @ e)), w1)
        | (Chunk [], w1) \<Rightarrow>
            if buf = [] then (Some (Inl ''connection closed before any data''), w1)
            else (Some (Inr (from_utf8_lossy buf)), w1)
        | (Chunk (b # _), w1) \<Rightarrow>
            if b = CHR 0x0A then (Some (Inr (from_utf8_lossy buf)), w1)
            else if MAX_HANDSHAKE < length (buf @ [b])
            then (Some (Inl (''handshake exceeded '' @ show_nat MAX_HANDSHAKE @ '' bytes'')), w1)
            else handshake_loop os h (buf @ [b]) w1)"
  by pat_completeness auto
termination
  by (relation "measure (\<lambda>(os, h, buf, w). Suc MAX_HANDSHAKE - length buf)") auto

definition read_handshake_line :: "'w os \<Rightarrow> nat \<Rightarrow> ('w, string) timed" where
  "read_handshake_line os h = handshake_loop os h []"

text \<open>
  \<open>read_until\<close> over the first \<open>limit\<close> bytes of the stream: everything up to and with the first
  newline, or up to the end or the limit.
\<close>

function read_until :: "'w os \<Rightarrow> nat \<Rightarrow> nat \<Rightarrow> string \<Rightarrow> ('w, string) timed" where
  "read_until os h limit buf w
     = (if limit \<le> length buf then (Some (Inr buf), w)
        else
          case os_recv os h 8192 w of
            (Elapsed, w1) \<Rightarrow> (None, w1)
          | (RecvFailed e, w1) \<Rightarrow> (Some (Inl (''read: '' @ e)), w1)
          | (Chunk bs, w1) \<Rightarrow>
              if bs = [] then (Some (Inr buf), w1)
              else
                let part = take (limit - length buf) bs
                in if CHR 0x0A \<in> set part
                   then (Some (Inr (buf @ takeWhile (\<lambda>c. c \<noteq> CHR 0x0A) part @ [CHR 0x0A])), w1)
                   else read_until os h limit (buf @ part) w1)"
  by pat_completeness auto
termination
  by (relation "measure (\<lambda>(os, h, limit, buf, w). limit - length buf)")
    (auto simp: min_def simp flip: length_greater_0_conv)

declare handshake_loop.simps [simp del] read_until.simps [simp del]

definition read_response_line :: "'w os \<Rightarrow> nat \<Rightarrow> ('w, string) timed" where
  "read_response_line os h w
     = await (read_until os h (MAX_RESPONSE + 1) [] w) (\<lambda>buf w.
         if buf = [] then (Some (Inl ''connection closed before any data''), w)
         else if last buf = CHR 0x0A then (Some (Inr (from_utf8_lossy (butlast buf))), w)
         else if MAX_RESPONSE < length buf
         then (Some (Inl (''response exceeded '' @ show_nat MAX_RESPONSE @ '' bytes'')), w)
         else (Some (Inr (from_utf8_lossy buf)), w))"

subsection \<open>The round trip\<close>

definition connect_guest :: "'w os \<Rightarrow> string \<Rightarrow> ('w, nat) timed" where
  "connect_guest os uds w
     = await (await_err (\<lambda>e. ''connect '' @ uds @ '': '' @ e) (os_connect os uds w)) (\<lambda>h w.
       await (await_err (\<lambda>e. ''write CONNECT: '' @ e)
                (os_send os h (''CONNECT '' @ show_nat GUEST_PORT @ [CHR 0x0A]) w)) (\<lambda>_ w.
       await (read_handshake_line os h w) (\<lambda>ok_line w.
       if \<not> starts_with ''OK '' ok_line
       then (Some (Inl (''handshake: expected '' @ [CHR 0x27] @ ''OK <port>'' @ [CHR 0x27] @ '', got ''
                        @ os_debug os ok_line)), w)
       else (Some (Inr h), w))))"

definition round_trip_inner :: "'w os \<Rightarrow> string \<Rightarrow> string \<Rightarrow> ('w, string) timed" where
  "round_trip_inner os uds request_line w
     = await (connect_guest os uds w) (\<lambda>h w.
       let req = (if request_line \<noteq> [] \<and> last request_line = CHR 0x0A then request_line
                  else request_line @ [CHR 0x0A])
       in await (await_err (\<lambda>e. ''write request: '' @ e) (os_send os h req w)) (\<lambda>_ w.
          read_response_line os h w))"

definition round_trip :: "'w os \<Rightarrow> string \<Rightarrow> string \<Rightarrow> u64 \<Rightarrow> ('w, string) step" where
  "round_trip os dir request_line deadline_ms w
     = timeout (''guest round-trip timed out after '' @ show_nat (unat deadline_ms) @ ''ms'')
         (round_trip_inner os (dir @ ''/v.sock'') request_line w)"

subsection \<open>Calls\<close>

definition saturating_add :: "u64 \<Rightarrow> u64 \<Rightarrow> u64" where
  "saturating_add a b = (if a + b < a then -1 else a + b)"

text \<open>The maps of \<open>serde_json\<close> keep their keys in order.\<close>

definition exec_request :: "string list \<Rightarrow> u64 \<Rightarrow> bool \<Rightarrow> json" where
  "exec_request cmd timeout_ms stream
     = JObj ([(''cmd'', JArr (map JStr cmd)), (''op'', JStr ''exec'')]
             @ (if stream then [(''stream'', JBool True)] else [])
             @ [(''timeout_ms'', JNum (uint timeout_ms))])"

definition guest_exec :: "'w os \<Rightarrow> string \<Rightarrow> string list \<Rightarrow> u64 \<Rightarrow> ('w, json) step" where
  "guest_exec os dir cmd timeout_ms w
     = (let line = os_show_json os (exec_request cmd timeout_ms False)
        in attempt (round_trip os dir line (saturating_add timeout_ms 5000) w) (\<lambda>resp w.
             (case os_json os resp of
                Inl e \<Rightarrow> (Inl (''decode response '' @ os_debug os resp @ '': '' @ e), w)
              | Inr v \<Rightarrow> (Inr v, w))))"

definition guest_exec_stream :: "'w os \<Rightarrow> string \<Rightarrow> string list \<Rightarrow> u64 \<Rightarrow> ('w, nat) step" where
  "guest_exec_stream os dir cmd timeout_ms w
     = (let line = os_show_json os (exec_request cmd timeout_ms True)
        in timeout ''guest stream setup timed out after 10000ms''
             (await (connect_guest os (dir @ ''/v.sock'') w) (\<lambda>h w.
              await (await_err (\<lambda>e. ''write request: '' @ e) (os_send os h (line @ [CHR 0x0A]) w)) (\<lambda>_ w.
              (Some (Inr h), w)))))"

definition json_get :: "string \<Rightarrow> json \<Rightarrow> json option" where
  "json_get k v = (case v of JObj kvs \<Rightarrow> map_of (rev kvs) k | _ \<Rightarrow> None)"

definition set_ip_request :: "string \<Rightarrow> u8 \<Rightarrow> string \<Rightarrow> json" where
  "set_ip_request ip pfx gw
     = JObj [(''dev'', JStr ''eth0''), (''gw'', JStr gw), (''ip'', JStr ip), (''op'', JStr ''set_ip''),
             (''prefix'', JNum (uint pfx))]"

text \<open>The attempts that are left, the first of which may have to wait, and the last error.\<close>

fun set_ip_attempts :: "'w os \<Rightarrow> string \<Rightarrow> string \<Rightarrow> nat list \<Rightarrow> string \<Rightarrow> ('w, unit) step" where
  "set_ip_attempts os dir line [] last_err w = (Inl last_err, w)"
| "set_ip_attempts os dir line (n # rest) last_err w
     = (let w = (if 0 < n then os_sleep os 1000 w else w)
        in case round_trip os dir line 5000 w of
             (Inl e, w) \<Rightarrow> set_ip_attempts os dir line rest e w
           | (Inr resp, w) \<Rightarrow>
               (case os_json os resp of
                  Inl e \<Rightarrow> (Inl (''decode set_ip '' @ os_debug os resp @ '': '' @ e), w)
                | Inr v \<Rightarrow>
                    if json_get ''ok'' v = Some (JBool True) then (Inr (), w)
                    else set_ip_attempts os dir line rest (''set_ip rejected: '' @ resp) w))"

definition set_ip :: "'w os \<Rightarrow> string \<Rightarrow> string \<Rightarrow> u8 \<Rightarrow> string \<Rightarrow> ('w, unit) step" where
  "set_ip os dir ip pfx gw
     = set_ip_attempts os dir (os_show_json os (set_ip_request ip pfx gw)) [0, 1, 2]
         ''set_ip: no attempts made''"

subsection \<open>What the reader returns\<close>

text \<open>A connection on which the remaining bytes arrive in the pieces \<open>rd w\<close>.\<close>

definition delivers :: "'w os \<Rightarrow> nat \<Rightarrow> ('w \<Rightarrow> string list) \<Rightarrow> bool" where
  "delivers os h rd
     = (\<forall>n w. case rd w of
          [] \<Rightarrow> \<exists>w'. os_recv os h n w = (Chunk [], w')
        | c # cs \<Rightarrow> \<exists>w'. os_recv os h n w = (Chunk c, w') \<and> rd w' = cs)"

definition upto_newline :: "string \<Rightarrow> string" where
  "upto_newline s
     = (if CHR 0x0A \<in> set s then takeWhile (\<lambda>c. c \<noteq> CHR 0x0A) s @ [CHR 0x0A] else s)"

definition response_of :: "string \<Rightarrow> string + string" where
  "response_of bytes
     = (case split_once (CHR 0x0A) bytes of
          Some (line, _) \<Rightarrow>
            if length line \<le> MAX_RESPONSE then Inr (from_utf8_lossy line)
            else Inl (''response exceeded '' @ show_nat MAX_RESPONSE @ '' bytes'')
        | None \<Rightarrow>
            if bytes = [] then Inl ''connection closed before any data''
            else if MAX_RESPONSE < length bytes
            then Inl (''response exceeded '' @ show_nat MAX_RESPONSE @ '' bytes'')
            else Inr (from_utf8_lossy bytes))"

lemma upto_newline_append:
  "CHR 0x0A \<notin> set a \<Longrightarrow> upto_newline (a @ b) = a @ upto_newline b"
  unfolding upto_newline_def by (subst takeWhile_append2) auto

lemma upto_newline_prefix:
  "CHR 0x0A \<in> set a \<Longrightarrow> upto_newline (a @ b) = takeWhile (\<lambda>c. c \<noteq> CHR 0x0A) a @ [CHR 0x0A]"
  by (auto simp: upto_newline_def takeWhile_append1)

lemma deliversD:
  assumes "delivers os h rd"
  shows "rd w = [] \<Longrightarrow> \<exists>w'. os_recv os h n w = (Chunk [], w')"
    and "rd w = c # cs \<Longrightarrow> \<exists>w'. os_recv os h n w = (Chunk c, w') \<and> rd w' = cs"
  using assms [unfolded delivers_def, THEN spec [of _ n], THEN spec [of _ w]] by simp_all

lemma read_until_delivers:
  "delivers os h rd \<Longrightarrow> [] \<notin> set (rd w) \<Longrightarrow>
   fst (read_until os h limit buf w) = Some (Inr (buf @ upto_newline (take (limit - length buf) (concat (rd w)))))"
proof (induction os h limit buf w rule: read_until.induct)
  case (1 os h limit buf w)
  show ?case
  proof (cases "limit \<le> length buf")
    case True
    then show ?thesis by (subst read_until.simps) (simp add: upto_newline_def)
  next
    case False
    show ?thesis
    proof (cases "rd w")
      case Nil
      then obtain w' where "os_recv os h 8192 w = (Chunk [], w')"
        using deliversD(1) [OF 1(2)] by blast
      then show ?thesis
        using False Nil by (subst read_until.simps) (simp add: upto_newline_def)
    next
      case (Cons c cs)
      then obtain w' where r: "os_recv os h 8192 w = (Chunk c, w')" "rd w' = cs"
        using deliversD(2) [OF 1(2)] by blast
      let ?part = "take (limit - length buf) c"
      have c: "c \<noteq> []" "[] \<notin> set (rd w')" using 1(3) Cons r(2) by auto
      have split: "take (limit - length buf) (concat (rd w))
          = ?part @ take (limit - length (buf @ ?part)) (concat cs)"
        using Cons by (simp add: min_def)
      show ?thesis
      proof (cases "CHR 0x0A \<in> set ?part")
        case True
        then show ?thesis
          using r c False split upto_newline_prefix [OF True]
          by (subst read_until.simps) (simp add: Let_def)
      next
        case nl: False
        have "fst (read_until os h limit (buf @ ?part) w')
            = Some (Inr ((buf @ ?part) @ upto_newline (take (limit - length (buf @ ?part)) (concat (rd w')))))"
          by (rule 1(1) [OF False r(1) [symmetric] refl c(1) refl nl 1(2) c(2)])
        then show ?thesis
          using r c False nl split upto_newline_append [OF nl]
          by (subst read_until.simps) (simp add: Let_def)
      qed
    qed
  qed
qed

lemma upto_newline_take:
  assumes "split_once (CHR 0x0A) s = Some (line, rest)"
  shows "upto_newline (take n s) = (if length line < n then line @ [CHR 0x0A] else take n line)"
proof -
  have s: "s = line @ CHR 0x0A # rest" "CHR 0x0A \<notin> set line"
    using split_once_SomeD [OF assms] by auto
  show ?thesis
  proof (cases "length line < n")
    case True
    then obtain k where "n - length line = Suc k" by (metis Suc_diff_Suc)
    then have "take n s = line @ CHR 0x0A # take k rest" using s True by simp
    moreover have "upto_newline (CHR 0x0A # take k rest) = [CHR 0x0A]" by (simp add: upto_newline_def)
    ultimately show ?thesis using True upto_newline_append [OF s(2)] by simp
  next
    case False
    then show ?thesis using s by (auto simp: upto_newline_def dest: in_set_takeD)
  qed
qed

lemma read_response_delivers:
  assumes "delivers os h rd" "[] \<notin> set (rd w)"
  shows "fst (read_response_line os h w) = Some (response_of (concat (rd w)))"
proof -
  define all where "all = concat (rd w)"
  obtain w' where r: "read_until os h (MAX_RESPONSE + 1) [] w
      = (Some (Inr (upto_newline (take (MAX_RESPONSE + 1) all))), w')"
    using read_until_delivers [OF assms, of "MAX_RESPONSE + 1" "[]"]
    by (cases "read_until os h (MAX_RESPONSE + 1) [] w") (simp add: all_def)
  have "fst (read_response_line os h w) = Some (response_of all)"
  proof (cases "split_once (CHR 0x0A) all")
    case None
    then have nl: "CHR 0x0A \<notin> set all" using split_once_no_delim by blast
    then have u: "upto_newline (take (MAX_RESPONSE + 1) all) = take (MAX_RESPONSE + 1) all"
      by (auto simp: upto_newline_def dest: in_set_takeD)
    have l: "last (take (MAX_RESPONSE + 1) all) \<noteq> CHR 0x0A" if "all \<noteq> []"
      using nl that by (metis in_set_takeD last_in_set take_eq_Nil add_is_0 one_neq_zero)
    show ?thesis
      using r None l unfolding u by (auto simp: read_response_line_def response_of_def)
  next
    case (Some lr)
    obtain line rest where lr: "lr = (line, rest)" by (cases lr)
    note u = upto_newline_take [OF Some [unfolded lr], of "MAX_RESPONSE + 1"]
    have "CHR 0x0A \<notin> set line" using split_once_SomeD Some lr by blast
    then have l: "last (take (MAX_RESPONSE + 1) line) \<noteq> CHR 0x0A" if "line \<noteq> []"
      using that by (metis in_set_takeD last_in_set take_eq_Nil add_is_0 one_neq_zero)
    show ?thesis
      using r Some l unfolding u lr by (auto simp: read_response_line_def response_of_def)
  qed
  then show ?thesis by (simp add: all_def)
qed

subsection \<open>Properties\<close>

text \<open>
  The agent takes the first line of a guest's answer, however the guest cuts it into writes:
  a line of at most 4 MiB is returned without its newline and decoded leniently, an answer
  that ends without a newline is returned whole, a longer line is refused, and so is a
  connection that closes without a byte.
\<close>

theorem guest_response_is_first_line:
  assumes "delivers os h rd" "[] \<notin> set (rd w)"
  shows "fst (read_response_line os h w) = Some (response_of (concat (rd w)))"
  by (rule read_response_delivers [OF assms])

theorem guest_response_is_first_line_witness:
  "fst (read_response_line
          ((undefined :: string list os)\<lparr>os_recv := (\<lambda>h n w. case w of [] \<Rightarrow> (Chunk [], w) | c # cs \<Rightarrow> (Chunk c, cs))\<rparr>)
          0 [''{}'', [CHR 0x0A, CHR ''x'']])
     = Some (Inr ''{}'')"
proof -
  let ?os = "(undefined :: string list os)\<lparr>os_recv := (\<lambda>h n w. case w of [] \<Rightarrow> (Chunk [], w) | c # cs \<Rightarrow> (Chunk c, cs))\<rparr>"
  have d: "delivers ?os 0 (\<lambda>w. w)" by (simp add: delivers_def split: list.splits)
  show ?thesis
    using guest_response_is_first_line [OF d, of "[''{}'', [CHR 0x0A, CHR ''x'']]"]
    by (simp add: response_of_def MAX_RESPONSE_def utf8_head_def utf8_char_width_def)
qed

end
