(* ===== verification/Vm_Records.thy ===== *)
theory Vm_Records
  imports Vm_Meta Vm_Image
begin

text \<open>
  The data of the manager and its functions without effects (\<open>agent/src/vm/mod.rs\<close>): the
  in-memory record of a microVM, identifiers and paths, pool specifications and the choice of
  pooled machines, node ports, names of cache files, and the JSON list of machines.
\<close>

subsection \<open>Records\<close>

record Vm =
  v_id :: string
  v_name :: string
  v_dir_id :: string
  v_vcpus :: u32
  v_mem_mib :: u64
  v_state :: VmState
  v_pid :: "int option"
  v_slot :: "u32 option"
  v_ip :: "string option"
  v_vsock :: bool
  v_tenant_id :: "string option"
  v_exposes :: "ExposeEntry list"
  v_image :: string
  v_disk_gb :: u32
  v_image_sha256 :: "string option"

definition DEFAULT_IMAGE :: string where
  "DEFAULT_IMAGE = ''ubuntu-base''"

record CreateSpec =
  cs_id :: string
  cs_name :: string
  cs_vcpus :: u32
  cs_mem_mib :: u64
  cs_tenant_id :: "string option"
  cs_image :: string
  cs_image_sha256 :: "string option"
  cs_disk_gb :: u32

record PoolSpec =
  ps_image :: string
  ps_image_sha256 :: string
  ps_vcpus :: u32
  ps_mem_mib :: u64
  ps_disk_gb :: u32
  ps_count :: u32

datatype RootfsError = RootfsNotFound | NotStopped | CaptureInProgress

datatype ExposeError = ExposeNotFound | NoIp | Exhausted

subsection \<open>Identifiers and paths\<close>

definition vm_id_char :: "char \<Rightarrow> bool" where
  "vm_id_char b = (is_ascii_alphanumeric b \<or> b = CHR ''.'' \<or> b = CHR ''_'' \<or> b = CHR ''-'')"

definition valid_vm_id :: "string \<Rightarrow> bool" where
  "valid_vm_id vid
     = (if vid = [] \<or> 64 < length vid then False
        else if hd vid = CHR ''.'' \<or> hd vid = CHR ''-'' then False
        else if contains_str ''..'' vid then False
        else list_all vm_id_char vid)"

definition instance_path :: "string \<Rightarrow> string \<Rightarrow> string option" where
  "instance_path data_dir dir_id
     = (if \<not> valid_vm_id dir_id then None else Some (data_dir @ ''/instances/'' @ dir_id))"

definition find_vm :: "string \<Rightarrow> Vm list \<Rightarrow> Vm option" where
  "find_vm vid vms = List.find (\<lambda>v. v_id v = vid) vms"

definition dir_id_for_sync :: "Vm list \<Rightarrow> string \<Rightarrow> string" where
  "dir_id_for_sync vms vid = (case find_vm vid vms of Some v \<Rightarrow> v_dir_id v | None \<Rightarrow> vid)"

definition instance_dir_sync :: "Vm list \<Rightarrow> string \<Rightarrow> string \<Rightarrow> string option" where
  "instance_dir_sync vms data_dir vid = instance_path data_dir (dir_id_for_sync vms vid)"

definition sock_path_sync :: "Vm list \<Rightarrow> string \<Rightarrow> string \<Rightarrow> string option" where
  "sock_path_sync vms data_dir vid = map_option (\<lambda>d. d @ ''/fc.sock'') (instance_dir_sync vms data_dir vid)"

text \<open>\<open>iter_mut().find\<close> followed by an assignment: only the first match changes.\<close>

fun update_first :: "('a \<Rightarrow> bool) \<Rightarrow> ('a \<Rightarrow> 'a) \<Rightarrow> 'a list \<Rightarrow> 'a list" where
  "update_first P f [] = []"
| "update_first P f (x # xs) = (if P x then f x # xs else x # update_first P f xs)"

definition update_vm :: "string \<Rightarrow> (Vm \<Rightarrow> Vm) \<Rightarrow> Vm list \<Rightarrow> Vm list" where
  "update_vm vid f vms = update_first (\<lambda>v. v_id v = vid) f vms"

text \<open>\<open>iter().position\<close>, and removal at that position.\<close>

fun position :: "('a \<Rightarrow> bool) \<Rightarrow> 'a list \<Rightarrow> nat option" where
  "position P [] = None"
| "position P (x # xs) = (if P x then Some 0 else map_option Suc (position P xs))"

fun remove_first :: "('a \<Rightarrow> bool) \<Rightarrow> 'a list \<Rightarrow> 'a list" where
  "remove_first P [] = []"
| "remove_first P (x # xs) = (if P x then xs else x # remove_first P xs)"

subsection \<open>Pool specifications\<close>

definition sha_opt :: "PoolSpec \<Rightarrow> string option" where
  "sha_opt s = (if ps_image_sha256 s = [] then None else Some (ps_image_sha256 s))"

definition spec_key :: "PoolSpec \<Rightarrow> string" where
  "spec_key s = ps_image s @ ''|'' @ ps_image_sha256 s @ ''|'' @ show_nat (unat (ps_vcpus s)) @ ''|''
                @ show_nat (unat (ps_mem_mib s)) @ ''|'' @ show_nat (unat (ps_disk_gb s))"

definition backoff_active :: "(string \<Rightarrow> nat option) \<Rightarrow> string \<Rightarrow> nat \<Rightarrow> bool \<times> (string \<Rightarrow> nat option)" where
  "backoff_active m key now
     = (case m key of
          Some t \<Rightarrow> if now < t then (True, m) else (False, m(key := None))
        | None \<Rightarrow> (False, m))"

text \<open>Milliseconds.\<close>

definition REFILL_BACKOFF :: nat where
  "REFILL_BACKOFF = 300 * 1000"

definition validate_pool_spec :: "(string \<Rightarrow> string) \<Rightarrow> PoolSpec \<Rightarrow> string + unit" where
  "validate_pool_spec debug s
     = (if \<not> valid_image_name (ps_image s) then Inl (''invalid image name: '' @ debug (ps_image s))
        else if ps_image_sha256 s \<noteq> [] \<and> \<not> valid_sha256 (ps_image_sha256 s)
        then Inl (''invalid image_sha256 for '' @ ps_image s)
        else if \<not> (1 \<le> ps_vcpus s \<and> ps_vcpus s \<le> 16)
        then Inl (''vcpus out of range (1..=16): '' @ show_nat (unat (ps_vcpus s)))
        else if \<not> (64 \<le> ps_mem_mib s \<and> ps_mem_mib s \<le> 32768)
        then Inl (''mem_mib out of range (64..=32768): '' @ show_nat (unat (ps_mem_mib s)))
        else if 128 < ps_disk_gb s
        then Inl (''disk_gb above cap (128): '' @ show_nat (unat (ps_disk_gb s)))
        else if 8 < ps_count s then Inl (''count above cap (8): '' @ show_nat (unat (ps_count s)))
        else Inr ())"

definition pooled_shape_matches ::
    "Vm \<Rightarrow> string \<Rightarrow> string option \<Rightarrow> u32 \<Rightarrow> u64 \<Rightarrow> u32 \<Rightarrow> bool" where
  "pooled_shape_matches v img image_sha256 vcpus mem_mib disk_gb
     = (v_state v = Pooled \<and> v_image v = img \<and> v_image_sha256 v = image_sha256 \<and> v_vcpus v = vcpus
        \<and> v_mem_mib v = mem_mib \<and> v_disk_gb v = disk_gb)"

definition find_pooled_match ::
    "Vm list \<Rightarrow> string \<Rightarrow> string option \<Rightarrow> u32 \<Rightarrow> u64 \<Rightarrow> u32 \<Rightarrow> nat option" where
  "find_pooled_match vms img image_sha256 vcpus mem_mib disk_gb
     = position (\<lambda>v. pooled_shape_matches v img image_sha256 vcpus mem_mib disk_gb) vms"

definition spec_wants :: "Vm \<Rightarrow> PoolSpec \<Rightarrow> bool" where
  "spec_wants v s
     = pooled_shape_matches v (ps_image s) (sha_opt s) (ps_vcpus s) (ps_mem_mib s) (ps_disk_gb s)"

fun surplus_loop :: "PoolSpec list \<Rightarrow> Vm list \<Rightarrow> u32 list \<Rightarrow> string list" where
  "surplus_loop specs [] kept = []"
| "surplus_loop specs (v # vs) kept
     = (if v_state v \<noteq> Pooled then surplus_loop specs vs kept
        else case position (spec_wants v) specs of
               None \<Rightarrow> v_id v # surplus_loop specs vs kept
             | Some i \<Rightarrow>
                 if kept ! i < ps_count (specs ! i)
                 then surplus_loop specs vs (kept[i := kept ! i + 1])
                 else v_id v # surplus_loop specs vs kept)"

definition surplus_pooled_ids :: "Vm list \<Rightarrow> PoolSpec list \<Rightarrow> string list" where
  "surplus_pooled_ids vms specs = surplus_loop specs vms (replicate (length specs) 0)"

definition pooled_count_matching :: "Vm list \<Rightarrow> PoolSpec \<Rightarrow> u32" where
  "pooled_count_matching vms s
     = of_nat (length (filter (\<lambda>v. v_state v = Pooled \<and> v_image v = ps_image s \<and> v_vcpus v = ps_vcpus s
                 \<and> v_mem_mib v = ps_mem_mib s \<and> v_disk_gb v = ps_disk_gb s) vms))"

definition pool_specs :: "u32 \<Rightarrow> PoolSpec list \<Rightarrow> PoolSpec list" where
  "pool_specs pool_target template_pools
     = (if 0 < pool_target
        then [\<lparr>ps_image = DEFAULT_IMAGE, ps_image_sha256 = [], ps_vcpus = 1, ps_mem_mib = 256, ps_disk_gb = 0,
               ps_count = pool_target\<rparr>]
        else []) @ template_pools"

subsection \<open>Ports and cache files\<close>

definition NODE_PORT_MIN :: u16 where "NODE_PORT_MIN = 20000"

definition NODE_PORT_MAX :: u16 where "NODE_PORT_MAX = 29999"

definition lowest_free_node_port :: "u16 set \<Rightarrow> u16 option" where
  "lowest_free_node_port used
     = List.find (\<lambda>p. p \<notin> used) (map of_nat [unat NODE_PORT_MIN ..< Suc (unat NODE_PORT_MAX)])"

definition gc_image_for_entry :: "string \<Rightarrow> string option" where
  "gc_image_for_entry fname
     = (let stem = (case strip_suffix ''.ext4.sha256'' fname of
                      Some s \<Rightarrow> Some s
                    | None \<Rightarrow> (case strip_suffix ''.ext4'' fname of
                        Some s \<Rightarrow> Some s
                      | None \<Rightarrow> Option.bind (strip_prefix ''.'' fname) (strip_suffix ''.partial'')))
        in case stem of
             None \<Rightarrow> None
           | Some img \<Rightarrow> if valid_image_name img then Some img else None)"

definition image_referenced :: "Vm list \<Rightarrow> PoolSpec list \<Rightarrow> string \<Rightarrow> bool" where
  "image_referenced vms template_pools img
     = (list_ex (\<lambda>v. v_image v = img) vms \<or> list_ex (\<lambda>s. ps_image s = img) template_pools)"

subsection \<open>Taps\<close>

definition tap_pin_for_slot :: "u32 \<Rightarrow> string \<times> GuestMac" where
  "tap_pin_for_slot slot = (tap_name slot, guest_mac_for_slot slot)"

definition taps_to_repin :: "Vm list \<Rightarrow> (string \<times> u32 \<times> string) list" where
  "taps_to_repin vms
     = List.map_filter (\<lambda>v. case (v_slot v, v_ip v) of
           (Some s, Some ip) \<Rightarrow> Some (v_id v, s, ip) | _ \<Rightarrow> None)
         (filter (\<lambda>v. v_state v = Running \<or> v_state v = Paused) vms)"

subsection \<open>The list of machines\<close>

definition push_kv_str :: "string \<Rightarrow> string \<Rightarrow> string" where
  "push_kv_str key val = json_str key @ '':'' @ json_str val"

definition vm_text :: "Vm \<Rightarrow> string" where
  "vm_text v
     = ''{'' @ push_kv_str ''id'' (v_id v) @ '','' @ push_kv_str ''name'' (v_name v) @ '',''
       @ push_kv_str ''state'' (as_str (v_state v)) @ '',''
       @ jkey ''vcpus'' @ show_nat (unat (v_vcpus v)) @ '',''
       @ jkey ''mem_mib'' @ show_nat (unat (v_mem_mib v)) @ '',''
       @ jkey ''ip'' @ (case v_ip v of Some ip \<Rightarrow> json_str ip | None \<Rightarrow> ''null'')
       @ '','' @ jkey ''pid'' @ (case v_pid v of Some p \<Rightarrow> show_int p | None \<Rightarrow> ''null'') @ ''}''"

definition list_json :: "Vm list \<Rightarrow> string" where
  "list_json vms = ''{'' @ jkey ''vms'' @ ''['' @ join_with '','' (map vm_text vms) @ '']}''"

definition live_count :: "Vm list \<Rightarrow> u32" where
  "live_count vms = of_nat (length (filter (\<lambda>v. v_state v = Running \<or> v_state v = Paused) vms))"

definition pool_count :: "Vm list \<Rightarrow> u32" where
  "pool_count vms = of_nat (length (filter (\<lambda>v. v_state v = Pooled) vms))"

definition ip_of :: "Vm list \<Rightarrow> string \<Rightarrow> string option" where
  "ip_of vms vid = Option.bind (find_vm vid vms) v_ip"

subsection \<open>Lemmas on searching and updating\<close>

lemma position_Some:
  "position P xs = Some i \<longleftrightarrow> i < length xs \<and> P (xs ! i) \<and> (\<forall>j<i. \<not> P (xs ! j))"
proof (induction xs arbitrary: i)
  case (Cons x xs)
  then show ?case by (cases i) (auto simp: less_Suc_eq_0_disj)
qed simp

lemma position_None: "position P xs = None \<longleftrightarrow> (\<forall>x\<in>set xs. \<not> P x)"
  by (induction xs) auto

lemma find_vm_Some: "find_vm vid vms = Some v \<Longrightarrow> v \<in> set vms \<and> v_id v = vid"
  by (auto simp: find_vm_def find_Some_iff)

lemma find_vm_None: "find_vm vid vms = None \<longleftrightarrow> vid \<notin> v_id ` set vms"
  by (auto simp: find_vm_def find_None_iff)

lemma find_vm_Cons [simp]: "find_vm vid (v # vms) = (if v_id v = vid then Some v else find_vm vid vms)"
  "find_vm vid [] = None"
  by (simp_all add: find_vm_def)

lemma find_vm_append: "find_vm vid (xs @ ys) = (case find_vm vid xs of Some v \<Rightarrow> Some v | None \<Rightarrow> find_vm vid ys)"
  by (induction xs) auto

lemma update_vm_simps [simp]:
  "update_vm vid f [] = []"
  "update_vm vid f (v # vms) = (if v_id v = vid then f v # vms else v # update_vm vid f vms)"
  by (simp_all add: update_vm_def)

lemma find_update_vm:
  "(\<And>v. v_id (f v) = v_id v) \<Longrightarrow> find_vm i (update_vm j f vms)
     = (if i = j then map_option f (find_vm i vms) else find_vm i vms)"
  by (induction vms) auto

lemma set_update_vm: "v \<in> set (update_vm vid f vms) \<Longrightarrow> v \<in> set vms \<or> (\<exists>u\<in>set vms. v_id u = vid \<and> v = f u)"
  by (induction vms) (auto split: if_splits)

lemma map_update_vm: "(\<And>v. v_id v = vid \<Longrightarrow> g (f v) = g v) \<Longrightarrow> map g (update_vm vid f vms) = map g vms"
  by (induction vms) auto

lemma update_vm_none: "find_vm vid vms = None \<Longrightarrow> update_vm vid f vms = vms"
  by (induction vms) (auto split: if_splits)

subsection \<open>Confinement of paths\<close>

lemma valid_vm_id_chars:
  assumes "valid_vm_id vid"
  shows "vid \<noteq> []" "CHR ''/'' \<notin> set vid" "CHR 0x00 \<notin> set vid" "vid \<noteq> ''.''" "vid \<noteq> ''..''"
  using assms by (auto simp: valid_vm_id_def list_all_iff vm_id_char_def ascii_defs starts_with_def split: if_splits)

lemma split_on_append: "split_on d (s @ d # t) = split_on d s @ split_on d t"
proof (induction s)
  case (Cons c s)
  then show ?case by (cases "split_on d s") (auto split: list.splits)
qed simp

text \<open>
  The directory of an instance is a direct child of the instances directory: a path that the
  manager derives has the components of \<open>data_dir/instances\<close> and then one more, the
  identifier, which is no empty, current or parent directory component and has neither a
  slash nor a zero byte.
\<close>

theorem instance_path_confined:
  assumes "instance_path data_dir dir_id = Some p"
  shows "split_on (CHR ''/'') p = split_on (CHR ''/'') (data_dir @ ''/instances'') @ [dir_id]
         \<and> dir_id \<notin> {[], ''.'', ''..''} \<and> CHR ''/'' \<notin> set dir_id \<and> CHR 0x00 \<notin> set dir_id"
proof -
  have v: "valid_vm_id dir_id" and p: "p = (data_dir @ ''/instances'') @ CHR ''/'' # dir_id"
    using assms by (auto simp: instance_path_def split: if_splits)
  show ?thesis
    using valid_vm_id_chars [OF v] by (simp add: p split_on_append del: append_assoc)
qed

theorem instance_path_confined_witness:
  "\<exists>p. instance_path ''/var/lib/felucca'' ''sb-0f'' = Some p
       \<and> split_on (CHR ''/'') p = [[], ''var'', ''lib'', ''felucca'', ''instances'', ''sb-0f'']"
proof -
  have i: "instance_path ''/var/lib/felucca'' ''sb-0f'' = Some ''/var/lib/felucca/instances/sb-0f''"
    by (simp add: instance_path_def valid_vm_id_def vm_id_char_def ascii_defs starts_with_def)
  show ?thesis using instance_path_confined [OF i] i by simp
qed

subsection \<open>Surplus pool machines\<close>

text \<open>
  The specification that governs a pooled machine is the first whose shape it has; a machine is
  surplus when no specification governs it, or when as many machines as its specification asks
  for precede it.
\<close>

definition governor :: "PoolSpec list \<Rightarrow> Vm \<Rightarrow> nat option" where
  "governor specs v = position (spec_wants v) specs"

definition rank :: "PoolSpec list \<Rightarrow> Vm list \<Rightarrow> nat \<Rightarrow> nat" where
  "rank specs pre i = length (filter (\<lambda>v. governor specs v = Some i) pre)"

definition is_surplus :: "PoolSpec list \<Rightarrow> Vm list \<Rightarrow> Vm \<Rightarrow> bool" where
  "is_surplus specs pre v
     = (v_state v = Pooled \<and>
        (case governor specs v of
           None \<Rightarrow> True
         | Some i \<Rightarrow> unat (ps_count (specs ! i)) \<le> rank specs pre i))"

definition kept_ok :: "PoolSpec list \<Rightarrow> Vm list \<Rightarrow> u32 list \<Rightarrow> bool" where
  "kept_ok specs pre kept
     = (length kept = length specs \<and>
        (\<forall>i<length specs. unat (kept ! i) = min (unat (ps_count (specs ! i))) (rank specs pre i)))"

lemma governor_pooled: "governor specs v = Some i \<Longrightarrow> v_state v = Pooled \<and> i < length specs"
  by (auto simp: governor_def position_Some spec_wants_def pooled_shape_matches_def)

lemma rank_snoc: "rank specs (pre @ [v]) i = rank specs pre i + (if governor specs v = Some i then 1 else 0)"
  by (simp add: rank_def)

lemma unat_plus1: "(a :: u32) < b \<Longrightarrow> unat (a + 1) = Suc (unat a)"
  using unsigned_less [of b, where 'a = nat] by (simp add: word_less_nat_alt unat_word_ariths)

lemma kept_ok_skip:
  assumes "kept_ok specs pre kept" "\<And>i. governor specs v = Some i \<Longrightarrow> \<not> kept ! i < ps_count (specs ! i)"
  shows "kept_ok specs (pre @ [v]) kept"
  using assms by (auto simp: kept_ok_def rank_snoc word_less_nat_alt governor_pooled)

lemma kept_ok_keep:
  assumes "kept_ok specs pre kept" "governor specs v = Some i" "kept ! i < ps_count (specs ! i)"
  shows "kept_ok specs (pre @ [v]) (kept[i := kept ! i + 1])"
  using assms unat_plus1 [OF assms(3)] governor_pooled [OF assms(2)]
  by (auto simp: kept_ok_def rank_snoc nth_list_update word_less_nat_alt)

lemma surplus_loop_spec:
  "kept_ok specs pre kept \<Longrightarrow>
   surplus_loop specs vs kept
     = map (\<lambda>k. v_id (vs ! k)) (filter (\<lambda>k. is_surplus specs (pre @ take k vs) (vs ! k)) [0..<length vs])"
proof (induction vs arbitrary: pre kept)
  case (Cons v vs)
  have upt: "[0..<length (v # vs)] = 0 # map Suc [0..<length vs]"
    by (simp add: upt_conv_Cons map_Suc_upt del: upt_Suc)
  have step: "map (\<lambda>k. v_id ((v # vs) ! k)) (filter (\<lambda>k. is_surplus specs (pre @ take k (v # vs)) ((v # vs) ! k))
        [0..<length (v # vs)])
      = (if is_surplus specs pre v then [v_id v] else [])
        @ map (\<lambda>k. v_id (vs ! k)) (filter (\<lambda>k. is_surplus specs ((pre @ [v]) @ take k vs) (vs ! k)) [0..<length vs])"
    unfolding upt by (simp add: filter_map o_def)
  show ?case
  proof (cases "governor specs v")
    case None
    then show ?thesis
      unfolding step using Cons.IH [OF kept_ok_skip [OF Cons.prems, of v]]
      by (simp add: is_surplus_def governor_def)
  next
    case (Some i)
    note g = governor_pooled [OF Some]
    have k: "unat (kept ! i) = min (unat (ps_count (specs ! i))) (rank specs pre i)"
      using Cons.prems g by (simp add: kept_ok_def)
    show ?thesis
    proof (cases "kept ! i < ps_count (specs ! i)")
      case True
      then have "\<not> is_surplus specs pre v"
        using k Some by (simp add: is_surplus_def word_less_nat_alt min_def split: if_splits)
      then show ?thesis
        unfolding step using Cons.IH [OF kept_ok_keep [OF Cons.prems Some True]] True Some g
        by (simp add: governor_def)
    next
      case False
      then have "is_surplus specs pre v"
        using k Some g by (simp add: is_surplus_def word_less_nat_alt min_def split: if_splits)
      then show ?thesis
        unfolding step using Cons.IH [OF kept_ok_skip [OF Cons.prems, of v]] False Some g
        by (simp add: governor_def)
    qed
  qed
qed simp

text \<open>
  The machines that a refill drains are exactly the pooled ones that no specification wants
  or that come after as many machines of their specification as it asks for: the counting loop
  agrees with this reading for every list of machines and specifications.
\<close>

theorem surplus_pooled_ids_spec:
  "surplus_pooled_ids vms specs
     = map (\<lambda>k. v_id (vms ! k)) (filter (\<lambda>k. is_surplus specs (take k vms) (vms ! k)) [0..<length vms])"
proof -
  have "kept_ok specs [] (replicate (length specs) 0)" by (simp add: kept_ok_def rank_def)
  from surplus_loop_spec [OF this, of vms] show ?thesis by (simp add: surplus_pooled_ids_def)
qed

subsection \<open>Ports, cache files and the list\<close>

lemma of_nat_range:
  "set (map of_nat [unat a ..< Suc (unat b)]) = {p :: 'a::len word. a \<le> p \<and> p \<le> b}"
proof (intro set_eqI iffI)
  fix p :: "'a word"
  assume "p \<in> set (map of_nat [unat a ..< Suc (unat b)])"
  then obtain n where n: "p = of_nat n" "unat a \<le> n" "n \<le> unat b" by auto
  then have "n < 2 ^ LENGTH('a)"
    using unsigned_less [of b, where 'a = nat] by linarith
  then have "unat p = n" using n by (simp add: unat_of_nat)
  then show "p \<in> {p. a \<le> p \<and> p \<le> b}" using n by (simp add: word_le_nat_alt)
next
  fix p :: "'a word"
  assume "p \<in> {p. a \<le> p \<and> p \<le> b}"
  then have "unat p \<in> {unat a ..< Suc (unat b)}" by (simp add: word_le_nat_alt)
  then have "(of_nat (unat p) :: 'a word) \<in> set (map of_nat [unat a ..< Suc (unat b)])"
    unfolding set_map set_upt by (rule imageI)
  then show "p \<in> set (map of_nat [unat a ..< Suc (unat b)])" by (simp only: of_nat_unat ucast_id)
qed

lemmas node_ports = of_nat_range [of NODE_PORT_MIN NODE_PORT_MAX]

lemma find_SomeD: "List.find P xs = Some x \<Longrightarrow> x \<in> set xs \<and> P x"
  by (auto simp: find_Some_iff)

lemma lowest_free_node_port_Some:
  assumes "lowest_free_node_port used = Some p"
  shows "p \<notin> used" "NODE_PORT_MIN \<le> p" "p \<le> NODE_PORT_MAX"
  using find_SomeD [OF assms [unfolded lowest_free_node_port_def], unfolded node_ports] by blast+

lemma lowest_free_node_port_None:
  "lowest_free_node_port used = None \<longleftrightarrow> {p. NODE_PORT_MIN \<le> p \<and> p \<le> NODE_PORT_MAX} \<subseteq> used"
  unfolding lowest_free_node_port_def find_None_iff node_ports by blast

text \<open>
  The image cache only claims its own files: an entry of the images directory is attributed
  to an image exactly when the name of the image is valid and the entry is the image file, its
  sidecar or its partial download.
\<close>

theorem gc_image_for_entry_spec:
  "gc_image_for_entry fname = Some img \<longleftrightarrow>
     valid_image_name img
     \<and> fname \<in> {img @ ''.ext4'', img @ ''.ext4.sha256'', ''.'' @ img @ ''.partial''}"
proof
  assume "gc_image_for_entry fname = Some img"
  then have v: "valid_image_name img" and c: "strip_suffix ''.ext4.sha256'' fname = Some img
      \<or> strip_suffix ''.ext4'' fname = Some img
      \<or> Option.bind (strip_prefix ''.'' fname) (strip_suffix ''.partial'') = Some img"
    unfolding gc_image_for_entry_def Let_def by (auto split: option.split_asm if_split_asm)
  then show "valid_image_name img \<and> fname \<in> {img @ ''.ext4'', img @ ''.ext4.sha256'', ''.'' @ img @ ''.partial''}"
    by (auto simp: bind_eq_Some_conv strip_suffix_Some strip_prefix_Some)
next
  assume a: "valid_image_name img \<and> fname \<in> {img @ ''.ext4'', img @ ''.ext4.sha256'', ''.'' @ img @ ''.partial''}"
  have n: "strip_suffix ''.ext4.sha256'' (x @ ''.ext4'') = None" "strip_suffix ''.ext4.sha256'' (x @ ''.partial'') = None"
    "strip_suffix ''.ext4'' (x @ ''.partial'') = None" for x
    by (simp_all add: strip_suffix_def)
  have q: "strip_suffix q (x @ q) = Some x" for x q by (simp only: strip_suffix_Some)
  have v: "valid_image_name img" using a by blast
  consider "fname = img @ ''.ext4''" | "fname = img @ ''.ext4.sha256''" | "fname = (''.'' @ img) @ ''.partial''"
    using a by auto
  then show "gc_image_for_entry fname = Some img"
  proof cases
    case 1
    have "strip_suffix ''.ext4.sha256'' fname = None" "strip_suffix ''.ext4'' fname = Some img"
      unfolding 1 by (rule n q)+
    then show ?thesis using v by (simp add: gc_image_for_entry_def)
  next
    case 2
    have "strip_suffix ''.ext4.sha256'' fname = Some img" unfolding 2 by (rule q)
    then show ?thesis using v by (simp add: gc_image_for_entry_def)
  next
    case 3
    have "strip_suffix ''.ext4.sha256'' fname = None" "strip_suffix ''.ext4'' fname = None"
      unfolding 3 by (rule n)+
    moreover have "strip_prefix ''.'' fname = Some (img @ ''.partial'')"
      using 3 by (simp only: strip_prefix_Some append_assoc)
    ultimately show ?thesis using v q [of "''.partial''" img] by (simp add: gc_image_for_entry_def)
  qed
qed

definition vm_json :: "Vm \<Rightarrow> json" where
  "vm_json v = JObj [(''id'', JStr (v_id v)), (''name'', JStr (v_name v)), (''state'', JStr (as_str (v_state v))),
     (''vcpus'', JNum (uint (v_vcpus v))), (''mem_mib'', JNum (uint (v_mem_mib v))),
     (''ip'', opt_json JStr (v_ip v)), (''pid'', opt_json JNum (v_pid v))]"

lemma vm_text_print: "vm_text v = print_json (vm_json v)"
  by (simp add: vm_text_def vm_json_def push_kv_str_def jkey_plain plain_json_def opt_json_def split: option.splits)

lemma list_json_print: "list_json vms = print_json (JObj [(''vms'', JArr (map vm_json vms))])"
proof -
  have t: "map vm_text vms = map (\<lambda>v. print_json (vm_json v)) vms" by (simp add: vm_text_print)
  show ?thesis unfolding list_json_def t by (simp add: print_elems_map jkey_plain plain_json_def)
qed

text \<open>
  The list of machines is one JSON object per machine with exactly seven keys, whatever the
  tenants chose as names: no name can add or change a field.
\<close>

theorem list_json_is_json:
  "parse_json (list_json vms) = Some (JObj [(''vms'', JArr (map vm_json vms))])"
  by (simp only: list_json_print parse_print_json)

end
