(* ===== verification/Vm_Manager.thy ===== *)
theory Vm_Manager
  imports Vm_Records Fc_Api Guest_Client
begin

text \<open>
  The lifecycle manager (\<open>agent/src/vm/mod.rs\<close>): its state and every operation.  The state is one
  record: the fields of \<open>Manager\<close>, those of the \<open>Inner\<close> behind its mutex, and the state of the
  networking module.  An operation runs alone from its first step to its last; the critical
  sections in which the source takes the lock are the reads and updates of the record between
  two effects.  Processes that the source reaps in a spawned task end by \<open>on_fc_exit\<close>, a step of
  its own.  Log output is not modelled.
\<close>

subsection \<open>State\<close>

record 'w Manager =
  mg_data_dir :: string
  mg_net_on :: bool
  mg_cidr :: Cidr
  mg_pool_target :: u32
  mg_control_plane :: string
  mg_token :: string
  mg_vms :: "Vm list"
  mg_allocator :: "Allocator option"
  mg_template_pools :: "PoolSpec list"
  mg_capturing :: "string set"
  mg_backoff :: "string \<Rightarrow> nat option"
  mg_host :: "'w host"

definition manager_new :: "string \<Rightarrow> bool \<Rightarrow> Cidr \<Rightarrow> u32 \<Rightarrow> string \<Rightarrow> string \<Rightarrow> 'w host \<Rightarrow> 'w Manager" where
  "manager_new data_dir net_on cidr pool_target control_plane token h
     = \<lparr>mg_data_dir = data_dir, mg_net_on = net_on, mg_cidr = cidr, mg_pool_target = pool_target,
        mg_control_plane = control_plane, mg_token = token, mg_vms = [], mg_allocator = None,
        mg_template_pools = [], mg_capturing = {}, mg_backoff = (\<lambda>_. None), mg_host = h\<rparr>"

abbreviation mg_world :: "'w Manager \<Rightarrow> 'w" where
  "mg_world mg \<equiv> h_world (mg_host mg)"

definition on_world :: "('w \<Rightarrow> 'a \<times> 'w) \<Rightarrow> 'w Manager \<Rightarrow> 'a \<times> 'w Manager" where
  "on_world f mg = (let (r, w) = f (mg_world mg) in (r, mg\<lparr>mg_host := (mg_host mg)\<lparr>h_world := w\<rparr>\<rparr>))"

definition on_host :: "('w host \<Rightarrow> 'a \<times> 'w host) \<Rightarrow> 'w Manager \<Rightarrow> 'a \<times> 'w Manager" where
  "on_host f mg = (let (r, h) = f (mg_host mg) in (r, mg\<lparr>mg_host := h\<rparr>))"

definition upd_vms :: "(Vm list \<Rightarrow> Vm list) \<Rightarrow> 'w Manager \<Rightarrow> 'w Manager" where
  "upd_vms f mg = mg\<lparr>mg_vms := f (mg_vms mg)\<rparr>"

definition set_state :: "string \<Rightarrow> VmState \<Rightarrow> 'w Manager \<Rightarrow> 'w Manager" where
  "set_state vid st mg = upd_vms (update_vm vid (\<lambda>v. v\<lparr>v_state := st\<rparr>)) mg"

definition set_pid :: "string \<Rightarrow> int option \<Rightarrow> 'w Manager \<Rightarrow> 'w Manager" where
  "set_pid vid pid mg = upd_vms (update_vm vid (\<lambda>v. v\<lparr>v_pid := pid\<rparr>)) mg"

definition instance_dir :: "'w Manager \<Rightarrow> string \<Rightarrow> string option" where
  "instance_dir mg vid = instance_dir_sync (mg_vms mg) (mg_data_dir mg) vid"

definition sock_path :: "'w Manager \<Rightarrow> string \<Rightarrow> string option" where
  "sock_path mg vid = sock_path_sync (mg_vms mg) (mg_data_dir mg) vid"

subsection \<open>Slots\<close>

definition claim_slot :: "'w Manager \<Rightarrow> u32 option \<times> 'w Manager" where
  "claim_slot mg
     = (case mg_allocator mg of
          None \<Rightarrow> (None, mg)
        | Some a \<Rightarrow> let (s, a') = alloc_claim a in (s, mg\<lparr>mg_allocator := Some a'\<rparr>))"

definition free_slot :: "u32 \<Rightarrow> 'w Manager \<Rightarrow> 'w Manager" where
  "free_slot idx mg = mg\<lparr>mg_allocator := map_option (\<lambda>a. alloc_free a idx) (mg_allocator mg)\<rparr>"

definition reserve_slot :: "u32 \<Rightarrow> 'w Manager \<Rightarrow> 'w Manager" where
  "reserve_slot idx mg = mg\<lparr>mg_allocator := map_option (\<lambda>a. alloc_reserve a idx) (mg_allocator mg)\<rparr>"

definition ip_for_slot :: "'w Manager \<Rightarrow> u32 \<Rightarrow> string option" where
  "ip_for_slot mg idx = map_option (\<lambda>a. alloc_ip_for a idx) (mg_allocator mg)"

subsection \<open>Rulesets from the list of machines\<close>

definition isolation_ok :: "'w Manager \<Rightarrow> bool" where
  "isolation_ok mg = (\<not> mg_net_on mg \<or> netfilter_ready (mg_host mg))"

definition isolation_members :: "Vm list \<Rightarrow> (string \<times> string) list" where
  "isolation_members vms
     = List.map_filter (\<lambda>v. map_option (\<lambda>ip. (case v_tenant_id v of Some t \<Rightarrow> t | None \<Rightarrow> [], ip)) (v_ip v)) vms"

definition refresh_isolation :: "'w os \<Rightarrow> 'w Manager \<Rightarrow> bool \<times> 'w Manager" where
  "refresh_isolation os mg
     = (if \<not> mg_net_on mg then (True, mg)
        else on_host (rebuild_isolation (os_net os) (os_visit os) (isolation_members (mg_vms mg))) mg)"

definition ingress_members :: "Vm list \<Rightarrow> (u16 \<times> string \<times> u16) list" where
  "ingress_members vms
     = concat (map (\<lambda>v. case v_ip v of
           Some ip \<Rightarrow> map (\<lambda>e. (node_port e, ip, guest_port e)) (v_exposes v)
         | None \<Rightarrow> []) vms)"

definition refresh_ingress :: "'w os \<Rightarrow> 'w Manager \<Rightarrow> 'w Manager" where
  "refresh_ingress os mg
     = (if \<not> mg_net_on mg then mg
        else mg\<lparr>mg_host := rebuild_ingress (os_net os) (ingress_members (mg_vms mg)) (mg_host mg)\<rparr>)"

definition setup_host :: "'w os \<Rightarrow> 'w Manager \<Rightarrow> 'w Manager" where
  "setup_host os mg
     = (if \<not> mg_net_on mg then mg
        else
          let mg1 = mg\<lparr>mg_allocator := Some (alloc_new (mg_cidr mg))\<rparr>
          in snd (on_host (ensure_bridge (os_net os) (mg_cidr mg)) mg1))"

subsection \<open>Metadata\<close>

definition vm_meta :: "Vm \<Rightarrow> Meta" where
  "vm_meta v
     = \<lparr>m_id = v_id v, m_name = v_name v, m_dir_id = v_dir_id v, m_vcpus = v_vcpus v, m_mem_mib = v_mem_mib v,
        m_pid = v_pid v, m_slot = v_slot v, m_ip = v_ip v, m_state = v_state v, m_vsock = v_vsock v,
        m_tenant_id = v_tenant_id v, m_exposes = v_exposes v,
        m_image = (if v_image v = DEFAULT_IMAGE then None else Some (v_image v)),
        m_disk_gb = (if v_disk_gb v = 0 then None else Some (v_disk_gb v)),
        m_image_sha256 = v_image_sha256 v\<rparr>"

definition write_meta :: "'w os \<Rightarrow> string \<Rightarrow> ('w Manager, unit) step" where
  "write_meta os vid mg
     = attempt (ok_or ''NotFound'' (find_vm vid (mg_vms mg)), mg) (\<lambda>v mg.
       attempt (ok_or ''InvalidId'' (instance_path (mg_data_dir mg) (v_dir_id v)), mg) (\<lambda>dir_path mg.
       let meta_path = dir_path @ ''/meta.json''
       in map_err (\<lambda>e. ''write meta '' @ meta_path @ '': '' @ e)
            (on_world (os_write os meta_path (to_json (vm_meta v))) mg)))"

subsection \<open>Exposing ports\<close>

definition used_node_ports :: "Vm list \<Rightarrow> u16 set" where
  "used_node_ports vms = set (concat (map (\<lambda>v. map node_port (v_exposes v)) vms))"

definition expose :: "'w os \<Rightarrow> string \<Rightarrow> u16 \<Rightarrow> 'w Manager \<Rightarrow> (ExposeError + u16) \<times> 'w Manager" where
  "expose os vid gport mg
     = (case find_vm vid (mg_vms mg) of
          None \<Rightarrow> (Inl ExposeNotFound, mg)
        | Some v \<Rightarrow>
          if v_ip v = None then (Inl NoIp, mg)
          else
            (case List.find (\<lambda>e. guest_port e = gport) (v_exposes v) of
               Some e \<Rightarrow> (Inr (node_port e), mg)
             | None \<Rightarrow>
               (case lowest_free_node_port (used_node_ports (mg_vms mg)) of
                  None \<Rightarrow> (Inl Exhausted, mg)
                | Some np \<Rightarrow>
                  let mg1 = upd_vms (update_vm vid (\<lambda>v.
                              v\<lparr>v_exposes := v_exposes v @ [\<lparr>guest_port = gport, node_port = np\<rparr>]\<rparr>)) mg;
                      mg2 = snd (write_meta os vid mg1)
                  in (Inr np, refresh_ingress os mg2))))"

definition unexpose :: "'w os \<Rightarrow> string \<Rightarrow> u16 \<Rightarrow> 'w Manager \<Rightarrow> (ExposeError + unit) \<times> 'w Manager" where
  "unexpose os vid gport mg
     = (case find_vm vid (mg_vms mg) of
          None \<Rightarrow> (Inl ExposeNotFound, mg)
        | Some v \<Rightarrow>
          let kept = filter (\<lambda>e. guest_port e \<noteq> gport) (v_exposes v);
              mg1 = upd_vms (update_vm vid (\<lambda>v. v\<lparr>v_exposes := kept\<rparr>)) mg
          in if length kept \<noteq> length (v_exposes v)
             then (Inr (), refresh_ingress os (snd (write_meta os vid mg1)))
             else (Inr (), mg1))"

subsection \<open>Pools and captures\<close>

fun validate_all :: "(string \<Rightarrow> string) \<Rightarrow> PoolSpec list \<Rightarrow> string + unit" where
  "validate_all debug [] = Inr ()"
| "validate_all debug (s # ss) = (case validate_pool_spec debug s of Inl e \<Rightarrow> Inl e | Inr _ \<Rightarrow> validate_all debug ss)"

definition set_pools :: "'w os \<Rightarrow> PoolSpec list \<Rightarrow> ('w Manager, unit) step" where
  "set_pools os specs mg
     = attempt (validate_all (os_debug os) specs, mg) (\<lambda>_ mg. (Inr (), mg\<lparr>mg_template_pools := specs\<rparr>))"

definition begin_capture :: "string \<Rightarrow> 'w Manager \<Rightarrow> (RootfsError + string) \<times> 'w Manager" where
  "begin_capture vid mg
     = (case find_vm vid (mg_vms mg) of
          None \<Rightarrow> (Inl RootfsNotFound, mg)
        | Some v \<Rightarrow>
          if v_state v \<noteq> Stopped then (Inl NotStopped, mg)
          else
            (case instance_path (mg_data_dir mg) (v_dir_id v) of
               None \<Rightarrow> (Inl RootfsNotFound, mg)
             | Some dir \<Rightarrow>
               if vid \<in> mg_capturing mg then (Inl CaptureInProgress, mg)
               else (Inr (dir @ ''/rootfs.ext4''), mg\<lparr>mg_capturing := insert vid (mg_capturing mg)\<rparr>)))"

definition end_capture :: "string \<Rightarrow> 'w Manager \<Rightarrow> 'w Manager" where
  "end_capture vid mg = mg\<lparr>mg_capturing := mg_capturing mg - {vid}\<rparr>"

subsection \<open>Files and processes\<close>

definition create_instance_dir :: "'w os \<Rightarrow> string \<Rightarrow> ('w, unit) step" where
  "create_instance_dir os path w
     = attempt (os_mkdir_all os path 448 w) (\<lambda>_ w. os_chmod os path 448 w)"

definition open_serial_log :: "'w os \<Rightarrow> string \<Rightarrow> ('w, unit) step" where
  "open_serial_log os path w = os_open os path True 384 w"

text \<open>The arrow of the message is U+2192.\<close>

definition copy_rootfs :: "'w os \<Rightarrow> string \<Rightarrow> string \<Rightarrow> ('w, unit) step" where
  "copy_rootfs os src dst w
     = (case os_exec os [''cp'', ''--reflink=auto'', src, dst] [] w of
          (r, w1) \<Rightarrow>
            if success r then (Inr (), w1)
            else map_err (\<lambda>e. ''copy '' @ src @ '' '' @ map char_of [0xE2, 0x86, 0x92 :: nat] @ '' '' @ dst @ '': '' @ e)
                   (os_copy os src dst w1))"

definition kill_and_reap :: "'w os \<Rightarrow> int \<Rightarrow> 'w \<Rightarrow> 'w" where
  "kill_and_reap os pid w = os_waitpid os pid (snd (os_kill os pid SIGKILL w))"

definition spawn_fc :: "'w os \<Rightarrow> string \<Rightarrow> string \<Rightarrow> string \<Rightarrow> ('w, int) step" where
  "spawn_fc os what sock log_path w
     = attempt (map_err (\<lambda>e. ''open serial.log: '' @ e) (open_serial_log os log_path w)) (\<lambda>_ w.
       attempt (map_err (\<lambda>e. what @ e) (os_spawn os [''firecracker'', ''--api-sock'', sock] log_path w)) (\<lambda>p w.
       attempt (ok_or ''NoPid'' p, w) (\<lambda>p w. (Inr (sint p), w))))"

text \<open>
  The poll for the API socket, with the number of rounds it may still make; \<open>None\<close> when they
  run out.  With a clock that advances by what is slept, 61 rounds are enough
  (\<open>await_socket_enough\<close>).
\<close>

fun await_socket :: "'w os \<Rightarrow> nat \<Rightarrow> string \<Rightarrow> nat \<Rightarrow> 'w \<Rightarrow> bool option \<times> 'w" where
  "await_socket os 0 sock deadline w = (None, w)"
| "await_socket os (Suc n) sock deadline w
     = (if os_there os sock w then (Some True, w)
        else if deadline \<le> os_now os w then (Some False, w)
        else await_socket os n sock deadline (os_sleep os 50 w))"

definition POLL_ROUNDS :: nat where "POLL_ROUNDS = 61"

definition await_api :: "'w os \<Rightarrow> string \<Rightarrow> int \<Rightarrow> ('w, unit) step" where
  "await_api os sock pid w
     = (case await_socket os POLL_ROUNDS sock (os_now os w + 3000) w of
          (Some True, w1) \<Rightarrow> (Inr (), w1)
        | (_, w1) \<Rightarrow> (Inl ''SocketNeverAppeared'', kill_and_reap os pid w1))"

definition guest_agent_marker_present :: "'w os \<Rightarrow> string \<Rightarrow> 'w \<Rightarrow> bool" where
  "guest_agent_marker_present os data_dir w = os_there os (data_dir @ ''/images/.felucca-guest-v1'') w"

definition configure_guest ::
    "'w os \<Rightarrow> string \<Rightarrow> bool \<Rightarrow> Cidr \<Rightarrow> string \<Rightarrow> string \<Rightarrow> string \<Rightarrow> u32 \<Rightarrow> u64 \<Rightarrow> u32 option \<Rightarrow> string option
      \<Rightarrow> bool \<Rightarrow> ('w, unit) step" where
  "configure_guest os data_dir net_on cidr sock dir_path rootfs_path vcpus mem_mib slot ip vsock_on w
     = (let kern = data_dir @ ''/kernels/vmlinux'';
            (gw, msk) = (if net_on then (fmt_ip (gateway cidr), fmt_ip (cidr_mask cidr)) else ([], []))
        in map_err fc_error
          (attempt (put_boot_source os sock kern net_on ip gw msk w) (\<lambda>_ w.
           attempt (put_drive_rootfs os sock rootfs_path w) (\<lambda>_ w.
           attempt (case (net_on, slot) of
                      (True, Some s) \<Rightarrow>
                        (let (tap, mac) = tap_pin_for_slot s in put_network_interface os sock tap mac w)
                    | _ \<Rightarrow> (Inr (), w)) (\<lambda>_ w.
           attempt (put_machine_config os sock vcpus mem_mib w) (\<lambda>_ w.
           attempt (if vsock_on then
                      (let uds_path = dir_path @ ''/v.sock''
                       in put_vsock os sock 3 uds_path (snd (os_unlink os uds_path w)))
                    else (Inr (), w)) (\<lambda>_ w.
           put_instance_start os sock w)))))))"

definition spawn_and_configure ::
    "'w os \<Rightarrow> string \<Rightarrow> string \<Rightarrow> string \<Rightarrow> u32 \<Rightarrow> u64 \<Rightarrow> u32 option \<Rightarrow> string option
      \<Rightarrow> ('w Manager, int \<times> bool) step" where
  "spawn_and_configure os vid dir_path rootfs_path vcpus mem_mib slot ip mg
     = attempt (ok_or ''InvalidId'' (sock_path mg vid), mg) (\<lambda>sock mg.
       let mg = snd (on_world (os_unlink os sock) mg) in
       attempt (on_world (spawn_fc os ''spawn firecracker: '' sock (dir_path @ ''/serial.log'')) mg) (\<lambda>pid mg.
       attempt (on_world (await_api os sock pid) mg) (\<lambda>_ mg.
       let vsock_on = guest_agent_marker_present os (mg_data_dir mg) (mg_world mg)
       in case on_world (configure_guest os (mg_data_dir mg) (mg_net_on mg) (mg_cidr mg) sock dir_path rootfs_path
                 vcpus mem_mib slot ip vsock_on) mg of
            (Inl e, mg) \<Rightarrow> (Inl e, snd (on_world (\<lambda>w. ((), kill_and_reap os pid w)) mg))
          | (Inr _, mg) \<Rightarrow> (Inr (pid, vsock_on), mg))))"

subsection \<open>Taps\<close>

definition ensure_pinned_tap :: "'w sys \<Rightarrow> string \<Rightarrow> string option \<Rightarrow> GuestMac \<Rightarrow> 'w host \<Rightarrow> bool \<times> 'w host" where
  "ensure_pinned_tap sys tap ip guest_mac h
     = (case ensure_tap sys tap h of
          (False, h1) \<Rightarrow> (False, h1)
        | (True, h1) \<Rightarrow>
          (case ip of
             None \<Rightarrow> (False, delete_tap sys tap h1)
           | Some a \<Rightarrow>
             (case ensure_tap_antispoof sys tap a guest_mac h1 of
                (False, h2) \<Rightarrow> (False, delete_tap sys tap (clear_tap_antispoof sys tap h2))
              | (True, h2) \<Rightarrow> (True, h2))))"

definition pin_slot :: "'w os \<Rightarrow> u32 \<Rightarrow> string option \<Rightarrow> 'w Manager \<Rightarrow> bool \<times> 'w Manager" where
  "pin_slot os s ip mg = (let (tap, mac) = tap_pin_for_slot s in on_host (ensure_pinned_tap (os_net os) tap ip mac) mg)"

text \<open>The pin of \<open>start\<close> and \<open>wake_vm\<close>, which keep the slot of the record.\<close>

definition repin :: "'w os \<Rightarrow> u32 option \<Rightarrow> string option \<Rightarrow> ('w Manager, unit) step" where
  "repin os slot ip mg
     = (case (mg_net_on mg, slot) of
          (True, Some s) \<Rightarrow>
            (case pin_slot os s ip mg of (True, mg1) \<Rightarrow> (Inr (), mg1) | (False, mg1) \<Rightarrow> (Inl ''TapSetupFailed'', mg1))
        | _ \<Rightarrow> (Inr (), mg))"

subsection \<open>Exit of a process\<close>

definition live_state :: "VmState \<Rightarrow> bool" where
  "live_state st = (st \<in> {Creating, Running, Paused, Pooled})"

definition on_fc_exit :: "'w os \<Rightarrow> string \<Rightarrow> int \<Rightarrow> 'w Manager \<Rightarrow> 'w Manager" where
  "on_fc_exit os vid pid mg
     = (case find_vm vid (mg_vms mg) of
          Some v \<Rightarrow>
            if v_pid v = Some pid \<and> live_state (v_state v) then
              snd (write_meta os vid (upd_vms (update_vm vid (\<lambda>v. v\<lparr>v_state := Errored, v_pid := None\<rparr>)) mg))
            else mg
        | None \<Rightarrow> mg)"

definition sweep_candidates :: "Vm list \<Rightarrow> (string \<times> int) list" where
  "sweep_candidates vms
     = List.map_filter (\<lambda>v. map_option (\<lambda>p. (v_id v, p)) (v_pid v)) (filter (\<lambda>v. live_state (v_state v)) vms)"

definition sweep_one :: "'w os \<Rightarrow> string \<times> int \<Rightarrow> 'w Manager \<Rightarrow> 'w Manager" where
  "sweep_one os c mg
     = (let (r, mg1) = on_world (os_kill os (snd c) 0) mg
        in if r = Some ESRCH then on_fc_exit os (fst c) (snd c) mg1 else mg1)"

definition sweep_dead :: "'w os \<Rightarrow> 'w Manager \<Rightarrow> 'w Manager" where
  "sweep_dead os mg = fold (sweep_one os) (sweep_candidates (mg_vms mg)) mg"

subsection \<open>Stop and delete\<close>

text \<open>
  The wait for the process to go, with the number of rounds it may still make; the flag says
  that the loop came to an end of its own.  101 rounds are enough (\<open>stop_wait_enough\<close>).
\<close>

fun stop_wait :: "'w os \<Rightarrow> nat \<Rightarrow> int \<Rightarrow> nat \<Rightarrow> bool \<Rightarrow> 'w \<Rightarrow> bool \<times> 'w" where
  "stop_wait os 0 p start killed w = (False, w)"
| "stop_wait os (Suc n) p start killed w
     = (case os_kill os p 0 w of
          (Some _, w1) \<Rightarrow> (True, w1)
        | (None, w1) \<Rightarrow>
            let waited = os_now os w1 - start;
                escalate = (\<not> killed \<and> 5000 \<le> waited);
                w2 = (if escalate then snd (os_kill os p SIGKILL w1) else w1)
            in if 10000 \<le> waited then (True, w2)
               else stop_wait os n p start (killed \<or> escalate) (os_sleep os 100 w2))"

definition STOP_ROUNDS :: nat where "STOP_ROUNDS = 101"

definition stop_process :: "'w os \<Rightarrow> int \<Rightarrow> ('w, unit) step" where
  "stop_process os p w
     = (let (r, w1) = os_kill os p SIGTERM w
        in case r of
             Some (Errno t) \<Rightarrow> (Inl t, w1)
           | _ \<Rightarrow> (Inr (), snd (stop_wait os STOP_ROUNDS p (os_now os w1) False w1)))"

definition stop :: "'w os \<Rightarrow> string \<Rightarrow> ('w Manager, unit) step" where
  "stop os vid mg
     = attempt (ok_or ''NotFound'' (find_vm vid (mg_vms mg)), mg) (\<lambda>v mg.
       let mg1 = set_pid vid None (set_state vid Stopped mg)
       in case v_pid v of
            None \<Rightarrow> (Inr (), mg1)
          | Some p \<Rightarrow> on_world (stop_process os p) mg1)"

definition release_slot :: "'w os \<Rightarrow> u32 option \<Rightarrow> 'w Manager \<Rightarrow> 'w Manager" where
  "release_slot os slot mg
     = (case (mg_net_on mg, slot) of
          (True, Some s) \<Rightarrow>
            (let tap = tap_name s;
                 h = delete_tap (os_net os) tap (clear_tap_antispoof (os_net os) tap (mg_host mg))
             in free_slot s (mg\<lparr>mg_host := h\<rparr>))
        | _ \<Rightarrow> mg)"

definition remove_instance_dir :: "'w os \<Rightarrow> string \<Rightarrow> 'w Manager \<Rightarrow> 'w Manager" where
  "remove_instance_dir os vid mg
     = (case instance_dir mg vid of
          Some dir_path \<Rightarrow> snd (on_world (os_rmtree os dir_path) mg)
        | None \<Rightarrow> mg)"

definition delete :: "'w os \<Rightarrow> string \<Rightarrow> ('w Manager, unit) step" where
  "delete os vid mg
     = (let slot = Option.bind (find_vm vid (mg_vms mg)) v_slot;
            mg1 = snd (stop os vid mg);
            mg2 = release_slot os slot mg1;
            mg3 = remove_instance_dir os vid mg2;
            mg4 = upd_vms (remove_first (\<lambda>v. v_id v = vid)) mg3;
            mg5 = snd (refresh_isolation os mg4)
        in (Inr (), refresh_ingress os mg5))"

definition commit_or_isolate :: "'w os \<Rightarrow> string \<Rightarrow> ('w Manager, unit) step" where
  "commit_or_isolate os vid mg
     = (case refresh_isolation os mg of
          (True, mg1) \<Rightarrow> (Inr (), mg1)
        | (False, mg1) \<Rightarrow> (Inl ''IsolationFailed'', snd (delete os vid mg1)))"

subsection \<open>Create\<close>

definition new_vm :: "CreateSpec \<Rightarrow> Vm" where
  "new_vm spec
     = \<lparr>v_id = cs_id spec, v_name = cs_name spec, v_dir_id = cs_id spec, v_vcpus = cs_vcpus spec,
        v_mem_mib = cs_mem_mib spec, v_state = Creating, v_pid = None, v_slot = None, v_ip = None,
        v_vsock = False, v_tenant_id = cs_tenant_id spec, v_exposes = [], v_image = cs_image spec,
        v_disk_gb = cs_disk_gb spec, v_image_sha256 = cs_image_sha256 spec\<rparr>"

definition take_slot :: "u32 option \<Rightarrow> ('w Manager, u32) step" where
  "take_slot force_slot mg
     = (case force_slot of
          Some fs \<Rightarrow> (Inr fs, reserve_slot fs mg)
        | None \<Rightarrow> (let (s, mg1) = claim_slot mg in (ok_or ''IpPoolExhausted'' s, mg1)))"

definition claim_network :: "'w os \<Rightarrow> u32 option \<Rightarrow> ('w Manager, u32 option \<times> string option) step" where
  "claim_network os force_slot mg
     = (if \<not> mg_net_on mg then (Inr (None, None), mg)
        else
          attempt (take_slot force_slot mg) (\<lambda>s mg.
          let ip = ip_for_slot mg s
          in case pin_slot os s ip mg of
               (True, mg1) \<Rightarrow> (Inr (Some s, ip), mg1)
             | (False, mg1) \<Rightarrow> (Inl ''TapSetupFailed'', free_slot s mg1)))"

definition park :: "'w os \<Rightarrow> string \<Rightarrow> VmState \<Rightarrow> ('w Manager, unit) step" where
  "park os vid final_state mg
     = (if final_state = Pooled \<or> final_state = Paused then
          attempt (ok_or ''InvalidId'' (sock_path mg vid), mg) (\<lambda>sock mg.
          map_err fc_error (on_world (patch_vm_state os sock ''Paused'') mg))
        else (Inr (), mg))"

definition publish :: "string \<Rightarrow> int \<Rightarrow> u32 option \<Rightarrow> VmState \<Rightarrow> string option \<Rightarrow> bool \<Rightarrow> 'w Manager \<Rightarrow> 'w Manager" where
  "publish vid pid slot st ip vsock mg
     = upd_vms (update_vm vid (\<lambda>v. v\<lparr>v_pid := Some pid, v_slot := slot, v_state := st, v_ip := ip,
         v_vsock := vsock\<rparr>)) mg"

definition prepare_disk :: "'w os \<Rightarrow> CreateSpec \<Rightarrow> string \<Rightarrow> ('w Manager, unit) step" where
  "prepare_disk os spec dir_path mg
     = attempt (on_world (create_instance_dir os dir_path) mg) (\<lambda>_ mg.
       attempt (on_world (ensure_image os (mg_data_dir mg) (mg_control_plane mg) (mg_token mg) (cs_image spec)
                  (cs_image_sha256 spec)) mg) (\<lambda>_ mg.
       attempt (on_world (copy_rootfs os (image_path (mg_data_dir mg) (cs_image spec)) (dir_path @ ''/rootfs.ext4''))
                  mg) (\<lambda>_ mg.
       if 0 < cs_disk_gb spec
       then on_world (grow_rootfs os (dir_path @ ''/rootfs.ext4'') (ucast (cs_disk_gb spec))) mg
       else (Inr (), mg))))"

definition cold_create_inner :: "'w os \<Rightarrow> CreateSpec \<Rightarrow> VmState \<Rightarrow> u32 option \<Rightarrow> ('w Manager, unit) step" where
  "cold_create_inner os spec final_state force_slot mg
     = attempt (ok_or ''InvalidId'' (instance_dir mg (cs_id spec)), mg) (\<lambda>dir_path mg.
       attempt (prepare_disk os spec dir_path mg) (\<lambda>_ mg.
       attempt (claim_network os force_slot mg) (\<lambda>(slot, ip) mg.
       attempt (spawn_and_configure os (cs_id spec) dir_path (dir_path @ ''/rootfs.ext4'') (cs_vcpus spec)
                  (cs_mem_mib spec) slot ip mg) (\<lambda>(pid, vsock_on) mg.
       attempt (park os (cs_id spec) final_state mg) (\<lambda>_ mg.
       write_meta os (cs_id spec) (publish (cs_id spec) pid slot final_state ip vsock_on mg))))))"

definition cold_create :: "'w os \<Rightarrow> CreateSpec \<Rightarrow> VmState \<Rightarrow> u32 option \<Rightarrow> ('w Manager, unit) step" where
  "cold_create os spec final_state force_slot mg
     = (if list_ex (\<lambda>v. v_id v = cs_id spec) (mg_vms mg) then (Inl ''AlreadyExists'', mg)
        else
          case cold_create_inner os spec final_state force_slot (upd_vms (\<lambda>vs. vs @ [new_vm spec]) mg) of
            (Inl e, mg1) \<Rightarrow> (Inl e, set_state (cs_id spec) Errored mg1)
          | (Inr u, mg1) \<Rightarrow> (Inr u, mg1))"

text \<open>
  Retagging a pooled record under one lock, and back again when its Firecracker does not resume.
\<close>

definition retag :: "CreateSpec \<Rightarrow> Vm \<Rightarrow> Vm" where
  "retag spec v = v\<lparr>v_id := cs_id spec, v_name := cs_name spec, v_tenant_id := cs_tenant_id spec,
                   v_state := Creating\<rparr>"

definition untag :: "string \<Rightarrow> Vm \<Rightarrow> Vm" where
  "untag pooled_id v = v\<lparr>v_id := pooled_id, v_name := ''pool'', v_tenant_id := None\<rparr>"

definition claim_from_pool :: "'w os \<Rightarrow> CreateSpec \<Rightarrow> ('w Manager, bool) step" where
  "claim_from_pool os spec mg
     = (case find_pooled_match (mg_vms mg) (cs_image spec) (cs_image_sha256 spec) (cs_vcpus spec)
               (cs_mem_mib spec) (cs_disk_gb spec) of
          None \<Rightarrow> (Inr False, mg)
        | Some idx \<Rightarrow>
          (let pooled_id = v_id (mg_vms mg ! idx);
               mg1 = upd_vms (\<lambda>vs. vs[idx := retag spec (vs ! idx)]) mg
           in attempt (ok_or ''InvalidId'' (sock_path mg1 (cs_id spec)), mg1) (\<lambda>sock mg.
              case on_world (patch_vm_state os sock ''Resumed'') mg of
                (Inl e, mg) \<Rightarrow>
                  let dead_pid = Option.bind (find_vm (cs_id spec) (mg_vms mg)) v_pid;
                      mg2 = upd_vms (update_vm (cs_id spec) (untag pooled_id)) mg
                  in (Inr False, case dead_pid of Some p \<Rightarrow> on_fc_exit os pooled_id p mg2 | None \<Rightarrow> mg2)
              | (Inr _, mg) \<Rightarrow>
                  attempt (write_meta os (cs_id spec) (set_state (cs_id spec) Running mg)) (\<lambda>_ mg.
                  (Inr True, mg)))))"

definition create :: "'w os \<Rightarrow> CreateSpec \<Rightarrow> ('w Manager, unit) step" where
  "create os spec mg
     = (if \<not> valid_vm_id (cs_id spec) then (Inl ''InvalidId'', mg)
        else
          attempt (claim_from_pool os spec mg) (\<lambda>claimed mg.
          if claimed then commit_or_isolate os (cs_id spec) mg
          else
            attempt (cold_create os spec Running None mg) (\<lambda>_ mg.
            commit_or_isolate os (cs_id spec) mg)))"

subsection \<open>Pause, resume, sleep, wake, start\<close>

definition pause :: "'w os \<Rightarrow> string \<Rightarrow> ('w Manager, unit) step" where
  "pause os vid mg
     = attempt (ok_or ''NotFound'' (find_vm vid (mg_vms mg)), mg) (\<lambda>v mg.
       case v_state v of
         Paused \<Rightarrow> (Inr (), mg)
       | Running \<Rightarrow>
           attempt (ok_or ''InvalidId'' (sock_path mg vid), mg) (\<lambda>sock mg.
           attempt (map_err fc_error (on_world (patch_vm_state os sock ''Paused'') mg)) (\<lambda>_ mg.
           write_meta os vid (set_state vid Paused mg)))
       | st \<Rightarrow> (Inl (''InvalidState: '' @ as_str st), mg))"

definition resume :: "'w os \<Rightarrow> string \<Rightarrow> ('w Manager, unit) step" where
  "resume os vid mg
     = attempt (ok_or ''NotFound'' (find_vm vid (mg_vms mg)), mg) (\<lambda>v mg.
       case v_state v of
         Running \<Rightarrow> (Inr (), mg)
       | Paused \<Rightarrow>
           attempt (ok_or ''InvalidId'' (sock_path mg vid), mg) (\<lambda>sock mg.
           attempt (map_err fc_error (on_world (patch_vm_state os sock ''Resumed'') mg)) (\<lambda>_ mg.
           write_meta os vid (set_state vid Running mg)))
       | st \<Rightarrow> (Inl (''InvalidState: '' @ as_str st), mg))"

definition sleep_vm :: "'w os \<Rightarrow> string \<Rightarrow> ('w Manager, unit) step" where
  "sleep_vm os vid mg
     = attempt (ok_or ''NotFound'' (find_vm vid (mg_vms mg)), mg) (\<lambda>v mg.
       if v_state v = Sleeping then (Inr (), mg)
       else
         attempt (ok_or ''InvalidId'' (sock_path mg vid), mg) (\<lambda>sock mg.
         attempt (ok_or ''InvalidId'' (instance_dir mg vid), mg) (\<lambda>dir_path mg.
         attempt (map_err fc_error (on_world (patch_vm_state os sock ''Paused'') mg)) (\<lambda>_ mg.
         attempt (map_err fc_error (on_world (put_snapshot_create os sock (dir_path @ ''/vmstate.bin'')
                    (dir_path @ ''/mem.bin'')) mg)) (\<lambda>_ mg.
         let mg1 = set_pid vid None mg;
             mg2 = (case v_pid v of
                      Some p \<Rightarrow> snd (on_world (\<lambda>w. ((), kill_and_reap os p w)) mg1)
                    | None \<Rightarrow> mg1)
         in write_meta os vid (set_state vid Sleeping mg2))))))"

definition load_snapshot ::
    "'w os \<Rightarrow> string \<Rightarrow> int \<Rightarrow> string \<Rightarrow> string \<Rightarrow> bool \<Rightarrow> u32 option \<Rightarrow> string option \<Rightarrow> ('w, unit) step" where
  "load_snapshot os sock pid vmstate mem net_on slot vsock_uds w
     = (case put_snapshot_load os sock vmstate mem net_on slot vsock_uds w of
          (Inl e, w1) \<Rightarrow> (Inl (fc_error e), kill_and_reap os pid w1)
        | (Inr _, w1) \<Rightarrow> (Inr (), w1))"

definition wake_vm :: "'w os \<Rightarrow> string \<Rightarrow> ('w Manager, u64) step" where
  "wake_vm os vid mg
     = attempt (ok_or ''NotFound'' (find_vm vid (mg_vms mg)), mg) (\<lambda>v mg.
       if v_state v = Running then (Inr 0, mg)
       else
         let start = os_now os (mg_world mg) in
         attempt (ok_or ''InvalidId'' (instance_dir mg vid), mg) (\<lambda>dir_path mg.
         attempt (repin os (v_slot v) (v_ip v) mg) (\<lambda>_ mg.
         attempt (ok_or ''InvalidId'' (sock_path mg vid), mg) (\<lambda>sock mg.
         let mg = snd (on_world (os_unlink os sock) mg);
             mg = snd (on_world (os_unlink os (dir_path @ ''/v.sock'')) mg) in
         attempt (on_world (spawn_fc os ''spawn firecracker: '' sock (dir_path @ ''/serial.log'')) mg) (\<lambda>pid mg.
         attempt (on_world (await_api os sock pid) mg) (\<lambda>_ mg.
         attempt (on_world (load_snapshot os sock pid (dir_path @ ''/vmstate.bin'') (dir_path @ ''/mem.bin'')
                    (mg_net_on mg) (v_slot v) None) mg) (\<lambda>_ mg.
         let elapsed = of_nat (os_now os (mg_world mg) - start) in
         attempt (write_meta os vid (set_state vid Running (set_pid vid (Some pid) mg))) (\<lambda>_ mg.
         (Inr elapsed, mg)))))))))"

definition start_guard :: "'w os \<Rightarrow> string \<Rightarrow> ('w Manager, Vm option) step" where
  "start_guard os vid mg
     = (if vid \<in> mg_capturing mg then (Inl ''InvalidState: capture in progress'', mg)
        else
          attempt (ok_or ''NotFound'' (find_vm vid (mg_vms mg)), mg) (\<lambda>v mg.
          let probe = (case v_pid v of
                None \<Rightarrow> (Inr (Some v), mg)
              | Some p \<Rightarrow>
                  (case on_world (os_kill os p 0) mg of
                     (None, mg1) \<Rightarrow> (Inl (''InvalidState: process '' @ show_int p @ '' still attached''), mg1)
                   | (Some _, mg1) \<Rightarrow> (Inr (Some v), mg1)))
          in case v_state v of
               Running \<Rightarrow> (Inr None, mg)
             | Stopped \<Rightarrow> probe
             | Errored \<Rightarrow> probe
             | Paused \<Rightarrow> (Inl ''InvalidState: paused (use resume)'', mg)
             | Sleeping \<Rightarrow> (Inl ''InvalidState: sleeping (use wake)'', mg)
             | st \<Rightarrow> (Inl (''InvalidState: '' @ as_str st), mg)))"

definition start :: "'w os \<Rightarrow> string \<Rightarrow> ('w Manager, unit) step" where
  "start os vid mg
     = attempt (start_guard os vid mg) (\<lambda>g mg.
       case g of
         None \<Rightarrow> (Inr (), mg)
       | Some v \<Rightarrow>
           attempt (ok_or ''InvalidId'' (instance_dir mg vid), mg) (\<lambda>dir_path mg.
           attempt (repin os (v_slot v) (v_ip v) mg) (\<lambda>_ mg.
           attempt (spawn_and_configure os vid dir_path (dir_path @ ''/rootfs.ext4'') (v_vcpus v) (v_mem_mib v)
                      (v_slot v) (v_ip v) mg) (\<lambda>(pid, vsock_on) mg.
           let mg = set_pid vid (Some pid) mg;
               mg = upd_vms (update_vm vid (\<lambda>v. v\<lparr>v_vsock := vsock_on\<rparr>)) mg
           in write_meta os vid (set_state vid Running mg)))))"

subsection \<open>Exec\<close>

datatype 'a ExecOutcome = ExecOk 'a | ExecNotFound | ExecNotRunning | ExecUnavailable | ExecFailed string

definition exec_with :: "(string \<Rightarrow> ('w, 'a) step) \<Rightarrow> string \<Rightarrow> 'w Manager \<Rightarrow> 'a ExecOutcome \<times> 'w Manager" where
  "exec_with call vid mg
     = (case find_vm vid (mg_vms mg) of
          None \<Rightarrow> (ExecNotFound, mg)
        | Some v \<Rightarrow>
          if v_state v \<noteq> Running then (ExecNotRunning, mg)
          else if \<not> v_vsock v then (ExecUnavailable, mg)
          else
            (case instance_path (mg_data_dir mg) (v_dir_id v) of
               None \<Rightarrow> (ExecNotFound, mg)
             | Some dir \<Rightarrow>
               (case on_world (call dir) mg of
                  (Inr x, mg1) \<Rightarrow> (ExecOk x, mg1)
                | (Inl e, mg1) \<Rightarrow> (ExecFailed e, mg1))))"

definition mgr_exec :: "'w os \<Rightarrow> string \<Rightarrow> string list \<Rightarrow> u64 \<Rightarrow> 'w Manager \<Rightarrow> json ExecOutcome \<times> 'w Manager" where
  "mgr_exec os vid cmd timeout_ms = exec_with (\<lambda>dir. guest_exec os dir cmd timeout_ms) vid"

definition mgr_exec_stream :: "'w os \<Rightarrow> string \<Rightarrow> string list \<Rightarrow> u64 \<Rightarrow> 'w Manager \<Rightarrow> nat ExecOutcome \<times> 'w Manager" where
  "mgr_exec_stream os vid cmd timeout_ms = exec_with (\<lambda>dir. guest_exec_stream os dir cmd timeout_ms) vid"

subsection \<open>Fork\<close>

definition parent_snapshot :: "'w os \<Rightarrow> string \<Rightarrow> string \<Rightarrow> bool \<Rightarrow> VmState \<Rightarrow> ('w, unit) step" where
  "parent_snapshot os parent_sock parent_dir was_running parent_state w
     = (if parent_state = Sleeping then (Inr (), w)
        else map_err fc_error
          (attempt (if was_running then patch_vm_state os parent_sock ''Paused'' w else (Inr (), w)) (\<lambda>_ w.
           attempt (put_snapshot_create os parent_sock (parent_dir @ ''/vmstate.bin'') (parent_dir @ ''/mem.bin'') w)
             (\<lambda>_ w.
           if was_running then patch_vm_state os parent_sock ''Resumed'' w else (Inr (), w)))))"

definition copy_instance :: "'w os \<Rightarrow> string \<Rightarrow> string \<Rightarrow> ('w, unit) step" where
  "copy_instance os parent_dir child_dir w
     = attempt (create_instance_dir os child_dir w) (\<lambda>_ w.
       attempt (copy_rootfs os (parent_dir @ ''/rootfs.ext4'') (child_dir @ ''/rootfs.ext4'') w) (\<lambda>_ w.
       attempt (copy_rootfs os (parent_dir @ ''/vmstate.bin'') (child_dir @ ''/vmstate.bin'') w) (\<lambda>_ w.
       copy_rootfs os (parent_dir @ ''/mem.bin'') (child_dir @ ''/mem.bin'') w)))"

definition child_vm :: "Vm \<Rightarrow> string \<Rightarrow> string \<Rightarrow> Vm" where
  "child_vm p child_id child_name
     = \<lparr>v_id = child_id, v_name = child_name, v_dir_id = child_id, v_vcpus = v_vcpus p, v_mem_mib = v_mem_mib p,
        v_state = Creating, v_pid = None, v_slot = None, v_ip = None, v_vsock = v_vsock p,
        v_tenant_id = v_tenant_id p, v_exposes = [], v_image = v_image p, v_disk_gb = v_disk_gb p,
        v_image_sha256 = v_image_sha256 p\<rparr>"

definition fork_network :: "'w os \<Rightarrow> string \<Rightarrow> ('w Manager, u32 option \<times> string option) step" where
  "fork_network os child_id mg
     = (if \<not> mg_net_on mg then (Inr (None, None), mg)
        else
          attempt (take_slot None mg) (\<lambda>s mg.
          let ip = ip_for_slot mg s
          in case pin_slot os s ip mg of
               (True, mg1) \<Rightarrow> (Inr (Some s, ip), mg1)
             | (False, mg1) \<Rightarrow> (Inl ''TapSetupFailed'', set_state child_id Errored (free_slot s mg1))))"

text \<open>A failure of the child's process after it was spawned also marks the record.\<close>

definition or_errored :: "string \<Rightarrow> (string + 'a) \<times> 'w Manager \<Rightarrow> (string + 'a) \<times> 'w Manager" where
  "or_errored vid r = (case r of (Inl e, mg) \<Rightarrow> (Inl e, set_state vid Errored mg) | (Inr x, mg) \<Rightarrow> (Inr x, mg))"

definition fork_restore ::
    "'w os \<Rightarrow> string \<Rightarrow> string \<Rightarrow> u32 option \<Rightarrow> bool \<Rightarrow> ('w Manager, int) step" where
  "fork_restore os child_id child_dir child_slot parent_vsock mg
     = (let child_sock = child_dir @ ''/fc.sock'';
            mg = snd (on_world (os_unlink os child_sock) mg)
        in attempt (on_world (spawn_fc os ''spawn child firecracker: '' child_sock (child_dir @ ''/serial.log'')) mg)
             (\<lambda>pid mg.
           attempt (or_errored child_id (on_world (await_api os child_sock pid) mg)) (\<lambda>_ mg.
           let uds = child_dir @ ''/v.sock'';
               mg = (if parent_vsock then snd (on_world (os_unlink os uds) mg) else mg)
           in attempt (or_errored child_id (on_world (load_snapshot os child_sock pid (child_dir @ ''/vmstate.bin'')
                         (child_dir @ ''/mem.bin'') (mg_net_on mg) child_slot
                         (if parent_vsock then Some uds else None)) mg)) (\<lambda>_ mg.
              (Inr pid, mg)))))"

text \<open>The re-MAC and the re-IP are best effort: their results only go to the log.\<close>

definition fork_readdress ::
    "'w os \<Rightarrow> Cidr \<Rightarrow> string \<Rightarrow> string option \<Rightarrow> u32 option \<Rightarrow> bool \<Rightarrow> bool \<Rightarrow> 'w \<Rightarrow> 'w" where
  "fork_readdress os cidr child_dir child_ip child_slot net_on parent_vsock w
     = (case (parent_vsock, child_ip, child_slot, net_on) of
          (True, Some ip, Some s, True) \<Rightarrow>
            (let mac = snd (tap_pin_for_slot s);
                 cmd = [''ip'', ''link'', ''set'', ''dev'', ''eth0'', ''address'', mac_str mac];
                 w = snd (guest_exec os child_dir cmd 5000 w);
                 gw = fmt_ip (gateway cidr)
             in snd (set_ip os child_dir ip (cidr_prefix cidr) gw w))
        | _ \<Rightarrow> w)"

text \<open>The part of a fork after the child's record exists.\<close>

definition fork_tail ::
    "'w os \<Rightarrow> Vm \<Rightarrow> string \<Rightarrow> string \<Rightarrow> ('w Manager, string option) step" where
  "fork_tail os p child_id child_dir mg
     = attempt (fork_network os child_id mg) (\<lambda>(child_slot, child_ip) mg.
       attempt (fork_restore os child_id child_dir child_slot (v_vsock p) mg) (\<lambda>pid mg.
       attempt (write_meta os child_id (publish child_id pid child_slot Running child_ip (v_vsock p) mg)) (\<lambda>_ mg.
       let mg = snd (on_world (\<lambda>w. ((), fork_readdress os (mg_cidr mg) child_dir child_ip child_slot
                  (mg_net_on mg) (v_vsock p) w)) mg) in
       attempt (commit_or_isolate os child_id mg) (\<lambda>_ mg. (Inr child_ip, mg)))))"

definition fork :: "'w os \<Rightarrow> string \<Rightarrow> string \<Rightarrow> string \<Rightarrow> ('w Manager, string option) step" where
  "fork os parent_id child_id child_name mg
     = (if \<not> valid_vm_id child_id then (Inl ''InvalidId'', mg)
        else
          attempt (ok_or ''NotFound'' (find_vm parent_id (mg_vms mg)), mg) (\<lambda>p mg.
          attempt (ok_or ''InvalidId'' (instance_dir mg parent_id), mg) (\<lambda>parent_dir mg.
          attempt (ok_or ''InvalidId'' (sock_path mg parent_id), mg) (\<lambda>parent_sock mg.
          attempt (ok_or ''InvalidId'' (instance_path (mg_data_dir mg) child_id), mg) (\<lambda>child_dir mg.
          attempt (on_world (parent_snapshot os parent_sock parent_dir (v_state p = Running) (v_state p)) mg) (\<lambda>_ mg.
          attempt (on_world (copy_instance os parent_dir child_dir) mg) (\<lambda>_ mg.
          if list_ex (\<lambda>v. v_id v = child_id) (mg_vms mg) then (Inl ''AlreadyExists'', mg)
          else fork_tail os p child_id child_dir (upd_vms (\<lambda>vs. vs @ [child_vm p child_id child_name]) mg))))))))"

subsection \<open>Refill\<close>

fun show_hex :: "nat \<Rightarrow> string" where
  "show_hex n = (if n < 16 then [hex_digit n] else show_hex (n div 16) @ [hex_digit (n mod 16)])"

declare show_hex.simps [simp del]

text \<open>Milliseconds since the epoch as a \<open>u64\<close>.\<close>

definition now_ms :: "'w os \<Rightarrow> 'w \<Rightarrow> u64" where
  "now_ms os w = of_nat (os_systime os w)"

definition pool_create_spec :: "string \<Rightarrow> PoolSpec \<Rightarrow> CreateSpec" where
  "pool_create_spec vid spec
     = \<lparr>cs_id = vid, cs_name = ''pool'', cs_vcpus = ps_vcpus spec, cs_mem_mib = ps_mem_mib spec,
        cs_tenant_id = None, cs_image = ps_image spec, cs_image_sha256 = sha_opt spec, cs_disk_gb = ps_disk_gb spec\<rparr>"

text \<open>
  One specification: as long as too few machines match, prewarm one more; the first failure
  cleans up, starts the backoff and ends the loop.  The number of rounds is a bound; every
  round but the last adds a matching machine, so \<open>count\<close> rounds and the final test are enough
  (\<open>refill_loop_enough\<close>).
\<close>

fun refill_loop :: "'w os \<Rightarrow> nat \<Rightarrow> PoolSpec \<Rightarrow> 'w Manager \<Rightarrow> bool \<times> 'w Manager" where
  "refill_loop os 0 spec mg = (False, mg)"
| "refill_loop os (Suc n) spec mg
     = (if ps_count spec \<le> pooled_count_matching (mg_vms mg) spec then (True, mg)
        else
          let vid = ''pool-'' @ show_hex (unat (now_ms os (mg_world mg)))
          in case cold_create os (pool_create_spec vid spec) Pooled None mg of
               (Inl e, mg1) \<Rightarrow>
                 (let mg2 = snd (delete os vid mg1)
                  in (True, mg2\<lparr>mg_backoff := (mg_backoff mg2)(spec_key spec \<mapsto> os_now os (mg_world mg2) + REFILL_BACKOFF)\<rparr>))
             | (Inr _, mg1) \<Rightarrow> refill_loop os n spec mg1)"

definition refill_spec :: "'w os \<Rightarrow> PoolSpec \<Rightarrow> 'w Manager \<Rightarrow> 'w Manager" where
  "refill_spec os spec mg
     = (let (active, bo) = backoff_active (mg_backoff mg) (spec_key spec) (os_now os (mg_world mg));
            mg1 = mg\<lparr>mg_backoff := bo\<rparr>
        in if active then mg1 else snd (refill_loop os (Suc (unat (ps_count spec))) spec mg1))"

definition refill_pool :: "'w os \<Rightarrow> 'w Manager \<Rightarrow> 'w Manager" where
  "refill_pool os mg
     = (let specs = pool_specs (mg_pool_target mg) (mg_template_pools mg);
            surplus = surplus_pooled_ids (mg_vms mg) specs;
            mg1 = fold (\<lambda>sid mg. snd (delete os sid mg)) surplus mg
        in fold (refill_spec os) specs mg1)"

subsection \<open>Image garbage collection\<close>

definition gc_entry :: "'w os \<Rightarrow> nat \<Rightarrow> nat \<Rightarrow> dirent option \<Rightarrow> 'w Manager \<Rightarrow> 'w Manager" where
  "gc_entry os now min_age_secs entry mg
     = (case entry of
          None \<Rightarrow> mg
        | Some d \<Rightarrow>
          (case gc_image_for_entry (from_utf8_lossy (de_name d)) of
             None \<Rightarrow> mg
           | Some img \<Rightarrow>
             let old_enough = (case de_modified d of
                   Some m \<Rightarrow> m \<le> now \<and> min_age_secs \<le> (now - m) div 1000
                 | None \<Rightarrow> False)
             in if img = DEFAULT_IMAGE \<or> \<not> old_enough \<or> image_referenced (mg_vms mg) (mg_template_pools mg) img
                then mg
                else snd (on_world (os_unlink os (mg_data_dir mg @ ''/images/'' @ de_name d)) mg)))"

definition gc_images :: "'w os \<Rightarrow> nat \<Rightarrow> 'w Manager \<Rightarrow> 'w Manager" where
  "gc_images os min_age_secs mg
     = (case os_read_dir os (mg_data_dir mg @ ''/images'') (mg_world mg) of
          None \<Rightarrow> mg
        | Some entries \<Rightarrow> fold (gc_entry os (os_systime os (mg_world mg)) min_age_secs) entries mg)"

text \<open>One tick of \<open>pool_loop\<close> and of \<open>liveness_loop\<close> (\<open>agent/src/vm/pool.rs\<close>), without the sleep.\<close>

definition pool_tick :: "'w os \<Rightarrow> nat \<Rightarrow> 'w Manager \<Rightarrow> nat \<times> 'w Manager" where
  "pool_tick os tick mg
     = (let mg1 = refill_pool os mg;
            tick1 = tick + 1
        in (tick1, if tick1 mod 120 = 0 then gc_images os 3600 mg1 else mg1))"

end
