(* ===== verification/Vm_Reconcile.thy ===== *)
theory Vm_Reconcile
  imports Vm_Manager
begin

text \<open>
  Adoption of persisted instances at start-up: \<open>agent/src/vm/reconcile.rs\<close> and
  \<open>Manager::reconcile\<close> of \<open>agent/src/vm/mod.rs\<close>.
\<close>

definition pid_alive :: "'w os \<Rightarrow> int \<Rightarrow> 'w \<Rightarrow> bool \<times> 'w" where
  "pid_alive os pid w = (let (r, w1) = os_kill os pid 0 w in (r = None, w1))"

definition read_meta :: "'w os \<Rightarrow> string \<Rightarrow> string \<Rightarrow> 'w \<Rightarrow> Meta option" where
  "read_meta os data_dir dir_name w
     = Option.bind (read_to_string os (data_dir @ ''/instances/'' @ dir_name @ ''/meta.json'') w)
         (\<lambda>data. case os_json os data of Inl _ \<Rightarrow> None | Inr v \<Rightarrow> de_meta v)"

text \<open>The state and pid under which a record is adopted.\<close>

definition adopt_state :: "'w os \<Rightarrow> string \<Rightarrow> string \<Rightarrow> Meta \<Rightarrow> 'w \<Rightarrow> (VmState \<times> int option) \<times> 'w" where
  "adopt_state os data_dir dir_name m w
     = (let st = (if m_state m = Pooled then Stopped else m_state m)
        in case (st = Running \<or> st = Paused, m_pid m) of
             (True, Some mpid) \<Rightarrow>
               (case pid_alive os mpid w of
                  (True, w1) \<Rightarrow> ((st, Some mpid), w1)
                | (False, w1) \<Rightarrow>
                    ((if os_there os (data_dir @ ''/instances/'' @ dir_name @ ''/vmstate.bin'') w1 then Sleeping
                      else Stopped, None), w1))
           | _ \<Rightarrow> ((st, None), w))"

definition adopted_vm :: "Meta \<Rightarrow> VmState \<Rightarrow> int option \<Rightarrow> Vm" where
  "adopted_vm m st pid
     = \<lparr>v_id = m_id m, v_name = m_name m, v_dir_id = m_dir_id m, v_vcpus = m_vcpus m, v_mem_mib = m_mem_mib m,
        v_state = st, v_pid = pid, v_slot = m_slot m, v_ip = m_ip m, v_vsock = m_vsock m,
        v_tenant_id = m_tenant_id m, v_exposes = m_exposes m,
        v_image = (case m_image m of Some i \<Rightarrow> i | None \<Rightarrow> DEFAULT_IMAGE),
        v_disk_gb = (case m_disk_gb m of Some d \<Rightarrow> d | None \<Rightarrow> 0),
        v_image_sha256 = m_image_sha256 m\<rparr>"

definition reconcile_one ::
    "'w os \<Rightarrow> string \<Rightarrow> string \<Rightarrow> Allocator option \<Rightarrow> 'w \<Rightarrow> Vm option \<times> Allocator option \<times> 'w" where
  "reconcile_one os data_dir dir_name alloc w
     = (case read_meta os data_dir dir_name w of
          None \<Rightarrow> (None, alloc, w)
        | Some m \<Rightarrow>
          if \<not> valid_vm_id (m_id m) \<or> \<not> valid_vm_id (m_dir_id m) then (None, alloc, w)
          else
            let ((st, pid), w1) = adopt_state os data_dir dir_name m w;
                alloc1 = (case (alloc, m_slot m) of (Some a, Some s) \<Rightarrow> Some (alloc_reserve a s) | _ \<Rightarrow> alloc)
            in (Some (adopted_vm m st pid), alloc1, w1))"

fun reconcile_entries ::
    "'w os \<Rightarrow> string \<Rightarrow> dirent option list \<Rightarrow> Allocator option \<Rightarrow> 'w \<Rightarrow> Vm list \<times> Allocator option \<times> 'w" where
  "reconcile_entries os data_dir [] alloc w = ([], alloc, w)"
| "reconcile_entries os data_dir (entry # rest) alloc w
     = (case entry of
          None \<Rightarrow> reconcile_entries os data_dir rest alloc w
        | Some d \<Rightarrow>
          if de_dir d \<noteq> Some True then reconcile_entries os data_dir rest alloc w
          else
            let (r, alloc1, w1) = reconcile_one os data_dir (from_utf8_lossy (de_name d)) alloc w;
                (vms, alloc2, w2) = reconcile_entries os data_dir rest alloc1 w1
            in (case r of Some v \<Rightarrow> v # vms | None \<Rightarrow> vms, alloc2, w2))"

definition reconcile_scan ::
    "'w os \<Rightarrow> string \<Rightarrow> Allocator option \<Rightarrow> 'w \<Rightarrow> Vm list \<times> Allocator option \<times> 'w" where
  "reconcile_scan os data_dir alloc w
     = (case os_read_dir os (data_dir @ ''/instances'') w of
          None \<Rightarrow> ([], alloc, w)
        | Some entries \<Rightarrow> reconcile_entries os data_dir entries alloc w)"

definition reconcile :: "'w os \<Rightarrow> 'w Manager \<Rightarrow> 'w Manager" where
  "reconcile os mg
     = (let (vms, alloc, w) = reconcile_scan os (mg_data_dir mg) (mg_allocator mg) (mg_world mg);
            mg1 = mg\<lparr>mg_vms := vms, mg_allocator := alloc, mg_host := (mg_host mg)\<lparr>h_world := w\<rparr>\<rparr>
        in if \<not> mg_net_on mg then mg1
           else fold (\<lambda>(vid, slot, ip) mg. snd (pin_slot os slot (Some ip) mg)) (taps_to_repin vms) mg1)"

end
