(* ===== verification/Vm_Core.thy ===== *)
theory Vm_Core
  imports Vm_Reconcile
begin

text \<open>
  Which parts of the manager's state the operations leave alone.  \<open>core\<close> is the state without
  the host; every helper that only talks to the operating system keeps it.  The collection
  \<open>core_keep\<close> carries the proofs about the operations.
\<close>

subsection \<open>The state without the host\<close>

definition core :: "'w Manager \<Rightarrow> 'w Manager" where
  "core mg = mg\<lparr>mg_host := undefined\<rparr>"

lemma core_eqD:
  assumes "core a = core b"
  shows "mg_vms a = mg_vms b" "mg_allocator a = mg_allocator b" "mg_data_dir a = mg_data_dir b"
    "mg_net_on a = mg_net_on b" "mg_cidr a = mg_cidr b" "mg_template_pools a = mg_template_pools b"
    "mg_capturing a = mg_capturing b" "mg_backoff a = mg_backoff b" "mg_pool_target a = mg_pool_target b"
  using assms by (cases a; cases b; simp add: core_def)+

lemma core_host [simp]: "core (mg\<lparr>mg_host := h\<rparr>) = core mg"
  by (simp add: core_def)

named_theorems core_keep \<open>steps that change only the host\<close>

lemma core_on_world [core_keep, simp]: "core (snd (on_world f mg)) = core mg"
  by (simp add: on_world_def case_prod_beta Let_def)

lemma core_on_host [core_keep, simp]: "core (snd (on_host f mg)) = core mg"
  by (simp add: on_host_def case_prod_beta Let_def)

lemma on_world_Inr: "on_world f mg = (r, mg') \<Longrightarrow> core mg' = core mg"
  using core_on_world [of f mg] by simp

lemma on_host_eq: "on_host f mg = (r, mg') \<Longrightarrow> core mg' = core mg"
  using core_on_host [of f mg] by simp

text \<open>A chain of fallible steps keeps the core when each of them does.\<close>

lemma core_attempt:
  "core (snd r) = core mg \<Longrightarrow> (\<And>x s. r = (Inr x, s) \<Longrightarrow> core s = core mg \<Longrightarrow> core (snd (k x s)) = core mg) \<Longrightarrow>
   core (snd (attempt r k)) = core mg"
  by (auto simp: attempt_def split: prod.splits sum.splits)

lemma core_upd_vms_cong: "core a = core b \<Longrightarrow> core (upd_vms f a) = core (upd_vms f b)"
  by (cases a; cases b) (simp add: core_def upd_vms_def)

lemma core_write_meta [core_keep, simp]: "core (snd (write_meta os vid mg)) = core mg"
  unfolding write_meta_def by (intro core_attempt) (simp_all add: Let_def)

lemma core_refresh_isolation [core_keep, simp]: "core (snd (refresh_isolation os mg)) = core mg"
  by (simp add: refresh_isolation_def)

lemma core_refresh_ingress [core_keep, simp]: "core (refresh_ingress os mg) = core mg"
  by (simp add: refresh_ingress_def)

lemma core_pin_slot [core_keep, simp]: "core (snd (pin_slot os s ip mg)) = core mg"
  by (simp add: pin_slot_def case_prod_beta Let_def)

lemma core_repin [core_keep, simp]: "core (snd (repin os slot ip mg)) = core mg"
  using core_pin_slot by (simp add: repin_def case_prod_beta split: option.splits bool.splits)

lemma core_prepare_disk [core_keep, simp]: "core (snd (prepare_disk os spec dir mg)) = core mg"
  unfolding prepare_disk_def by (intro core_attempt) simp_all

lemma core_park [core_keep, simp]: "core (snd (park os vid st mg)) = core mg"
  unfolding park_def by (auto intro!: core_attempt)

lemma core_spawn_and_configure [core_keep, simp]:
  "core (snd (spawn_and_configure os vid dir rootfs vcpus mem slot ip mg)) = core mg"
  unfolding spawn_and_configure_def
proof (intro core_attempt)
  show "core (snd (ok_or ''InvalidId'' (sock_path mg vid), mg)) = core mg" by simp
  fix sock s
  assume s: "core s = core mg"
  show "core (snd (let mg = snd (on_world (os_unlink os sock) s) in
       attempt (on_world (spawn_fc os ''spawn firecracker: '' sock (dir @ ''/serial.log'')) mg) (\<lambda>pid mg.
       attempt (on_world (await_api os sock pid) mg) (\<lambda>_ mg.
       let vsock_on = guest_agent_marker_present os (mg_data_dir mg) (mg_world mg)
       in case on_world (configure_guest os (mg_data_dir mg) (mg_net_on mg) (mg_cidr mg) sock dir rootfs
                 vcpus mem slot ip vsock_on) mg of
            (Inl e, mg) \<Rightarrow> (Inl e, snd (on_world (\<lambda>w. ((), kill_and_reap os pid w)) mg))
          | (Inr _, mg) \<Rightarrow> (Inr (pid, vsock_on), mg))))) = core mg"
    unfolding Let_def
    by (intro core_attempt) (auto simp: s dest: on_world_Inr split: prod.splits sum.splits)
qed

subsection \<open>What the operations do to the records and the allocator\<close>

lemma remove_first_update:
  "(\<And>v. v_id (f v) = v_id v) \<Longrightarrow>
   remove_first (\<lambda>v. v_id v = vid) (update_vm vid f vms) = remove_first (\<lambda>v. v_id v = vid) vms"
  by (induction vms) auto

lemma update_update_vm:
  "(\<And>v. v_id (f v) = v_id v) \<Longrightarrow> update_vm vid g (update_vm vid f vms) = update_vm vid (\<lambda>v. g (f v)) vms"
  by (induction vms) auto

lemma core_set_state: "core a = core b \<Longrightarrow> core (set_state vid st a) = core (set_state vid st b)"
  unfolding set_state_def by (rule core_upd_vms_cong)

lemma stop_core:
  "core (snd (stop os vid mg))
     = core (upd_vms (update_vm vid (\<lambda>v. v\<lparr>v_state := Stopped, v_pid := None\<rparr>)) mg)"
proof (cases "find_vm vid (mg_vms mg)")
  case None
  then show ?thesis by (simp add: stop_def upd_vms_def update_vm_none)
next
  case (Some v)
  have "set_pid vid None (set_state vid Stopped mg)
      = upd_vms (update_vm vid (\<lambda>v. v\<lparr>v_state := Stopped, v_pid := None\<rparr>)) mg"
    by (simp add: set_pid_def set_state_def upd_vms_def update_update_vm)
  then show ?thesis using Some by (simp add: stop_def Let_def split: option.splits)
qed

text \<open>The state after a delete, without the host.\<close>

definition deleted :: "string \<Rightarrow> 'w Manager \<Rightarrow> 'w Manager" where
  "deleted vid mg
     = (let mg1 = upd_vms (remove_first (\<lambda>v. v_id v = vid)) mg
        in case (mg_net_on mg, Option.bind (find_vm vid (mg_vms mg)) v_slot) of
             (True, Some s) \<Rightarrow> free_slot s mg1
           | _ \<Rightarrow> mg1)"

lemma core_free_slot: "core a = core b \<Longrightarrow> core (free_slot s a) = core (free_slot s b)"
  by (cases a; cases b) (simp add: core_def free_slot_def)

lemma core_release_slot:
  "core (release_slot os slot mg)
     = core (case (mg_net_on mg, slot) of (True, Some s) \<Rightarrow> free_slot s mg | _ \<Rightarrow> mg)"
  by (auto simp: release_slot_def Let_def core_def free_slot_def split: option.splits bool.splits)

lemma core_remove_instance_dir [core_keep, simp]: "core (remove_instance_dir os vid mg) = core mg"
  by (simp add: remove_instance_dir_def split: option.splits)

lemma free_slot_upd_vms: "upd_vms f (free_slot s mg) = free_slot s (upd_vms f mg)"
  by (simp add: upd_vms_def free_slot_def)

lemma delete_core: "core (snd (delete os vid mg)) = core (deleted vid mg)"
proof -
  let ?slot = "Option.bind (find_vm vid (mg_vms mg)) v_slot"
  let ?f = "\<lambda>v. v\<lparr>v_state := Stopped, v_pid := None\<rparr>" and ?r = "remove_first (\<lambda>v. v_id v = vid)"
  define mg1 where "mg1 = snd (stop os vid mg)"
  have c1: "core mg1 = core (upd_vms (update_vm vid ?f) mg)" unfolding mg1_def by (rule stop_core)
  then have n: "mg_net_on mg1 = mg_net_on mg" using core_eqD(4) [OF c1] by (simp add: upd_vms_def)
  have c2: "core (upd_vms ?r mg1) = core (upd_vms ?r mg)"
    using core_upd_vms_cong [OF c1, of ?r] by (simp add: upd_vms_def remove_first_update core_def)
  have "core (snd (delete os vid mg)) = core (upd_vms ?r (remove_instance_dir os vid (release_slot os ?slot mg1)))"
    by (simp add: delete_def Let_def mg1_def)
  also have "\<dots> = core (upd_vms ?r (case (mg_net_on mg1, ?slot) of (True, Some s) \<Rightarrow> free_slot s mg1 | _ \<Rightarrow> mg1))"
    by (intro core_upd_vms_cong) (simp add: core_release_slot)
  also have "\<dots> = core (deleted vid mg)"
    using c2 core_free_slot [OF c2]
    by (cases "mg_net_on mg"; cases ?slot) (simp_all add: deleted_def n free_slot_upd_vms)
  finally show ?thesis .
qed

lemma deleted_cong: "core a = core b \<Longrightarrow> core (deleted vid a) = core (deleted vid b)"
proof -
  assume c: "core a = core b"
  show ?thesis
    using core_upd_vms_cong [OF c, of "remove_first (\<lambda>v. v_id v = vid)"] core_eqD(1,4) [OF c]
    by (cases "mg_net_on b"; cases "Option.bind (find_vm vid (mg_vms b)) v_slot")
      (simp_all add: deleted_def core_free_slot [OF core_upd_vms_cong [OF c]])
qed

lemma commit_core:
  assumes "commit_or_isolate os vid mg = (r, mg')"
  shows "core mg' = (case r of Inr _ \<Rightarrow> core mg | Inl _ \<Rightarrow> core (deleted vid mg))"
proof -
  obtain ok mg1 where i: "refresh_isolation os mg = (ok, mg1)" by fastforce
  then have c: "core mg1 = core mg" using core_refresh_isolation [of os mg] by simp
  have "core (deleted vid mg1) = core (deleted vid mg)" by (rule deleted_cong [OF c])
  then show ?thesis
    using assms i c delete_core [of os vid mg1] by (auto simp: commit_or_isolate_def split: bool.splits)
qed

subsection \<open>Claiming an address\<close>

text \<open>A slot was claimed with its address, or networking is off.\<close>

definition claimed :: "'w Manager \<Rightarrow> u32 option \<Rightarrow> string option \<Rightarrow> Allocator option \<Rightarrow> bool" where
  "claimed mg slot ip al
     = (if mg_net_on mg then
          \<exists>a s a'. mg_allocator mg = Some a \<and> alloc_claim a = (Some s, a') \<and> al = Some a'
                   \<and> slot = Some s \<and> ip = Some (alloc_ip_for a' s)
        else slot = None \<and> ip = None \<and> al = mg_allocator mg)"

text \<open>The allocator is as before, or one slot was claimed and kept or given back.\<close>

definition touched :: "Allocator option \<Rightarrow> Allocator option \<Rightarrow> bool" where
  "touched al al'
     = (al' = al \<or> (\<exists>a s a'. al = Some a \<and> alloc_claim a = (Some s, a')
                      \<and> (al' = Some a' \<or> al' = Some (alloc_free a' s))))"

lemma claimed_touched: "claimed mg slot ip al \<Longrightarrow> touched (mg_allocator mg) al"
  by (auto simp: claimed_def touched_def split: if_splits)

lemma touched_refl [simp]: "touched al al"
  by (simp add: touched_def)

lemma take_slot_cases:
  assumes "take_slot None mg = (r, mg')"
  shows "(r = Inl ''IpPoolExhausted'' \<and> core mg' = core mg)
         \<or> (\<exists>a s a'. mg_allocator mg = Some a \<and> alloc_claim a = (Some s, a') \<and> r = Inr s
              \<and> mg' = mg\<lparr>mg_allocator := Some a'\<rparr>)"
proof (cases "mg_allocator mg")
  case None
  then show ?thesis using assms by (simp add: take_slot_def claim_slot_def)
next
  case (Some a)
  obtain so a' where c: "alloc_claim a = (so, a')" by fastforce
  show ?thesis
  proof (cases so)
    case None
    with c have "a' = a" using alloc_claim_None by blast
    then show ?thesis using assms Some c None by (auto simp: take_slot_def claim_slot_def core_def)
  qed (use assms Some c in \<open>simp add: take_slot_def claim_slot_def\<close>)
qed

lemma core_alloc: "core a = core b \<Longrightarrow> core (a\<lparr>mg_allocator := al\<rparr>) = core (b\<lparr>mg_allocator := al\<rparr>)"
  by (cases a; cases b) (simp add: core_def)

text \<open>What the two users of the allocator share: take a slot, derive the address, pin the tap.\<close>

lemma claim_and_pin:
  assumes "mg_net_on mg"
    and "attempt (take_slot None mg) (\<lambda>s mg. let ip = ip_for_slot mg s in
           case pin_slot os s ip mg of
             (True, mg1) \<Rightarrow> (Inr (Some s, ip), mg1)
           | (False, mg1) \<Rightarrow> (Inl ''TapSetupFailed'', g (free_slot s mg1))) = (r, mg')"
  shows "(\<exists>slot ip al. r = Inr (slot, ip) \<and> claimed mg slot ip al \<and> core mg' = core (mg\<lparr>mg_allocator := al\<rparr>))
         \<or> (\<exists>e al mg1. r = Inl e \<and> touched (mg_allocator mg) al \<and> core mg1 = core (mg\<lparr>mg_allocator := al\<rparr>)
              \<and> (mg' = mg1 \<or> mg' = g mg1))"
  using assms(2)
proof (cases rule: attemptE)
  case (err e)
  then have "core mg' = core (mg\<lparr>mg_allocator := mg_allocator mg\<rparr>)"
    using take_slot_cases [of mg "Inl e" mg'] by auto
  then show ?thesis using err(2) touched_refl by blast
next
  case (ok s mg1)
  obtain a a' where c: "mg_allocator mg = Some a" "alloc_claim a = (Some s, a')" "mg1 = mg\<lparr>mg_allocator := Some a'\<rparr>"
    using take_slot_cases [OF ok(1)] by auto
  have ip: "ip_for_slot mg1 s = Some (alloc_ip_for a' s)" by (simp add: ip_for_slot_def c(3))
  obtain b mg2 where p: "pin_slot os s (Some (alloc_ip_for a' s)) mg1 = (b, mg2)" by (rule prod.exhaust)
  have c2: "core mg2 = core mg1" using core_pin_slot [of os s "Some (alloc_ip_for a' s)" mg1] p by simp
  show ?thesis
  proof (cases b)
    case True
    then have "r = Inr (Some s, Some (alloc_ip_for a' s))" "mg' = mg2" using ok(2) p ip by auto
    then show ?thesis using c c2 assms(1) by (auto simp: claimed_def)
  next
    case False
    then have r: "r = Inl ''TapSetupFailed''" "mg' = g (free_slot s mg2)" using ok(2) p ip by auto
    have "core (free_slot s mg2) = core (mg\<lparr>mg_allocator := Some (alloc_free a' s)\<rparr>)"
      using core_free_slot [OF c2, of s] c(3) by (simp add: free_slot_def core_def)
    moreover have "touched (mg_allocator mg) (Some (alloc_free a' s))" using c by (auto simp: touched_def)
    ultimately show ?thesis using r by blast
  qed
qed

lemma claim_network_cases:
  assumes "claim_network os None mg = (r, mg')"
  shows "(\<exists>slot ip al. r = Inr (slot, ip) \<and> claimed mg slot ip al \<and> core mg' = core (mg\<lparr>mg_allocator := al\<rparr>))
         \<or> (\<exists>e al. r = Inl e \<and> touched (mg_allocator mg) al \<and> core mg' = core (mg\<lparr>mg_allocator := al\<rparr>))"
proof (cases "mg_net_on mg")
  case False
  then show ?thesis using assms by (auto simp: claim_network_def claimed_def)
next
  case True
  then show ?thesis
    using claim_and_pin [where mg = mg and os = os and r = r and mg' = mg' and g = "\<lambda>x. x"] assms unfolding claim_network_def by auto
qed

lemma fork_network_cases:
  assumes "fork_network os cid mg = (r, mg')"
  shows "(\<exists>slot ip al. r = Inr (slot, ip) \<and> claimed mg slot ip al \<and> core mg' = core (mg\<lparr>mg_allocator := al\<rparr>))
         \<or> (\<exists>e al mg1. r = Inl e \<and> touched (mg_allocator mg) al \<and> core mg1 = core (mg\<lparr>mg_allocator := al\<rparr>)
              \<and> (mg' = mg1 \<or> mg' = set_state cid Errored mg1))"
proof (cases "mg_net_on mg")
  case False
  then show ?thesis using assms by (auto simp: fork_network_def claimed_def)
next
  case True
  then show ?thesis
    using claim_and_pin [where mg = mg and os = os and r = r and mg' = mg' and g = "set_state cid Errored"] assms unfolding fork_network_def by auto
qed

text \<open>
  The outcome of building a machine: it failed before the record was filled in, or the record
  holds the claimed slot and address.
\<close>

definition built :: "string \<Rightarrow> VmState \<Rightarrow> 'w Manager \<Rightarrow> 'w Manager \<Rightarrow> bool" where
  "built vid st mg mg'
     = (\<exists>slot ip al pid vs. claimed mg slot ip al
          \<and> core mg' = core (publish vid pid slot st ip vs (mg\<lparr>mg_allocator := al\<rparr>)))"

definition unbuilt :: "'w Manager \<Rightarrow> 'w Manager \<Rightarrow> bool" where
  "unbuilt mg mg' = (\<exists>al. touched (mg_allocator mg) al \<and> core mg' = core (mg\<lparr>mg_allocator := al\<rparr>))"

lemma unbuiltI: "core mg' = core mg \<Longrightarrow> unbuilt mg mg'"
  unfolding unbuilt_def by (rule exI [of _ "mg_allocator mg"]) simp

lemma claimed_cong: "core a = core b \<Longrightarrow> claimed a = claimed b"
  by (intro ext) (simp add: claimed_def core_eqD(2,4) [of a b])

lemma built_cong: "core a = core b \<Longrightarrow> built vid st a = built vid st b"
proof
  fix x
  assume c: "core a = core b"
  have "core (publish vid pid slot st ip vs (a\<lparr>mg_allocator := al\<rparr>))
      = core (publish vid pid slot st ip vs (b\<lparr>mg_allocator := al\<rparr>))" for slot ip al pid vs
    unfolding publish_def by (rule core_upd_vms_cong [OF core_alloc [OF c]])
  then show "built vid st a x = built vid st b x" by (simp add: built_def claimed_cong [OF c])
qed

lemma unbuilt_cong: "core a = core b \<Longrightarrow> unbuilt a = unbuilt b"
  by (intro ext) (simp add: unbuilt_def core_eqD(2) [of a b] core_alloc [of a b])

lemma core_attemptE:
  assumes "attempt r k = (y, s')" "core (snd r) = core mg"
  obtains (err) e where "y = Inl e" "core s' = core mg" | (ok) x s where "core s = core mg" "k x s = (y, s')"
  using assms by (cases rule: attemptE) auto

text \<open>A step that keeps the core, between the claim and the moment the record is filled in.\<close>

lemma unbuilt_after: "claimed mg slot ip al \<Longrightarrow> core x = core (mg\<lparr>mg_allocator := al\<rparr>) \<Longrightarrow> unbuilt mg x"
  using claimed_touched unfolding unbuilt_def by blast

lemma built_after:
  assumes "claimed mg slot ip al" "core x = core (mg\<lparr>mg_allocator := al\<rparr>)"
    and "write_meta os vid (publish vid pid slot st ip vs x) = (r, mg')"
  shows "built vid st mg mg'"
proof -
  have "core mg' = core (publish vid pid slot st ip vs x)"
    using core_write_meta [of os vid "publish vid pid slot st ip vs x"] assms(3) by simp
  also have "\<dots> = core (publish vid pid slot st ip vs (mg\<lparr>mg_allocator := al\<rparr>))"
    unfolding publish_def by (rule core_upd_vms_cong [OF assms(2)])
  finally show ?thesis using assms(1) unfolding built_def by blast
qed

lemma cold_create_tail:
  assumes cl: "claimed mg slot ip al" and c: "core mg2 = core (mg\<lparr>mg_allocator := al\<rparr>)"
    and r: "attempt (spawn_and_configure os vid dir rootfs vcpus mem slot ip mg2) (\<lambda>(pid, vsock_on) mg.
              attempt (park os vid st mg) (\<lambda>_ mg.
              write_meta os vid (publish vid pid slot st ip vsock_on mg))) = (r, mg')"
  shows "unbuilt mg mg' \<and> isl r \<or> built vid st mg mg'"
  using r core_spawn_and_configure [of os vid dir rootfs vcpus mem slot ip mg2]
proof (cases rule: core_attemptE)
  case (err e)
  then show ?thesis using unbuilt_after [OF cl] c by simp
next
  case (ok pv mg3)
  obtain pid vs where "pv = (pid, vs)" by (rule prod.exhaust)
  with ok(2) have "attempt (park os vid st mg3) (\<lambda>_ mg. write_meta os vid (publish vid pid slot st ip vs mg)) = (r, mg')"
    by simp
  then show ?thesis
    using core_park [of os vid st mg3]
  proof (cases rule: core_attemptE)
    case (err e)
    then show ?thesis using unbuilt_after [OF cl] ok(1) c by simp
  next
    case (ok u mg4)
    then show ?thesis using built_after [OF cl _ ok(2)] \<open>core mg3 = core mg2\<close> c by simp
  qed
qed

lemma cold_create_inner_cases:
  assumes "cold_create_inner os spec st None mg = (r, mg')"
  shows "unbuilt mg mg' \<and> isl r \<or> built (cs_id spec) st mg mg'"
proof (cases "instance_dir mg (cs_id spec)")
  case None
  then show ?thesis using assms unbuiltI [of mg' mg] by (auto simp: cold_create_inner_def)
next
  case (Some dir)
  show ?thesis
    using assms [unfolded cold_create_inner_def Some ok_or_simps attempt_simps] core_prepare_disk [of os spec dir mg]
  proof (cases rule: core_attemptE)
    case (err e)
    then show ?thesis using unbuiltI by auto
  next
    case (ok u mg1)
    note c1 = unbuilt_cong [OF ok(1)] built_cong [OF ok(1)]
    from ok(2) show ?thesis
    proof (cases rule: attemptE)
      case (err e)
      then have "unbuilt mg1 mg'" using claim_network_cases [OF err(1)] by (auto simp: unbuilt_def)
      then show ?thesis using c1 err(2) by simp
    next
      case (ok si mg2)
      obtain slot ip al where si: "si = (slot, ip)" "claimed mg1 slot ip al"
        and c2: "core mg2 = core (mg1\<lparr>mg_allocator := al\<rparr>)"
        using claim_network_cases [OF ok(1)] by auto
      show ?thesis using cold_create_tail [OF si(2) c2 ok(2) [unfolded si(1) prod.case]] c1 by simp
    qed
  qed
qed

lemma cold_create_cases:
  assumes "cold_create os spec st None mg = (r, mg')"
  obtains (exists_) "r = Inl ''AlreadyExists''" "mg' = mg"
  | (failed) mg1 e where "find_vm (cs_id spec) (mg_vms mg) = None" "r = Inl e"
      "mg' = set_state (cs_id spec) Errored mg1"
      "unbuilt (upd_vms (\<lambda>vs. vs @ [new_vm spec]) mg) mg1 \<or> built (cs_id spec) st (upd_vms (\<lambda>vs. vs @ [new_vm spec]) mg) mg1"
  | (created) "find_vm (cs_id spec) (mg_vms mg) = None" "r = Inr ()"
      "built (cs_id spec) st (upd_vms (\<lambda>vs. vs @ [new_vm spec]) mg) mg'"
proof (cases "list_ex (\<lambda>v. v_id v = cs_id spec) (mg_vms mg)")
  case True
  then show ?thesis using assms exists_ by (simp add: cold_create_def)
next
  case False
  then have f: "find_vm (cs_id spec) (mg_vms mg) = None" by (auto simp: find_vm_None list_ex_iff)
  obtain r1 mg1 where c: "cold_create_inner os spec st None (upd_vms (\<lambda>vs. vs @ [new_vm spec]) mg) = (r1, mg1)"
    by (rule prod.exhaust)
  note cases = cold_create_inner_cases [OF c]
  show ?thesis
  proof (cases r1)
    case (Inl e)
    then have "r = Inl e" "mg' = set_state (cs_id spec) Errored mg1"
      using assms False c by (simp_all add: cold_create_def)
    then show ?thesis using failed f cases by blast
  next
    case (Inr u)
    then have "r = Inr ()" "mg' = mg1" using assms False c by (simp_all add: cold_create_def)
    then show ?thesis using created f cases Inr by simp
  qed
qed

subsection \<open>Forking\<close>

lemma or_errored_cases:
  assumes "or_errored vid r = (y, s')" "core (snd r) = core mg"
  shows "core s' = core mg \<and> r = (y, s') \<or> isl y \<and> core s' = core (set_state vid Errored mg)"
  using assms core_set_state by (cases r) (auto simp: or_errored_def split: sum.splits)

lemma fork_restore_cases:
  assumes "fork_restore os cid dir slot vs mg = (r, mg')"
  shows "core mg' = core mg \<or> isl r \<and> core mg' = core (set_state cid Errored mg)"
proof -
  let ?mg0 = "snd (on_world (os_unlink os (dir @ ''/fc.sock'')) mg)"
  have "core (snd (on_world (spawn_fc os ''spawn child firecracker: '' (dir @ ''/fc.sock'') (dir @ ''/serial.log'')) ?mg0))
      = core mg" by simp
  with assms [unfolded fork_restore_def Let_def] show ?thesis
  proof (cases rule: core_attemptE)
    case (ok pid mg1)
    from ok(2) show ?thesis
    proof (cases rule: attemptE)
      case (err e)
      then show ?thesis using or_errored_cases [OF err(1), of mg] ok(1) by auto
    next
      case inner: (ok u mg2)
      then have c2: "core mg2 = core mg" using or_errored_cases [OF inner(1), of mg] ok(1) by auto
      from inner(2) show ?thesis
      proof (cases rule: attemptE)
        case (err e)
        then show ?thesis using or_errored_cases [OF err(1), of mg] c2 by (auto split: if_splits)
      next
        case last: (ok w mg3)
        then show ?thesis using or_errored_cases [OF last(1), of mg] c2 by (auto split: if_splits)
      qed
    qed
  qed simp
qed

lemma fork_finish:
  assumes "attempt (write_meta os cid (publish cid pid slot Running ip vs mg)) (\<lambda>_ mg.
             let mg = snd (on_world (\<lambda>w. ((), fork_readdress os (mg_cidr mg) dir ip slot (mg_net_on mg) vs w)) mg) in
             attempt (commit_or_isolate os cid mg) (\<lambda>_ mg. (Inr ip, mg))) = (r, mg')"
  shows "core mg' = core (publish cid pid slot Running ip vs mg)
         \<or> isl r \<and> core mg' = core (deleted cid (publish cid pid slot Running ip vs mg))"
proof -
  let ?p = "publish cid pid slot Running ip vs mg"
  show ?thesis
    using assms core_write_meta [of os cid ?p]
  proof (cases rule: core_attemptE)
    case (ok u mg1)
    define mg2 where "mg2 = snd (on_world (\<lambda>w. ((), fork_readdress os (mg_cidr mg1) dir ip slot (mg_net_on mg1) vs w)) mg1)"
    have c2: "core mg2 = core ?p" using ok(1) by (simp add: mg2_def)
    have "attempt (commit_or_isolate os cid mg2) (\<lambda>_ mg. (Inr ip, mg)) = (r, mg')"
      using ok(2) by (simp add: mg2_def Let_def)
    moreover have "core (deleted cid mg2) = core (deleted cid ?p)" by (rule deleted_cong [OF c2])
    ultimately show ?thesis
      using c2 commit_core [of os cid mg2] by (cases rule: attemptE) (auto split: sum.splits)
  qed simp
qed

lemma fork_tail_cases:
  assumes "fork_tail os p cid dir mg = (r, mg')"
  shows "\<exists>mg1. (unbuilt mg mg1 \<and> isl r \<or> built cid Running mg mg1)
           \<and> (core mg' = core mg1
              \<or> isl r \<and> (core mg' = core (set_state cid Errored mg1) \<or> core mg' = core (deleted cid mg1)))"
  using assms unfolding fork_tail_def
proof (cases rule: attemptE)
  case (err e)
  then show ?thesis using fork_network_cases [OF err(1)] unfolding unbuilt_def by auto
next
  case (ok si mg2)
  obtain slot ip al where si: "si = (slot, ip)" "claimed mg slot ip al" and c2: "core mg2 = core (mg\<lparr>mg_allocator := al\<rparr>)"
    using fork_network_cases [OF ok(1)] by auto
  from ok(2) [unfolded si(1) prod.case] show ?thesis
  proof (cases rule: attemptE)
    case (err e)
    then show ?thesis using fork_restore_cases [OF err(1)] unbuilt_after [OF si(2) c2] by auto
  next
    case (ok pid mg3)
    have c3: "core mg3 = core mg2" using fork_restore_cases [OF ok(1)] by simp
    let ?q = "publish cid pid slot Running ip (v_vsock p)"
    have cq: "core (?q mg3) = core (?q (mg\<lparr>mg_allocator := al\<rparr>))"
      unfolding publish_def by (rule core_upd_vms_cong) (simp add: c3 c2)
    then have "built cid Running mg (?q mg3)" using si(2) unfolding built_def by blast
    then show ?thesis using fork_finish [OF ok(2)] by blast
  qed
qed

lemma fork_cases:
  assumes "fork os parent cid name mg = (r, mg')"
  obtains (early) "isl r" "core mg' = core mg"
  | (late) p dir mg0 where "valid_vm_id cid" "find_vm parent (mg_vms mg) = Some p" "find_vm cid (mg_vms mg) = None"
      "instance_path (mg_data_dir mg) cid = Some dir"
      "core mg0 = core (upd_vms (\<lambda>vs. vs @ [child_vm p cid name]) mg)" "fork_tail os p cid dir mg0 = (r, mg')"
proof (cases "valid_vm_id cid \<and> find_vm parent (mg_vms mg) \<noteq> None \<and> instance_dir mg parent \<noteq> None")
  case False
  then show ?thesis
    using assms early
    by (cases "find_vm parent (mg_vms mg)"; cases "instance_dir mg parent") (auto simp: fork_def split: if_splits)
next
  case True
  then have v: "valid_vm_id cid" by simp
  from True obtain p pdir where p: "find_vm parent (mg_vms mg) = Some p" "instance_dir mg parent = Some pdir" by auto
  have k: "sock_path mg parent = Some (pdir @ ''/fc.sock'')"
    using p(2) by (simp add: sock_path_def sock_path_sync_def instance_dir_def)
  obtain dir where d: "instance_path (mg_data_dir mg) cid = Some dir" using True by (simp add: instance_path_def)
  let ?snap = "on_world (parent_snapshot os (pdir @ ''/fc.sock'') pdir (v_state p = Running) (v_state p)) mg"
  have "attempt ?snap (\<lambda>_ mg. attempt (on_world (copy_instance os pdir dir) mg) (\<lambda>_ mg.
          if list_ex (\<lambda>v. v_id v = cid) (mg_vms mg) then (Inl ''AlreadyExists'', mg)
          else fork_tail os p cid dir (upd_vms (\<lambda>vs. vs @ [child_vm p cid name]) mg))) = (r, mg')"
    using assms True p k d by (simp add: fork_def)
  then show ?thesis
    using core_on_world
  proof (cases rule: core_attemptE)
    case (ok u mg1)
    from ok(2) core_on_world show ?thesis
    proof (cases rule: core_attemptE)
      case inner: (ok w mg2)
      have c: "core mg2 = core mg" using ok(1) inner(1) by simp
      show ?thesis
      proof (cases "list_ex (\<lambda>v. v_id v = cid) (mg_vms mg2)")
        case True
        then show ?thesis using inner(2) c early by auto
      next
        case False
        then have "find_vm cid (mg_vms mg) = None" using core_eqD(1) [OF c] by (auto simp: find_vm_None list_ex_iff)
        then show ?thesis
          using late [OF _ p(1) _ d core_upd_vms_cong [OF c]] v inner(2) False by simp
      qed
    qed (use ok early in simp)
  qed (use early in simp)
qed

end
