(* ===== verification/Vm_Invariant.thy ===== *)
theory Vm_Invariant
  imports Vm_Core
begin

text \<open>
  The invariant of the manager and that every operation keeps it: identifiers are plain path
  components, node ports are in range and belong to one mapping, and a slot belongs to at most
  one machine, is marked in the allocator, and determines the machine's address.  Reachable
  states are those that any sequence of operations and changes of the outside world leads to.
\<close>

subsection \<open>The invariant\<close>

definition held :: "Vm list \<Rightarrow> u32 list" where
  "held vms = List.map_filter v_slot vms"

definition slots_inv :: "Cidr \<Rightarrow> Vm list \<Rightarrow> Allocator option \<Rightarrow> bool" where
  "slots_inv c vms al
     = (distinct (held vms) \<and>
        (case al of
           None \<Rightarrow> True
         | Some a \<Rightarrow> alloc_inv a \<and> alloc_cidr a = c \<and> length (alloc_used a) = unat (host_count c)
             \<and> set (held vms) \<subseteq> used_slots a
             \<and> (\<forall>v\<in>set vms. v_ip v = map_option (\<lambda>s. fmt_ip (host_at c s)) (v_slot v))))"

definition all_node_ports :: "Vm list \<Rightarrow> u16 list" where
  "all_node_ports vms = concat (map (\<lambda>v. map node_port (v_exposes v)) vms)"

definition ports_inv :: "Vm list \<Rightarrow> bool" where
  "ports_inv vms
     = (distinct (all_node_ports vms)
        \<and> (\<forall>p\<in>set (all_node_ports vms). NODE_PORT_MIN \<le> p \<and> p \<le> NODE_PORT_MAX))"

definition ids_inv :: "Vm list \<Rightarrow> bool" where
  "ids_inv vms = list_all (\<lambda>v. valid_vm_id (v_id v) \<and> valid_vm_id (v_dir_id v)) vms"

text \<open>What is fixed when the manager starts: its directory, its network, and that it has an allocator.\<close>

type_synonym conf = "string \<times> bool \<times> Cidr \<times> bool"

definition conf :: "'w Manager \<Rightarrow> conf" where
  "conf mg = (mg_data_dir mg, mg_net_on mg, mg_cidr mg, mg_allocator mg \<noteq> None)"

definition mgr_inv :: "conf \<Rightarrow> 'w Manager \<Rightarrow> bool" where
  "mgr_inv k mg = (conf mg = k \<and> ids_inv (mg_vms mg) \<and> ports_inv (mg_vms mg)
                   \<and> slots_inv (mg_cidr mg) (mg_vms mg) (mg_allocator mg))"

lemma conf_simps [simp]:
  "conf (mg\<lparr>mg_vms := vms\<rparr>) = conf mg"
  "conf (mg\<lparr>mg_template_pools := ps\<rparr>) = conf mg"
  "conf (mg\<lparr>mg_capturing := cs\<rparr>) = conf mg"
  "conf (mg\<lparr>mg_backoff := bo\<rparr>) = conf mg"
  "conf (mg\<lparr>mg_host := h\<rparr>) = conf mg"
  "conf (upd_vms f mg) = conf mg"
  "conf (free_slot s mg) = conf mg"
  by (simp_all add: conf_def upd_vms_def free_slot_def)

lemma conf_core: "core a = core b \<Longrightarrow> conf a = conf b"
  by (simp add: conf_def core_eqD [of a b])

lemma conf_touched: "touched (mg_allocator mg) al \<Longrightarrow> conf (mg\<lparr>mg_allocator := al\<rparr>) = conf mg"
  by (auto simp: touched_def conf_def)

subsection \<open>Records\<close>

lemma held_simps [simp]:
  "held [] = []"
  "held (v # vms) = (case v_slot v of Some s \<Rightarrow> s # held vms | None \<Rightarrow> held vms)"
  "held (xs @ ys) = held xs @ held ys"
  by (simp_all add: held_def List.map_filter_def split: option.splits)

lemma held_cong: "map v_slot xs = map v_slot ys \<Longrightarrow> held xs = held ys"
proof -
  assume m: "map v_slot xs = map v_slot ys"
  show "held xs = held ys"
    using map_eq_imp_length_eq [OF m] m
    by (induction xs ys rule: list_induct2) (auto split: option.splits)
qed

lemma all_node_ports_simps [simp]:
  "all_node_ports [] = []"
  "all_node_ports (v # vms) = map node_port (v_exposes v) @ all_node_ports vms"
  "all_node_ports (xs @ ys) = all_node_ports xs @ all_node_ports ys"
  by (simp_all add: all_node_ports_def)

lemma used_node_ports_eq: "used_node_ports vms = set (all_node_ports vms)"
  by (simp add: used_node_ports_def all_node_ports_def)

text \<open>The fields of a record that the invariant reads, but for its identifier.\<close>

definition vm_key :: "Vm \<Rightarrow> u32 option \<times> string option \<times> ExposeEntry list \<times> string" where
  "vm_key v = (v_slot v, v_ip v, v_exposes v, v_dir_id v)"

lemma same_keys:
  assumes "map vm_key xs = map vm_key ys"
  shows "held xs = held ys \<and> all_node_ports xs = all_node_ports ys
    \<and> list_all (\<lambda>v. valid_vm_id (v_dir_id v)) xs = list_all (\<lambda>v. valid_vm_id (v_dir_id v)) ys
    \<and> (\<forall>v\<in>set xs. v_ip v = map_option f (v_slot v)) = (\<forall>v\<in>set ys. v_ip v = map_option f (v_slot v))"
  using map_eq_imp_length_eq [OF assms] assms
  by (induction xs ys rule: list_induct2) (auto simp: vm_key_def split: option.splits)

lemma mgr_inv_keys:
  assumes "mgr_inv k mg" "map vm_key vms = map vm_key (mg_vms mg)" "list_all (\<lambda>v. valid_vm_id (v_id v)) vms"
  shows "mgr_inv k (mg\<lparr>mg_vms := vms\<rparr>)"
  using assms(1,3) same_keys [OF assms(2), of "\<lambda>s. fmt_ip (host_at (mg_cidr mg) s)"]
  by (simp add: mgr_inv_def ids_inv_def ports_inv_def slots_inv_def list_all_iff ball_conj_distrib split: option.splits)

lemma mgr_inv_core: "core a = core b \<Longrightarrow> mgr_inv k a = mgr_inv k b"
  by (simp add: mgr_inv_def core_eqD [of a b] conf_core [of a b])

lemma mgr_inv_keep: "mgr_inv k mg \<Longrightarrow> core mg' = core mg \<Longrightarrow> mgr_inv k mg'"
  using mgr_inv_core by blast

text \<open>An update of one record that keeps what the invariant reads.\<close>

lemma mgr_inv_update:
  assumes "mgr_inv k mg" "\<And>v. vm_key (f v) = vm_key v" "\<And>v. valid_vm_id (v_id v) \<Longrightarrow> valid_vm_id (v_id (f v))"
  shows "mgr_inv k (upd_vms (update_vm vid f) mg)"
proof -
  have "map vm_key (update_vm vid f (mg_vms mg)) = map vm_key (mg_vms mg)"
    by (rule map_update_vm) (rule assms(2))
  moreover have "list_all (\<lambda>v. valid_vm_id (v_id v)) (update_vm vid f (mg_vms mg))"
    using assms(1,3) set_update_vm by (fastforce simp: mgr_inv_def ids_inv_def list_all_iff)
  ultimately show ?thesis using mgr_inv_keys [OF assms(1)] by (simp add: upd_vms_def)
qed

lemma mgr_inv_set_state [simp]: "mgr_inv k mg \<Longrightarrow> mgr_inv k (set_state vid st mg)"
  unfolding set_state_def by (rule mgr_inv_update) (simp_all add: vm_key_def)

lemma mgr_inv_set_pid [simp]: "mgr_inv k mg \<Longrightarrow> mgr_inv k (set_pid vid p mg)"
  unfolding set_pid_def by (rule mgr_inv_update) (simp_all add: vm_key_def)

text \<open>A new record holds nothing yet.\<close>

lemma mgr_inv_append:
  assumes "mgr_inv k mg" "valid_vm_id (v_id v)" "valid_vm_id (v_dir_id v)"
    and "v_slot v = None" "v_ip v = None" "v_exposes v = []"
  shows "mgr_inv k (upd_vms (\<lambda>vs. vs @ [v]) mg)"
  using assms by (auto simp: mgr_inv_def ids_inv_def ports_inv_def slots_inv_def upd_vms_def split: option.splits)

subsection \<open>Slots\<close>

lemma slots_inv_Some:
  "slots_inv c vms (Some a)
     = (distinct (held vms) \<and> alloc_inv a \<and> alloc_cidr a = c \<and> length (alloc_used a) = unat (host_count c)
        \<and> set (held vms) \<subseteq> used_slots a
        \<and> (\<forall>v\<in>set vms. v_ip v = map_option (\<lambda>s. fmt_ip (host_at c s)) (v_slot v)))"
  by (simp add: slots_inv_def)

lemma slots_inv_None: "slots_inv c vms None = distinct (held vms)"
  by (simp add: slots_inv_def)

lemma slots_inv_claim:
  assumes "slots_inv c vms (Some a)" "alloc_claim a = (Some s, a')"
  shows "slots_inv c vms (Some a')" "s \<notin> set (held vms)" "s \<in> used_slots a'"
    "slots_inv c vms (Some (alloc_free a' s))"
proof -
  have f: "alloc_inv a' \<and> length (alloc_used a') = length (alloc_used a) \<and> used_slots a' = insert s (used_slots a)
      \<and> s \<notin> used_slots a"
    using assms slots.claim_Some [of a s a'] by (simp add: slots_inv_Some)
  have c: "alloc_cidr a' = alloc_cidr a" using alloc_ops_shape(3) [of a] assms(2) by simp
  have r: "alloc_inv (alloc_free a' s)" "used_slots (alloc_free a' s) = used_slots a' - {s}"
    using slots.release [of a' s] f by auto
  show "slots_inv c vms (Some a')" "s \<notin> set (held vms)" "s \<in> used_slots a'"
    "slots_inv c vms (Some (alloc_free a' s))"
    using assms(1) f c r by (auto simp: slots_inv_Some)
qed

lemma slots_inv_touched: "slots_inv c vms al \<Longrightarrow> touched al al' \<Longrightarrow> slots_inv c vms al'"
  by (auto simp: touched_def dest: slots_inv_claim)

lemma mgr_inv_unbuilt:
  assumes "mgr_inv k mg" "unbuilt mg mg'"
  shows "mgr_inv k mg'"
proof -
  obtain al where al: "touched (mg_allocator mg) al" "core mg' = core (mg\<lparr>mg_allocator := al\<rparr>)"
    using assms(2) by (auto simp: unbuilt_def)
  have "mgr_inv k (mg\<lparr>mg_allocator := al\<rparr>)"
    using assms(1) slots_inv_touched [OF _ al(1)] conf_touched [OF al(1)] by (simp add: mgr_inv_def)
  then show ?thesis using mgr_inv_core [OF al(2)] by simp
qed

text \<open>Filling in the one record that holds no slot with a slot that nobody holds.\<close>

lemma held_update_vm:
  assumes "find_vm vid vms = Some v" "v_slot v = None" "\<And>u. v_slot (f u) = slot"
    "distinct (held vms)" "\<And>s. slot = Some s \<Longrightarrow> s \<notin> set (held vms)"
  shows "distinct (held (update_vm vid f vms))
         \<and> set (held (update_vm vid f vms)) = set_option slot \<union> set (held vms)"
  using assms by (induction vms) (auto split: if_splits option.splits)

lemma mgr_inv_publish:
  assumes "mgr_inv k mg" "find_vm vid (mg_vms mg) = Some v" "v_slot v = None" "claimed mg slot ip al"
  shows "mgr_inv k (publish vid pid slot st ip vs (mg\<lparr>mg_allocator := al\<rparr>))"
proof -
  define f where "f = (\<lambda>v :: Vm. v\<lparr>v_pid := Some pid, v_slot := slot, v_state := st, v_ip := ip, v_vsock := vs\<rparr>)"
  let ?vms = "update_vm vid f (mg_vms mg)"
  have m: "map v_exposes ?vms = map v_exposes (mg_vms mg)" "map v_id ?vms = map v_id (mg_vms mg)"
      "map v_dir_id ?vms = map v_dir_id (mg_vms mg)"
    by (rule map_update_vm; simp add: f_def)+
  have ports: "all_node_ports ?vms = all_node_ports (mg_vms mg)"
    using arg_cong [OF m(1), of "\<lambda>es. concat (map (map node_port) es)"] by (simp add: all_node_ports_def comp_def)
  have ids: "ids_inv ?vms = ids_inv (mg_vms mg)"
    unfolding ids_inv_def using m(2,3) by (metis (mono_tags, lifting) list_all_length length_map nth_map)
  have "slots_inv (mg_cidr mg) ?vms al"
  proof (cases al)
    case None
    then have "slot = None" "mg_allocator mg = None" using assms(4) by (auto simp: claimed_def split: if_splits)
    then show ?thesis
      using assms(1) held_update_vm [OF assms(2,3), of f slot] None by (simp add: f_def mgr_inv_def slots_inv_None)
  next
    case (Some a)
    have old: "slots_inv (mg_cidr mg) (mg_vms mg) (Some a)"
      using assms(1) slots_inv_touched [OF _ claimed_touched [OF assms(4)]] Some by (simp add: mgr_inv_def)
    have new: "\<forall>s. slot = Some s \<longrightarrow> s \<notin> set (held (mg_vms mg)) \<and> s \<in> used_slots a"
      using assms(1,4) Some slots_inv_claim by (auto simp: claimed_def mgr_inv_def split: if_splits)
    have ip: "ip = map_option (\<lambda>s. fmt_ip (host_at (mg_cidr mg) s)) slot"
      using assms(4) Some old by (auto simp: claimed_def slots_inv_Some alloc_ip_for_def split: if_splits)
    have "u \<in> set ?vms \<Longrightarrow> v_ip u = map_option (\<lambda>s. fmt_ip (host_at (mg_cidr mg) s)) (v_slot u)" for u
      using set_update_vm [of u vid f "mg_vms mg"] old ip by (auto simp: slots_inv_Some f_def)
    then show ?thesis
      using old new held_update_vm [OF assms(2,3), of f slot] Some by (auto simp: slots_inv_Some f_def)
  qed
  then show ?thesis
    using assms(1) ids ports conf_touched [OF claimed_touched [OF assms(4)]]
    by (simp add: mgr_inv_def ports_inv_def publish_def upd_vms_def f_def)
qed

lemma mgr_inv_built:
  assumes "mgr_inv k mg" "find_vm vid (mg_vms mg) = Some v" "v_slot v = None" "built vid st mg mg'"
  shows "mgr_inv k mg'"
proof -
  obtain slot ip al pid vs where cl: "claimed mg slot ip al"
      "core mg' = core (publish vid pid slot st ip vs (mg\<lparr>mg_allocator := al\<rparr>))"
    using assms(4) unfolding built_def by blast
  show ?thesis using mgr_inv_publish [OF assms(1-3) cl(1)] mgr_inv_core [OF cl(2)] by simp
qed

subsection \<open>Delete\<close>

lemma held_remove:
  assumes "distinct (held vms)"
  shows "held (remove_first (\<lambda>v. v_id v = vid) vms)
       = (case Option.bind (find_vm vid vms) v_slot of Some s \<Rightarrow> remove1 s (held vms) | None \<Rightarrow> held vms)"
  using assms
proof (induction vms)
  case (Cons v vms)
  have "s \<in> set (held vms)" if "find_vm vid vms = Some u" "v_slot u = Some s" for u s
    using find_vm_Some [OF that(1)] that(2) by (auto simp: held_def List.map_filter_def image_iff intro!: bexI [of _ u])
  then show ?case using Cons by (auto split: option.splits Option.bind_splits)
qed (simp add: find_vm_def)

lemma set_remove_first: "set (remove_first P xs) \<subseteq> set xs"
  by (induction xs) auto

lemma ports_remove:
  "distinct (all_node_ports vms) \<Longrightarrow> distinct (all_node_ports (remove_first P vms))
     \<and> set (all_node_ports (remove_first P vms)) \<subseteq> set (all_node_ports vms)"
  by (induction vms) auto

lemma mgr_inv_deleted:
  assumes "mgr_inv k mg"
  shows "mgr_inv k (deleted vid mg)"
proof -
  let ?vms = "remove_first (\<lambda>v. v_id v = vid) (mg_vms mg)"
  let ?slot = "Option.bind (find_vm vid (mg_vms mg)) v_slot"
  have d: "distinct (held (mg_vms mg))" using assms by (simp add: mgr_inv_def slots_inv_def)
  note sub = set_remove_first [of "\<lambda>v. v_id v = vid" "mg_vms mg"]
  have ids: "ids_inv ?vms" using assms sub by (auto simp: mgr_inv_def ids_inv_def list_all_iff)
  have ports: "ports_inv ?vms"
    using assms ports_remove [of "mg_vms mg" "\<lambda>v. v_id v = vid"] by (auto simp: mgr_inv_def ports_inv_def)
  have h: "distinct (held ?vms)" "set (held ?vms) = set (held (mg_vms mg)) - set_option ?slot"
    using d by (cases ?slot; simp add: held_remove)+
  have keep: "slots_inv (mg_cidr mg) ?vms (mg_allocator mg)"
    using assms h sub by (auto simp: mgr_inv_def slots_inv_def split: option.splits)
  have free: "slots_inv (mg_cidr mg) ?vms (map_option (\<lambda>a. alloc_free a s) (mg_allocator mg))" if "?slot = Some s" for s
  proof (cases "mg_allocator mg")
    case (Some a)
    then have "alloc_inv a" using keep by (simp add: slots_inv_Some)
    then show ?thesis using keep Some h(2) that slots.release [of a s] by (auto simp: slots_inv_Some)
  qed (use h in \<open>simp add: slots_inv_None\<close>)
  show ?thesis
    using assms ids ports keep free
    by (auto simp: deleted_def mgr_inv_def conf_def free_slot_def upd_vms_def Let_def split: option.splits bool.splits)
qed

lemma mgr_inv_delete [simp]: "mgr_inv k mg \<Longrightarrow> mgr_inv k (snd (delete os vid mg))"
  using mgr_inv_deleted [of k mg vid] mgr_inv_core [OF delete_core [of os vid mg]] by simp

lemma mgr_inv_stop [simp]:
  assumes "mgr_inv k mg"
  shows "mgr_inv k (snd (stop os vid mg))"
proof -
  have "mgr_inv k (upd_vms (update_vm vid (\<lambda>v. v\<lparr>v_state := Stopped, v_pid := None\<rparr>)) mg)"
    by (rule mgr_inv_update [OF assms]) (simp_all add: vm_key_def)
  then show ?thesis using mgr_inv_core [OF stop_core [of os vid mg]] by simp
qed

lemma mgr_inv_commit:
  assumes "mgr_inv k mg"
  shows "mgr_inv k (snd (commit_or_isolate os vid mg))"
proof -
  obtain r mg' where r: "commit_or_isolate os vid mg = (r, mg')" by (rule prod.exhaust)
  show ?thesis
    using commit_core [OF r] r assms mgr_inv_deleted [OF assms, of vid] mgr_inv_core
    by (cases r) (auto dest: mgr_inv_core)
qed

subsection \<open>Steps that keep the records\<close>

lemma mgr_inv_attempt:
  "mgr_inv k (snd r) \<Longrightarrow> (\<And>x s. mgr_inv k s \<Longrightarrow> mgr_inv k (snd (g x s))) \<Longrightarrow> mgr_inv k (snd (attempt r g))"
  by (cases r) (auto simp: attempt_def split: sum.splits)

lemma snd_map_err [simp]: "snd (map_err f r) = snd r"
  by (cases r) (simp add: map_err_def split: sum.splits)

lemma mgr_inv_steps [simp]:
  "mgr_inv k (snd (on_world f mg)) = mgr_inv k mg"
  "mgr_inv k (snd (on_host g mg)) = mgr_inv k mg"
  "mgr_inv k (snd (write_meta os vid mg)) = mgr_inv k mg"
  "mgr_inv k (snd (refresh_isolation os mg)) = mgr_inv k mg"
  "mgr_inv k (refresh_ingress os mg) = mgr_inv k mg"
  "mgr_inv k (snd (pin_slot os s ip mg)) = mgr_inv k mg"
  "mgr_inv k (snd (repin os slot ip mg)) = mgr_inv k mg"
  "mgr_inv k (snd (spawn_and_configure os vid dir rootfs vcpus mem slot ip mg)) = mgr_inv k mg"
  by (rule mgr_inv_core; simp)+

lemma mgr_inv_on_world: "on_world f mg = (r, mg') \<Longrightarrow> mgr_inv k mg \<Longrightarrow> mgr_inv k mg'"
  using mgr_inv_steps(1) [of k f mg] by simp

lemma mgr_inv_fields [simp]:
  "mgr_inv k (mg\<lparr>mg_template_pools := ps\<rparr>) = mgr_inv k mg"
  "mgr_inv k (mg\<lparr>mg_capturing := cs\<rparr>) = mgr_inv k mg"
  "mgr_inv k (mg\<lparr>mg_backoff := bo\<rparr>) = mgr_inv k mg"
  "mgr_inv k (mg\<lparr>mg_host := h\<rparr>) = mgr_inv k mg"
  by (simp_all add: mgr_inv_def)

lemma mgr_inv_on_fc_exit:
  assumes "mgr_inv k mg"
  shows "mgr_inv k (on_fc_exit os vid pid mg)"
proof -
  have "mgr_inv k (upd_vms (update_vm vid (\<lambda>v. v\<lparr>v_state := Errored, v_pid := None\<rparr>)) mg)"
    by (rule mgr_inv_update [OF assms]) (simp_all add: vm_key_def)
  then show ?thesis using assms by (simp add: on_fc_exit_def split: option.splits)
qed

lemma mgr_inv_fold: "(\<And>x mg. mgr_inv k mg \<Longrightarrow> mgr_inv k (f x mg)) \<Longrightarrow> mgr_inv k mg \<Longrightarrow> mgr_inv k (fold f xs mg)"
  by (induction xs arbitrary: mg) auto

lemma mgr_inv_sweep_dead: "mgr_inv k mg \<Longrightarrow> mgr_inv k (sweep_dead os mg)"
  unfolding sweep_dead_def
proof (rule mgr_inv_fold)
  fix c :: "string \<times> int" and mg :: "'a Manager"
  assume m: "mgr_inv k mg"
  then have "mgr_inv k (snd (on_world (os_kill os (snd c) 0) mg))" by simp
  then show "mgr_inv k (sweep_one os c mg)"
    by (auto simp: sweep_one_def case_prod_beta Let_def intro!: mgr_inv_on_fc_exit)
qed

lemma mgr_inv_gc_images: "mgr_inv k mg \<Longrightarrow> mgr_inv k (gc_images os age mg)"
  by (auto simp: gc_images_def gc_entry_def Let_def split: option.splits intro!: mgr_inv_fold)

lemma mgr_inv_pause: "mgr_inv k mg \<Longrightarrow> mgr_inv k (snd (pause os vid mg))"
  by (auto simp: pause_def split: VmState.splits intro!: mgr_inv_attempt)

lemma mgr_inv_resume: "mgr_inv k mg \<Longrightarrow> mgr_inv k (snd (resume os vid mg))"
  by (auto simp: resume_def split: VmState.splits intro!: mgr_inv_attempt)

lemma mgr_inv_sleep: "mgr_inv k mg \<Longrightarrow> mgr_inv k (snd (sleep_vm os vid mg))"
  by (auto simp: sleep_vm_def Let_def split: option.splits intro!: mgr_inv_attempt)

lemma mgr_inv_wake: "mgr_inv k mg \<Longrightarrow> mgr_inv k (snd (wake_vm os vid mg))"
  by (auto simp: wake_vm_def Let_def split: option.splits intro!: mgr_inv_attempt)

lemma mgr_inv_start_guard: "mgr_inv k mg \<Longrightarrow> mgr_inv k (snd (start_guard os vid mg))"
  by (auto simp: start_guard_def Let_def split: option.splits VmState.splits prod.splits
      intro!: mgr_inv_attempt intro: mgr_inv_on_world)

lemma mgr_inv_vsock: "mgr_inv k mg \<Longrightarrow> mgr_inv k (upd_vms (update_vm vid (\<lambda>v. v\<lparr>v_vsock := b\<rparr>)) mg)"
  by (rule mgr_inv_update) (simp_all add: vm_key_def)

lemma mgr_inv_start: "mgr_inv k mg \<Longrightarrow> mgr_inv k (snd (start os vid mg))"
  unfolding start_def
  by (intro mgr_inv_attempt mgr_inv_start_guard)
    (auto simp: Let_def case_prod_beta mgr_inv_vsock split: option.splits intro!: mgr_inv_attempt)

lemma mgr_inv_exec_with: "mgr_inv k mg \<Longrightarrow> mgr_inv k (snd (exec_with call vid mg))"
  by (auto simp: exec_with_def split: option.splits prod.splits sum.splits intro: mgr_inv_on_world)

lemma mgr_inv_captures:
  "mgr_inv k mg \<Longrightarrow> mgr_inv k (snd (begin_capture vid mg))"
  "mgr_inv k mg \<Longrightarrow> mgr_inv k (end_capture vid mg)"
  "mgr_inv k mg \<Longrightarrow> mgr_inv k (snd (set_pools os specs mg))"
  by (auto simp: begin_capture_def end_capture_def set_pools_def split: option.splits intro!: mgr_inv_attempt)

subsection \<open>Node ports\<close>

lemma update_vm_split:
  "find_vm vid vms = Some v \<Longrightarrow> \<exists>xs ys. vms = xs @ v # ys \<and> update_vm vid f vms = xs @ f v # ys"
proof (induction vms)
  case (Cons u vms)
  show ?case
  proof (cases "v_id u = vid")
    case True
    then show ?thesis using Cons.prems by (intro exI [where x = "[]"] exI [where x = vms]) simp
  next
    case False
    then obtain xs ys where "vms = xs @ v # ys" "update_vm vid f vms = xs @ f v # ys" using Cons by auto
    then show ?thesis using False by (intro exI [where x = "u # xs"] exI [where x = ys]) simp
  qed
qed simp

lemma disjoint_outside: "A \<inter> B \<subseteq> V \<Longrightarrow> X \<subseteq> B \<Longrightarrow> X \<inter> V = {} \<Longrightarrow> A \<inter> X = {}"
  by blast

lemma ports_update_vm:
  assumes "find_vm vid vms = Some v" "distinct (all_node_ports vms)"
    and "distinct (map node_port es)" "node_port ` set es \<inter> set (all_node_ports vms) \<subseteq> node_port ` set (v_exposes v)"
    and f: "f v = v\<lparr>v_exposes := es\<rparr>"
  shows "distinct (all_node_ports (update_vm vid f vms))
         \<and> set (all_node_ports (update_vm vid f vms)) \<subseteq> set (all_node_ports vms) \<union> node_port ` set es"
proof -
  obtain xs ys where x: "vms = xs @ v # ys" "update_vm vid f vms = xs @ f v # ys"
    using update_vm_split [OF assms(1)] by blast
  have d: "set (all_node_ports xs) \<inter> node_port ` set (v_exposes v) = {}"
    "set (all_node_ports ys) \<inter> node_port ` set (v_exposes v) = {}"
    "distinct (all_node_ports xs)" "distinct (all_node_ports ys)"
    "set (all_node_ports xs) \<inter> set (all_node_ports ys) = {}"
    using assms(2) unfolding x(1) by auto
  have e: "node_port ` set es \<inter> set (all_node_ports xs) = {}" "node_port ` set es \<inter> set (all_node_ports ys) = {}"
    by (rule disjoint_outside [OF assms(4)]; auto simp: d x(1))+
  have n: "all_node_ports (xs @ f v # ys) = all_node_ports xs @ map node_port es @ all_node_ports ys"
    by (simp add: f)
  show ?thesis
  proof
    show "distinct (all_node_ports (update_vm vid f vms))"
      unfolding x(2) n distinct_append set_append set_map Int_Un_distrib Int_commute [of "set (all_node_ports xs)"]
      using d(3-5) e assms(3) by (simp add: Int_commute)
    show "set (all_node_ports (update_vm vid f vms)) \<subseteq> set (all_node_ports vms) \<union> node_port ` set es"
      unfolding x(2) n unfolding x(1) by auto
  qed
qed

lemma mgr_inv_exposes:
  assumes "mgr_inv k mg" "find_vm vid (mg_vms mg) = Some v" "distinct (map node_port es)"
    and "node_port ` set es \<inter> set (all_node_ports (mg_vms mg)) \<subseteq> node_port ` set (v_exposes v)"
    and "\<forall>p\<in>node_port ` set es. NODE_PORT_MIN \<le> p \<and> p \<le> NODE_PORT_MAX"
    and f: "f v = v\<lparr>v_exposes := es\<rparr>" "\<And>u. \<exists>es. f u = u\<lparr>v_exposes := es\<rparr>"
  shows "mgr_inv k (upd_vms (update_vm vid f) mg)"
proof -
  let ?vms = "update_vm vid f (mg_vms mg)"
  have "v_slot (f u) = v_slot u" "v_ip (f u) = v_ip u" "v_id (f u) = v_id u" "v_dir_id (f u) = v_dir_id u" for u
    using f(2) [of u] by auto
  note fs = this
  have m: "map (\<lambda>v. (v_slot v, v_ip v, v_id v, v_dir_id v)) ?vms = map (\<lambda>v. (v_slot v, v_ip v, v_id v, v_dir_id v)) (mg_vms mg)"
    by (rule map_update_vm) (simp add: fs)
  have h: "held ?vms = held (mg_vms mg)"
    using arg_cong [OF m, of "map fst"] by (intro held_cong) (simp add: comp_def)
  have "distinct (all_node_ports (mg_vms mg))" using assms(1) by (simp add: mgr_inv_def ports_inv_def)
  from ports_update_vm [where f = f, OF assms(2) this assms(3,4) f(1)]
  have ports: "ports_inv ?vms" using assms(1,5) unfolding mgr_inv_def ports_inv_def by blast
  have all: "(\<forall>u\<in>set ?vms. P (v_slot u) (v_ip u) (v_id u) (v_dir_id u))
           = (\<forall>u\<in>set (mg_vms mg). P (v_slot u) (v_ip u) (v_id u) (v_dir_id u))" for P
    using arg_cong [OF m, of "\<lambda>xs. \<forall>(s, ip, i, d)\<in>set xs. P s ip i d"] by simp
  show ?thesis
    using assms(1) ports h all [of "\<lambda>s ip i d. valid_vm_id i \<and> valid_vm_id d"]
      all [of "\<lambda>s ip i d. ip = map_option (\<lambda>s. fmt_ip (host_at (mg_cidr mg) s)) s"]
    by (simp add: mgr_inv_def ids_inv_def list_all_iff slots_inv_def upd_vms_def split: option.splits)
qed

lemma own_ports:
  assumes "mgr_inv k mg" "find_vm vid (mg_vms mg) = Some v"
  shows "distinct (map node_port (v_exposes v))" "node_port ` set (v_exposes v) \<subseteq> set (all_node_ports (mg_vms mg))"
    "\<forall>p\<in>node_port ` set (v_exposes v). NODE_PORT_MIN \<le> p \<and> p \<le> NODE_PORT_MAX"
proof -
  obtain xs ys where "mg_vms mg = xs @ v # ys" using update_vm_split [OF assms(2)] by blast
  then show "distinct (map node_port (v_exposes v))" "node_port ` set (v_exposes v) \<subseteq> set (all_node_ports (mg_vms mg))"
    "\<forall>p\<in>node_port ` set (v_exposes v). NODE_PORT_MIN \<le> p \<and> p \<le> NODE_PORT_MAX"
    using assms(1) by (auto simp: mgr_inv_def ports_inv_def)
qed

lemma mgr_inv_expose:
  assumes "mgr_inv k mg"
  shows "mgr_inv k (snd (expose os vid gport mg))"
proof (cases "find_vm vid (mg_vms mg)")
  case (Some v)
  have "mgr_inv k (upd_vms (update_vm vid (\<lambda>v. v\<lparr>v_exposes := v_exposes v @ [\<lparr>guest_port = gport, node_port = np\<rparr>]\<rparr>)) mg)"
    if np: "lowest_free_node_port (used_node_ports (mg_vms mg)) = Some np" for np
  proof (rule mgr_inv_exposes [OF assms Some])
    have n: "np \<notin> set (all_node_ports (mg_vms mg))" "NODE_PORT_MIN \<le> np" "np \<le> NODE_PORT_MAX"
      using lowest_free_node_port_Some [OF np] by (auto simp: used_node_ports_eq)
    note o = own_ports [OF assms Some]
    show "distinct (map node_port (v_exposes v @ [\<lparr>guest_port = gport, node_port = np\<rparr>]))"
      using o(1,2) n(1) by auto
    show "node_port ` set (v_exposes v @ [\<lparr>guest_port = gport, node_port = np\<rparr>]) \<inter> set (all_node_ports (mg_vms mg))
        \<subseteq> node_port ` set (v_exposes v)"
      using n(1) by auto
    show "\<forall>p\<in>node_port ` set (v_exposes v @ [\<lparr>guest_port = gport, node_port = np\<rparr>]). NODE_PORT_MIN \<le> p \<and> p \<le> NODE_PORT_MAX"
      using o(3) n(2,3) by auto
  qed auto
  then show ?thesis using assms Some by (simp add: expose_def Let_def split: option.splits)
qed (use assms in \<open>simp add: expose_def\<close>)

lemma distinct_map_filterI: "distinct (map f xs) \<Longrightarrow> distinct (map f (filter P xs))"
  by (induction xs) auto

lemma mgr_inv_unexpose:
  assumes "mgr_inv k mg"
  shows "mgr_inv k (snd (unexpose os vid gport mg))"
proof (cases "find_vm vid (mg_vms mg)")
  case (Some v)
  note o = own_ports [OF assms Some]
  have "mgr_inv k (upd_vms (update_vm vid (\<lambda>u. u\<lparr>v_exposes := filter (\<lambda>e. guest_port e \<noteq> gport) (v_exposes v)\<rparr>)) mg)"
    by (rule mgr_inv_exposes [OF assms Some]) (use o in \<open>auto simp: distinct_map_filterI\<close>)
  then show ?thesis using assms Some by (simp add: unexpose_def Let_def)
qed (use assms in \<open>simp add: unexpose_def\<close>)

subsection \<open>Create and refill\<close>

lemma find_vm_append_new: "find_vm i vms = None \<Longrightarrow> v_id v = i \<Longrightarrow> find_vm i (vms @ [v]) = Some v"
  by (simp add: find_vm_append)

lemma mgr_inv_cold_create:
  assumes "mgr_inv k mg" "valid_vm_id (cs_id spec)"
  shows "mgr_inv k (snd (cold_create os spec st None mg))"
proof -
  obtain r mg' where r: "cold_create os spec st None mg = (r, mg')" by (rule prod.exhaust)
  let ?mg0 = "upd_vms (\<lambda>vs. vs @ [new_vm spec]) mg"
  have n: "v_id (new_vm spec) = cs_id spec" "v_dir_id (new_vm spec) = cs_id spec" "v_slot (new_vm spec) = None"
      "v_ip (new_vm spec) = None" "v_exposes (new_vm spec) = []"
    by (simp_all add: new_vm_def)
  have m0: "mgr_inv k ?mg0" by (rule mgr_inv_append) (simp_all add: assms n)
  have f0: "find_vm (cs_id spec) (mg_vms ?mg0) = Some (new_vm spec)" if "find_vm (cs_id spec) (mg_vms mg) = None"
    using find_vm_append_new [OF that n(1)] by (simp add: upd_vms_def)
  from r have "mgr_inv k mg'"
  proof (cases rule: cold_create_cases)
    case (failed mg1 e)
    then have "mgr_inv k mg1" using mgr_inv_unbuilt [OF m0] mgr_inv_built [OF m0 f0 n(3)] by blast
    then show ?thesis using failed(3) by simp
  next
    case created
    then show ?thesis using mgr_inv_built [OF m0 f0 n(3)] by blast
  qed (simp add: assms(1))
  then show ?thesis using r by simp
qed

lemma mgr_inv_retag:
  assumes "mgr_inv k mg" "valid_vm_id (cs_id spec)" "idx < length (mg_vms mg)"
  shows "mgr_inv k (upd_vms (\<lambda>vs. vs[idx := retag spec (vs ! idx)]) mg)"
proof -
  let ?vms = "(mg_vms mg)[idx := retag spec (mg_vms mg ! idx)]"
  have "vm_key (retag spec (mg_vms mg ! idx)) = map vm_key (mg_vms mg) ! idx"
    using assms(3) by (simp add: vm_key_def retag_def)
  then have "map vm_key ?vms = map vm_key (mg_vms mg)" by (simp add: map_update)
  moreover have "list_all (\<lambda>v. valid_vm_id (v_id v)) ?vms"
    using assms set_update_subset_insert [of "mg_vms mg" idx "retag spec (mg_vms mg ! idx)"]
    by (auto simp: mgr_inv_def ids_inv_def list_all_iff retag_def)
  ultimately show ?thesis using mgr_inv_keys [OF assms(1)] by (simp add: upd_vms_def)
qed

lemma mgr_inv_claim_from_pool:
  assumes "mgr_inv k mg" "valid_vm_id (cs_id spec)"
  shows "mgr_inv k (snd (claim_from_pool os spec mg))"
proof (cases "find_pooled_match (mg_vms mg) (cs_image spec) (cs_image_sha256 spec) (cs_vcpus spec) (cs_mem_mib spec)
                (cs_disk_gb spec)")
  case (Some idx)
  then have i: "idx < length (mg_vms mg)" by (auto simp: find_pooled_match_def position_Some)
  have p: "valid_vm_id (v_id (mg_vms mg ! idx))"
    using assms(1) i by (simp add: mgr_inv_def ids_inv_def list_all_length)
  have u: "mgr_inv k (upd_vms (update_vm (cs_id spec) (untag (v_id (mg_vms mg ! idx)))) s)" if "mgr_inv k s" for s :: "'a Manager"
    by (rule mgr_inv_update [OF that]) (simp_all add: vm_key_def untag_def p)
  show ?thesis
    unfolding claim_from_pool_def Some option.case Let_def
    by (rule mgr_inv_attempt)
      (auto simp: mgr_inv_retag [OF assms i] split: prod.splits sum.splits option.splits
        intro!: mgr_inv_attempt mgr_inv_on_fc_exit u mgr_inv_set_state dest: mgr_inv_on_world)
qed (simp add: claim_from_pool_def assms)

lemma mgr_inv_create:
  assumes "mgr_inv k mg"
  shows "mgr_inv k (snd (create os spec mg))"
  unfolding create_def
  by (auto intro!: mgr_inv_attempt mgr_inv_claim_from_pool mgr_inv_cold_create mgr_inv_commit simp: assms)

lemma hex_digit_alnum: "n < 16 \<Longrightarrow> is_ascii_alphanumeric (hex_digit n)"
  by (auto simp: hex_digit_def ascii_defs)

lemma show_hex_alnum: "list_all is_ascii_alphanumeric (show_hex n)"
proof (induction n rule: show_hex.induct)
  case (1 n)
  then show ?case by (subst show_hex.simps) (simp add: hex_digit_alnum)
qed

lemma show_hex_length: "n < 16 ^ Suc k \<Longrightarrow> length (show_hex n) \<le> Suc k"
proof (induction k arbitrary: n)
  case (Suc k)
  have "n div 16 < 16 ^ Suc k" using Suc.prems by (simp add: less_mult_imp_div_less)
  then show ?case using Suc.IH [of "n div 16"] by (subst show_hex.simps) simp
qed (subst show_hex.simps, simp)

lemma pool_id_valid: "valid_vm_id (''pool-'' @ show_hex (unat (n :: u64)))"
proof -
  let ?h = "show_hex (unat n)"
  have l: "length ?h \<le> 16" using show_hex_length [of "unat n" 15] unsigned_less [of n, where 'a = nat] by simp
  have a: "list_all is_ascii_alphanumeric ?h" by (rule show_hex_alnum)
  have "CHR ''.'' \<notin> set (''pool-'' @ ?h)" using a by (auto simp: list_all_iff ascii_defs)
  then have "\<not> contains_str ''..'' (''pool-'' @ ?h)"
    unfolding contains_str_iff using in_set_conv_decomp [of "CHR ''.''" "''pool-'' @ ?h"] by auto
  moreover have "list_all vm_id_char ?h" using a by (simp add: list_all_iff vm_id_char_def)
  ultimately show ?thesis using l by (simp add: valid_vm_id_def vm_id_char_def ascii_defs)
qed

lemma mgr_inv_refill_loop: "mgr_inv k mg \<Longrightarrow> mgr_inv k (snd (refill_loop os n spec mg))"
proof (induction n arbitrary: mg)
  case (Suc n)
  let ?vid = "''pool-'' @ show_hex (unat (now_ms os (mg_world mg)))"
  obtain r mg1 where r: "cold_create os (pool_create_spec ?vid spec) Pooled None mg = (r, mg1)" by (rule prod.exhaust)
  have "valid_vm_id (cs_id (pool_create_spec ?vid spec))" using pool_id_valid by (simp add: pool_create_spec_def)
  from mgr_inv_cold_create [OF Suc.prems this, of os Pooled] r have "mgr_inv k mg1" by simp
  then show ?case using Suc r by (auto simp: Let_def split: sum.splits)
qed simp

lemma mgr_inv_refill_pool: "mgr_inv k mg \<Longrightarrow> mgr_inv k (refill_pool os mg)"
  unfolding refill_pool_def Let_def
  by (intro mgr_inv_fold) (auto simp: refill_spec_def Let_def case_prod_beta mgr_inv_refill_loop simp del: refill_loop.simps)

lemma mgr_inv_fork:
  assumes "mgr_inv k mg"
  shows "mgr_inv k (snd (fork os parent cid name mg))"
proof -
  obtain r mg' where r: "fork os parent cid name mg = (r, mg')" by (rule prod.exhaust)
  from r have "mgr_inv k mg'"
  proof (cases rule: fork_cases)
    case early
    then show ?thesis using assms mgr_inv_core by blast
  next
    case (late p dir mg0)
    let ?v = "child_vm p cid name"
    have n: "v_id ?v = cid" "v_dir_id ?v = cid" "v_slot ?v = None" "v_ip ?v = None" "v_exposes ?v = []"
      by (simp_all add: child_vm_def)
    have "mgr_inv k (upd_vms (\<lambda>vs. vs @ [?v]) mg)" by (rule mgr_inv_append) (simp_all add: assms n late(1))
    then have m0: "mgr_inv k mg0" using mgr_inv_core [OF late(5)] by simp
    have f0: "find_vm cid (mg_vms mg0) = Some ?v"
      using core_eqD(1) [OF late(5)] find_vm_append_new [OF late(3) n(1)] by (simp add: upd_vms_def)
    obtain mg1 where m1: "unbuilt mg0 mg1 \<or> built cid Running mg0 mg1"
      and c: "core mg' = core mg1 \<or> core mg' = core (set_state cid Errored mg1) \<or> core mg' = core (deleted cid mg1)"
      using fork_tail_cases [OF late(6)] by blast
    have "mgr_inv k mg1" using m1 mgr_inv_unbuilt [OF m0] mgr_inv_built [OF m0 f0 n(3)] by blast
    then have "mgr_inv k mg1" "mgr_inv k (set_state cid Errored mg1)" "mgr_inv k (deleted cid mg1)"
      by (simp_all add: mgr_inv_deleted)
    then show ?thesis using c mgr_inv_core by blast
  qed
  then show ?thesis using r by simp
qed

subsection \<open>Reachable states\<close>

datatype mgr_op =
    OpCreate CreateSpec
  | OpFork string string string
  | OpDelete string
  | OpStop string
  | OpStart string
  | OpPause string
  | OpResume string
  | OpSleep string
  | OpWake string
  | OpExec string "string list" u64
  | OpExecStream string "string list" u64
  | OpExpose string u16
  | OpUnexpose string u16
  | OpSetPools "PoolSpec list"
  | OpBeginCapture string
  | OpEndCapture string
  | OpFcExit string int
  | OpSweepDead
  | OpPoolTick nat

fun mgr_apply :: "'w os \<Rightarrow> mgr_op \<Rightarrow> 'w Manager \<Rightarrow> 'w Manager" where
  "mgr_apply os (OpCreate spec) mg = snd (create os spec mg)"
| "mgr_apply os (OpFork parent child name) mg = snd (fork os parent child name mg)"
| "mgr_apply os (OpDelete vid) mg = snd (delete os vid mg)"
| "mgr_apply os (OpStop vid) mg = snd (stop os vid mg)"
| "mgr_apply os (OpStart vid) mg = snd (start os vid mg)"
| "mgr_apply os (OpPause vid) mg = snd (pause os vid mg)"
| "mgr_apply os (OpResume vid) mg = snd (resume os vid mg)"
| "mgr_apply os (OpSleep vid) mg = snd (sleep_vm os vid mg)"
| "mgr_apply os (OpWake vid) mg = snd (wake_vm os vid mg)"
| "mgr_apply os (OpExec vid cmd ms) mg = snd (mgr_exec os vid cmd ms mg)"
| "mgr_apply os (OpExecStream vid cmd ms) mg = snd (mgr_exec_stream os vid cmd ms mg)"
| "mgr_apply os (OpExpose vid port) mg = snd (expose os vid port mg)"
| "mgr_apply os (OpUnexpose vid port) mg = snd (unexpose os vid port mg)"
| "mgr_apply os (OpSetPools specs) mg = snd (set_pools os specs mg)"
| "mgr_apply os (OpBeginCapture vid) mg = snd (begin_capture vid mg)"
| "mgr_apply os (OpEndCapture vid) mg = end_capture vid mg"
| "mgr_apply os (OpFcExit vid pid) mg = on_fc_exit os vid pid mg"
| "mgr_apply os OpSweepDead mg = sweep_dead os mg"
| "mgr_apply os (OpPoolTick n) mg = snd (pool_tick os n mg)"

text \<open>Between two operations the outside world may do anything to itself.\<close>

inductive reach :: "'w os \<Rightarrow> 'w Manager \<Rightarrow> 'w Manager \<Rightarrow> bool" for os mg0 where
  reach_refl: "reach os mg0 mg0"
| reach_op: "reach os mg0 mg \<Longrightarrow> reach os mg0 (mgr_apply os op mg)"
| reach_world: "reach os mg0 mg \<Longrightarrow> reach os mg0 (mg\<lparr>mg_host := (mg_host mg)\<lparr>h_world := w\<rparr>\<rparr>)"

lemma mgr_inv_apply: "mgr_inv k mg \<Longrightarrow> mgr_inv k (mgr_apply os op mg)"
  by (cases op)
    (simp_all add: mgr_inv_create mgr_inv_fork mgr_inv_start mgr_inv_pause mgr_inv_resume mgr_inv_sleep
      mgr_inv_wake mgr_exec_def mgr_exec_stream_def mgr_inv_exec_with mgr_inv_expose mgr_inv_unexpose
      mgr_inv_captures mgr_inv_on_fc_exit mgr_inv_sweep_dead pool_tick_def Let_def mgr_inv_refill_pool
      mgr_inv_gc_images)

lemma reach_inv: "reach os mg0 mg \<Longrightarrow> mgr_inv k mg0 \<Longrightarrow> mgr_inv k mg"
  by (induction rule: reach.induct) (simp_all add: mgr_inv_apply)

end
