(* ===== verification/Vm_Reach.thy ===== *)
theory Vm_Reach
  imports Vm_Invariant Vm_Reconcile
begin

text \<open>
  Starting the manager (\<open>agent/src/main.rs\<close>, from \<open>Manager::new\<close> to the first request) and what
  holds in every state that is reachable from there: the properties that tenants and the host
  rely on.
\<close>

subsection \<open>Start\<close>

text \<open>The refusal to serve without fences is \<open>None\<close>.\<close>

definition boot_manager ::
    "'w os \<Rightarrow> string \<Rightarrow> bool \<Rightarrow> Cidr \<Rightarrow> u32 \<Rightarrow> string \<Rightarrow> string \<Rightarrow> u16 \<Rightarrow> 'w host \<Rightarrow> 'w Manager option" where
  "boot_manager os data_dir net_on cidr pool_size control_plane token port h
     = (let mg = manager_new data_dir net_on cidr pool_size control_plane token (set_agent_port port h);
            mg = setup_host os mg;
            mg = reconcile os mg;
            mg = snd (refresh_isolation os mg)
        in if net_on \<and> \<not> netfilter_ready (mg_host mg) then None
           else Some (refresh_ingress os mg))"

subsection \<open>What the instances directory holds\<close>

definition entry_meta :: "'w os \<Rightarrow> string \<Rightarrow> 'w \<Rightarrow> dirent option \<Rightarrow> Meta option" where
  "entry_meta os data_dir w e
     = Option.bind e (\<lambda>d.
         if de_dir d \<noteq> Some True then None
         else Option.bind (read_meta os data_dir (from_utf8_lossy (de_name d)) w) (\<lambda>m.
           if valid_vm_id (m_id m) \<and> valid_vm_id (m_dir_id m) then Some m else None))"

definition disk_metas :: "'w os \<Rightarrow> string \<Rightarrow> 'w \<Rightarrow> Meta list" where
  "disk_metas os data_dir w
     = (case os_read_dir os (data_dir @ ''/instances'') w of
          None \<Rightarrow> []
        | Some entries \<Rightarrow> List.map_filter (entry_meta os data_dir w) entries)"

definition meta_slots :: "Meta list \<Rightarrow> u32 list" where
  "meta_slots ms = List.map_filter m_slot ms"

definition meta_ports :: "Meta list \<Rightarrow> u16 list" where
  "meta_ports ms = concat (map (\<lambda>m. map node_port (m_exposes m)) ms)"

text \<open>The metadata on disk gives no slot and no node port twice, and only what the node can give.\<close>

definition metas_ok :: "Cidr \<Rightarrow> Meta list \<Rightarrow> bool" where
  "metas_ok c ms
     = (distinct (meta_slots ms) \<and> (\<forall>s\<in>set (meta_slots ms). s < host_count c)
        \<and> (\<forall>m\<in>set ms. m_ip m = map_option (\<lambda>s. fmt_ip (host_at c s)) (m_slot m))
        \<and> distinct (meta_ports ms)
        \<and> (\<forall>p\<in>set (meta_ports ms). NODE_PORT_MIN \<le> p \<and> p \<le> NODE_PORT_MAX))"

text \<open>Signal 0 is a probe: it changes no file.\<close>

definition probe_keeps_files :: "'w os \<Rightarrow> bool" where
  "probe_keeps_files os = (\<forall>p w path. os_read os path (snd (os_kill os p 0 w)) = os_read os path w)"

lemma read_meta_cong: "\<forall>path. os_read os path w1 = os_read os path w \<Longrightarrow> read_meta os d n w1 = read_meta os d n w"
  by (simp add: read_meta_def read_to_string_def)

lemma adopt_state_files:
  "probe_keeps_files os \<Longrightarrow> os_read os path (snd (adopt_state os d n m w)) = os_read os path w"
  by (auto simp: adopt_state_def pid_alive_def probe_keeps_files_def Let_def case_prod_beta split: option.splits bool.splits prod.splits)

definition meta_key :: "Meta \<Rightarrow> u32 option \<times> string option \<times> ExposeEntry list \<times> string \<times> string" where
  "meta_key m = (m_slot m, m_ip m, m_exposes m, m_id m, m_dir_id m)"

definition adopted_key :: "Vm \<Rightarrow> u32 option \<times> string option \<times> ExposeEntry list \<times> string \<times> string" where
  "adopted_key v = (v_slot v, v_ip v, v_exposes v, v_id v, v_dir_id v)"

definition reserve_all :: "u32 list \<Rightarrow> Allocator \<Rightarrow> Allocator" where
  "reserve_all ss a = fold (\<lambda>s a. alloc_reserve a s) ss a"

lemma reserve_all_simps [simp]:
  "reserve_all [] = (\<lambda>a. a)"
  "reserve_all (s # ss) a = reserve_all ss (alloc_reserve a s)"
  by (simp_all add: reserve_all_def fun_eq_iff)

text \<open>The scan adopts exactly the readable records of the directory and reserves their slots.\<close>

lemma reconcile_one_spec:
  assumes "probe_keeps_files os" "reconcile_one os d n al w = (r, al', w')"
  shows "map_option adopted_key r
           = map_option meta_key (Option.bind (read_meta os d n w) (\<lambda>m. if valid_vm_id (m_id m) \<and> valid_vm_id (m_dir_id m) then Some m else None))"
    "al' = map_option (reserve_all (case Option.bind r v_slot of Some s \<Rightarrow> [s] | None \<Rightarrow> [])) al"
    "\<forall>path. os_read os path w' = os_read os path w"
  using assms(2) adopt_state_files [OF assms(1)]
  by (auto simp: reconcile_one_def Let_def case_prod_beta adopted_key_def adopted_vm_def meta_key_def
      option.map_ident split: option.splits if_splits)

lemma map_filter_Cons: "List.map_filter f (x # xs) = (case f x of Some y \<Rightarrow> y # List.map_filter f xs | None \<Rightarrow> List.map_filter f xs)"
  by (simp add: List.map_filter_def split: option.splits)

lemma reconcile_entries_spec:
  assumes "probe_keeps_files os" "reconcile_entries os d es al w = (vms, al', w')"
    and "\<forall>path. os_read os path w = os_read os path w0"
  shows "map adopted_key vms = map meta_key (List.map_filter (entry_meta os d w0) es)
         \<and> al' = map_option (reserve_all (held vms)) al"
  using assms(2,3)
proof (induction es arbitrary: al w vms)
  case Nil
  then show ?case by (auto simp: List.map_filter_def option.map_ident)
next
  case (Cons e es)
  show ?case
  proof (cases "\<exists>x. e = Some x \<and> de_dir x = Some True")
    case False
    then have "entry_meta os d w0 e = None" by (cases e) (auto simp: entry_meta_def)
    moreover have "reconcile_entries os d es al w = (vms, al', w')"
      using Cons.prems(1) False by (cases e) auto
    ultimately show ?thesis using Cons.IH [OF _ Cons.prems(2)] by (simp add: map_filter_Cons)
  next
    case True
    then obtain x where x: "e = Some x" "de_dir x = Some True" by blast
    obtain r al1 w1 where one: "reconcile_one os d (from_utf8_lossy (de_name x)) al w = (r, al1, w1)"
      by (metis prod_cases3)
    obtain vs where rest: "reconcile_entries os d es al1 w1 = (vs, al', w')" "vms = (case r of Some v \<Rightarrow> v # vs | None \<Rightarrow> vs)"
      using Cons.prems(1) x one by (auto simp: Let_def split: prod.splits)
    note o = reconcile_one_spec [OF assms(1) one]
    have "\<forall>path. os_read os path w1 = os_read os path w0" using o(3) Cons.prems(2) by simp
    note IH = Cons.IH [OF rest(1) this]
    have m: "map_option adopted_key r = map_option meta_key (entry_meta os d w0 e)"
      using o(1) x read_meta_cong [OF Cons.prems(2)] by (simp add: entry_meta_def)
    show ?thesis
    proof (cases r)
      case None
      then have "entry_meta os d w0 e = None" using m by (simp add: map_option_case split: option.splits)
      then show ?thesis using None IH rest(2) o(2) by (simp add: map_filter_Cons option.map_ident)
    next
      case (Some v)
      then obtain mt where "entry_meta os d w0 e = Some mt" "adopted_key v = meta_key mt"
        using m by (auto simp: map_option_case split: option.splits)
      then show ?thesis
        using Some IH rest(2) o(2) by (cases "v_slot v"; cases al) (simp_all add: map_filter_Cons)
    qed
  qed
qed

lemma reserve_all_spec:
  assumes "alloc_inv a" "\<forall>s\<in>set ss. unat s < length (alloc_used a)"
  shows "alloc_inv (reserve_all ss a) \<and> alloc_cidr (reserve_all ss a) = alloc_cidr a
         \<and> length (alloc_used (reserve_all ss a)) = length (alloc_used a)
         \<and> used_slots (reserve_all ss a) = set ss \<union> used_slots a"
  using assms
proof (induction ss arbitrary: a)
  case (Cons s ss)
  then show ?case using Cons.IH [of "alloc_reserve a s"] slots.reserve [of a s] by auto
qed simp

lemma adopted_facts:
  assumes "map adopted_key vms = map meta_key ms"
  shows "held vms = meta_slots ms \<and> all_node_ports vms = meta_ports ms
    \<and> (\<forall>v\<in>set vms. v_ip v = map_option f (v_slot v)) = (\<forall>m\<in>set ms. m_ip m = map_option f (m_slot m))
    \<and> (\<forall>v\<in>set vms. valid_vm_id (v_id v) \<and> valid_vm_id (v_dir_id v))
       = (\<forall>m\<in>set ms. valid_vm_id (m_id m) \<and> valid_vm_id (m_dir_id m))"
  using map_eq_imp_length_eq [OF assms] assms
  by (induction vms ms rule: list_induct2)
    (auto simp: adopted_key_def meta_key_def meta_slots_def meta_ports_def map_filter_Cons List.map_filter_def
      split: option.splits)

lemma entry_meta_valid: "entry_meta os d w e = Some m \<Longrightarrow> valid_vm_id (m_id m) \<and> valid_vm_id (m_dir_id m)"
  by (auto simp: entry_meta_def split: Option.bind_splits if_splits)

lemma set_map_filter: "y \<in> set (List.map_filter f xs) \<longleftrightarrow> (\<exists>x\<in>set xs. f x = Some y)"
  by (induction xs) (auto simp: map_filter_Cons List.map_filter_def split: option.splits)

lemma disk_metas_valid: "m \<in> set (disk_metas os d w) \<Longrightarrow> valid_vm_id (m_id m) \<and> valid_vm_id (m_dir_id m)"
  unfolding disk_metas_def by (auto simp: set_map_filter dest: entry_meta_valid split: option.splits)

lemma reconcile_scan_spec:
  assumes "probe_keeps_files os" "reconcile_scan os d al w = (vms, al', w')"
  shows "map adopted_key vms = map meta_key (disk_metas os d w) \<and> al' = map_option (reserve_all (held vms)) al"
  using assms(2) reconcile_entries_spec [OF assms(1), of d _ al w vms al' w' w]
  by (auto simp: reconcile_scan_def disk_metas_def option.map_ident split: option.splits)

text \<open>The scan turns metadata that is in order into a state that is in order.\<close>

lemma mgr_inv_reconcile:
  assumes "probe_keeps_files os" "metas_ok (mg_cidr mg) (disk_metas os (mg_data_dir mg) (mg_world mg))"
    and al: "\<And>a. mg_allocator mg = Some a \<Longrightarrow> alloc_inv a \<and> alloc_cidr a = mg_cidr mg
               \<and> length (alloc_used a) = unat (host_count (mg_cidr mg))"
  shows "mgr_inv (conf mg) (reconcile os mg)"
proof -
  obtain vms al' w' where sc: "reconcile_scan os (mg_data_dir mg) (mg_allocator mg) (mg_world mg) = (vms, al', w')"
    by (metis prod_cases3)
  let ?ms = "disk_metas os (mg_data_dir mg) (mg_world mg)"
  let ?mg1 = "mg\<lparr>mg_vms := vms, mg_allocator := al', mg_host := (mg_host mg)\<lparr>h_world := w'\<rparr>\<rparr>"
  note spec = reconcile_scan_spec [OF assms(1) sc]
  note f = adopted_facts [OF spec [THEN conjunct1], of "\<lambda>s. fmt_ip (host_at (mg_cidr mg) s)"]
  have "\<forall>m\<in>set ?ms. valid_vm_id (m_id m) \<and> valid_vm_id (m_dir_id m)" by (rule ballI) (rule disk_metas_valid)
  then have ids: "ids_inv vms" unfolding ids_inv_def list_all_iff using f by blast
  have ports: "ports_inv vms" using f assms(2) by (simp add: ports_inv_def metas_ok_def)
  have "slots_inv (mg_cidr mg) vms al'"
  proof (cases "mg_allocator mg")
    case None
    then show ?thesis using f spec assms(2) by (simp add: slots_inv_None metas_ok_def)
  next
    case (Some a)
    have "\<forall>s\<in>set (held vms). unat s < length (alloc_used a)"
      using f assms(2) al [OF Some] by (auto simp: metas_ok_def word_less_nat_alt)
    note r = reserve_all_spec [OF al [OF Some, THEN conjunct1] this]
    show ?thesis using spec Some r al [OF Some] f assms(2) by (simp add: slots_inv_Some metas_ok_def)
  qed
  then have m1: "mgr_inv (conf mg) ?mg1" using ids ports spec by (simp add: mgr_inv_def conf_def)
  have "mgr_inv (conf mg) (fold (\<lambda>(vid, slot, ip) mg. snd (pin_slot os slot (Some ip) mg)) (taps_to_repin vms) ?mg1)"
    using m1 by (intro mgr_inv_fold) (auto split: prod.splits)
  then show ?thesis using m1 sc by (simp add: reconcile_def Let_def)
qed

lemma boot_inv:
  assumes "probe_keeps_files os" "boot_manager os data_dir net_on cidr pool cp token port h = Some mg"
    and "metas_ok cidr (disk_metas os data_dir
           (mg_world (setup_host os (manager_new data_dir net_on cidr pool cp token (set_agent_port port h)))))"
  shows "mgr_inv (data_dir, net_on, cidr, net_on) mg"
proof -
  define mg1 where "mg1 = setup_host os (manager_new data_dir net_on cidr pool cp token (set_agent_port port h))"
  have n: "mg_data_dir mg1 = data_dir" "mg_net_on mg1 = net_on" "mg_cidr mg1 = cidr"
      "mg_allocator mg1 = (if net_on then Some (alloc_new cidr) else None)"
    by (simp_all add: mg1_def setup_host_def manager_new_def on_host_def Let_def case_prod_beta)
  have "alloc_inv a \<and> alloc_cidr a = mg_cidr mg1 \<and> length (alloc_used a) = unat (host_count (mg_cidr mg1))"
    if "mg_allocator mg1 = Some a" for a
    using that n alloc_new_inv by (auto simp: alloc_new_def split: if_splits)
  moreover have "metas_ok (mg_cidr mg1) (disk_metas os (mg_data_dir mg1) (mg_world mg1))"
    using assms(3) n by (simp add: mg1_def)
  ultimately have "mgr_inv (conf mg1) (reconcile os mg1)" using mgr_inv_reconcile [OF assms(1)] by blast
  moreover have "conf mg1 = (data_dir, net_on, cidr, net_on)" using n by (simp add: conf_def)
  ultimately show ?thesis
    using assms(2) by (auto simp: boot_manager_def mg1_def Let_def split: if_splits)
qed

end
