(* ===== verification/Vm_Demo.thy ===== *)
theory Vm_Demo
  imports Vm_Reach
begin

text \<open>
  A concrete system for witnesses: its world has one state, every file is there, and every
  command, request and signal succeeds, except that the outcome of spawning a process is a
  parameter.  Lemmas say what the steps of the manager do on it.
\<close>

definition calm_net :: "unit sys" where
  "calm_net = \<lparr>sys_cmd = (\<lambda>_ w. (True, w)), sys_nft = (\<lambda>_ _ w. (NftExit True, w)),
               sys_read = (\<lambda>_ _. Some ''1''), sys_exists = (\<lambda>_ _. False)\<rparr>"

definition calm_os :: "(string + u32 option) \<Rightarrow> unit os" where
  "calm_os spawned
     = \<lparr>os_net = calm_net,
        os_read = (\<lambda>_ _. None), os_there = (\<lambda>_ _. True), os_len = (\<lambda>_ _. Inr 0),
        os_read_dir = (\<lambda>_ _. None), os_now = (\<lambda>_. 0), os_systime = (\<lambda>_. 0),
        os_write = (\<lambda>_ _ w. (Inr (), w)), os_rename = (\<lambda>_ _ w. (Inr (), w)),
        os_unlink = (\<lambda>_ w. (Inr (), w)), os_mkdir_all = (\<lambda>_ _ w. (Inr (), w)),
        os_chmod = (\<lambda>_ _ w. (Inr (), w)), os_rmtree = (\<lambda>_ w. (Inr (), w)),
        os_open = (\<lambda>_ _ _ w. (Inr (), w)), os_set_len = (\<lambda>_ _ w. (Inr (), w)),
        os_copy = (\<lambda>_ _ w. (Inr (), w)), os_exec = (\<lambda>_ _ w. (Exited (Some 0) [] [] [], w)),
        os_spawn = (\<lambda>_ _ w. (spawned, w)), os_kill = (\<lambda>_ _ w. (Some ESRCH, w)), os_waitpid = (\<lambda>_ w. w),
        os_sleep = (\<lambda>_ w. w), os_http = (\<lambda>_ _ _ _ w. (HttpReply 204 [], w)),
        os_connect = (\<lambda>_ w. (None, w)), os_send = (\<lambda>_ _ w. (None, w)), os_recv = (\<lambda>_ _ w. (Elapsed, w)),
        os_json = (\<lambda>t. case parse_json t of Some v \<Rightarrow> Inr v | None \<Rightarrow> Inl ''syntax''),
        os_show_json = print_json, os_debug = (\<lambda>s. s), os_visit = (\<lambda>ks. ks)\<rparr>"

named_theorems calm \<open>steps on the calm system\<close>

lemma unit_world [simp]: "h\<lparr>h_world := ()\<rparr> = (h :: unit host)"
  by (cases h) simp

lemma calm_fields [calm]:
  "os_net (calm_os sp) = calm_net" "os_there (calm_os sp) path w" "os_unlink (calm_os sp) path w = (Inr (), w)"
  "os_write (calm_os sp) path text w = (Inr (), w)" "os_mkdir_all (calm_os sp) path md w = (Inr (), w)"
  "os_chmod (calm_os sp) path md w = (Inr (), w)" "os_rmtree (calm_os sp) path w = (Inr (), w)"
  "os_open (calm_os sp) path t md w = (Inr (), w)" "os_spawn (calm_os sp) argv out w = (sp, w)"
  "os_kill (calm_os sp) p sig w = (Some ESRCH, w)" "os_waitpid (calm_os sp) p w = w"
  "os_exec (calm_os sp) argv inp w = (Exited (Some 0) [] [] [], w)"
  "os_http (calm_os sp) sock mth pth body w = (HttpReply 204 [], w)"
  "os_now (calm_os sp) w = 0" "os_systime (calm_os sp) w = 0" "os_read_dir (calm_os sp) path w = None"
  by (simp_all add: calm_os_def)

lemma calm_run [calm]:
  "run_once calm_net (x # argv) sudo h = (True, h)" "run calm_net (x # argv) h = (True, h)"
  "run_ignored calm_net (x # argv) h = h" "run_nft_file calm_net rules h = (True, h)"
  by (simp_all add: run_once_def run_def run_ignored_def run_nft_file_def run_nft_file_once_def calm_net_def)

lemma calm_sysctl [calm]: "set_sysctl_verified calm_net key path h = (True, h)"
proof -
  have "trim ''1'' = ''1''" by (simp add: trim_alnum ascii_defs)
  then show ?thesis by (simp add: set_sysctl_verified_def sysctl_confirmed_def calm_net_def)
qed

lemma calm_ipv6 [calm]: "ensure_ipv6_disabled calm_net (tap_name s) h = (True, h)"
    "ensure_ipv6_disabled calm_net BRIDGE_NAME h = (True, h)"
proof -
  have v: "valid_ifname BRIDGE_NAME"
    by (simp add: valid_ifname_def BRIDGE_NAME_def ident_char_def ascii_defs)
  show "ensure_ipv6_disabled calm_net (tap_name s) h = (True, h)" "ensure_ipv6_disabled calm_net BRIDGE_NAME h = (True, h)"
    using v tap_name_valid [of s] by (simp_all add: ensure_ipv6_disabled_def calm_net_def)
qed

lemma calm_bridge [calm]:
  "ensure_bridge calm_net c h
     = (True, h\<lparr>h_guest_cidr := once_set (fmt_ip (net_base c) @ ''/'' @ show_nat (unat (cidr_prefix c))) (h_guest_cidr h),
                h_filter_ok := True\<rparr>)"
  by (simp add: ensure_bridge_def enable_forwarding_def ensure_nat_def ensure_guest_input_filter_def
      ensure_bridge_l2_filter_def calm Let_def)

lemma calm_isolation [calm]: "rebuild_isolation calm_net visit members h = (True, h\<lparr>h_isolation_ok := True\<rparr>)"
  by (simp add: rebuild_isolation_def ensure_bridge_netfilter_def flush_guest_conntrack_def calm Let_def split: option.splits)

lemma calm_ingress [calm]: "rebuild_ingress calm_net members h = h"
proof -
  have "fold (\<lambda>(node_port, guest_ip, guest_port) st.
          case ingress_rule_parts node_port guest_ip guest_port of
            Some (dport, target) \<Rightarrow> run_ignored calm_net (ingress_rule_args dport target) st
          | None \<Rightarrow> st) members h = h"
    by (induction members) (auto simp: ingress_rule_args_def calm split: option.splits)
  then show ?thesis by (simp add: rebuild_ingress_def calm Let_def)
qed

lemma calm_on_world [calm]:
  "f () = (r, ()) \<Longrightarrow> on_world f mg = (r, mg)"
  by (cases "mg_host mg") (simp add: on_world_def)

lemma calm_pin_slot [calm]: "pin_slot (calm_os sp) s (Some (fmt_ip ip)) mg = (True, mg)"
proof -
  have "ensure_pinned_tap calm_net (tap_name s) (Some (fmt_ip ip)) mac h = (True, h)" for mac h
    using tap_name_valid [of s]
    by (simp add: ensure_pinned_tap_def ensure_tap_def ensure_tap_antispoof_def antispoof_ruleset_def calm Let_def)
  then show ?thesis by (simp add: pin_slot_def tap_pin_for_slot_def on_host_def calm)
qed

lemma calm_checked [calm]: "checked (calm_os sp) what sock mth path body w = (Inr (), w)"
  by (simp add: checked_def request_uds_def calm)

lemmas calm_fc = fc_put_def fc_patch_def put_boot_source_def put_drive_rootfs_def put_network_interface_def
  put_machine_config_def put_vsock_def put_instance_start_def patch_vm_state_def put_snapshot_create_def
  put_snapshot_load_def

lemma calm_fc_calls [calm]:
  "put_boot_source (calm_os sp) sock kern net ip gw msk w = (Inr (), w)"
  "patch_vm_state (calm_os sp) sock st w = (Inr (), w)"
  "put_snapshot_create (calm_os sp) sock a b w = (Inr (), w)"
  "put_snapshot_load (calm_os sp) sock a b net slot uds w = (Inr (), w)"
  "configure_guest (calm_os sp) d net c sock dir rootfs vcpus mem slot ip vs w = (Inr (), w)"
  by (simp_all add: calm_fc configure_guest_def calm Let_def case_prod_beta split: option.splits bool.splits)

lemma calm_await [calm]: "await_api (calm_os sp) sock pid w = (Inr (), w)"
  by (simp add: await_api_def POLL_ROUNDS_def numeral_eq_Suc calm)

lemma calm_spawn_fc [calm]: "spawn_fc (calm_os (Inr (Some p))) what sock log_path w = (Inr (sint p), w)"
  "spawn_fc (calm_os (Inl e)) what sock log_path w = (Inl (what @ e), w)"
  by (simp_all add: spawn_fc_def open_serial_log_def calm)

lemma calm_spawn_and_configure [calm]:
  assumes "sock_path mg vid = Some sock"
  shows "spawn_and_configure (calm_os (Inr (Some p))) vid dir rootfs vcpus mem slot ip mg = (Inr (sint p, True), mg)"
    "spawn_and_configure (calm_os (Inl e)) vid dir rootfs vcpus mem slot ip mg
       = (Inl (''spawn firecracker: '' @ e), mg)"
  by (simp_all add: spawn_and_configure_def assms calm guest_agent_marker_present_def Let_def)

lemma calm_prepare_disk [calm]:
  "cs_image_sha256 spec = None \<Longrightarrow> cs_disk_gb spec = 0 \<Longrightarrow> prepare_disk (calm_os sp) spec dir mg = (Inr (), mg)"
  by (simp add: prepare_disk_def create_instance_dir_def ensure_image_def decide_def copy_rootfs_def success_def calm)

lemma calm_write_meta [calm]:
  "find_vm vid (mg_vms mg) = Some v \<Longrightarrow> valid_vm_id (v_dir_id v) \<Longrightarrow> write_meta (calm_os sp) vid mg = (Inr (), mg)"
  by (simp add: write_meta_def instance_path_def calm Let_def)

subsection \<open>Creating on the calm system\<close>

lemma list_ex_find: "list_ex (\<lambda>v. v_id v = vid) vms \<longleftrightarrow> find_vm vid vms \<noteq> None"
  by (induction vms) auto

lemma update_vm_new: "find_vm vid vms = None \<Longrightarrow> v_id v = vid \<Longrightarrow> update_vm vid f (vms @ [v]) = vms @ [f v]"
  by (induction vms) auto

definition built_vm :: "CreateSpec \<Rightarrow> VmState \<Rightarrow> u32 \<Rightarrow> u32 \<Rightarrow> Cidr \<Rightarrow> Vm" where
  "built_vm spec st p s c
     = (new_vm spec)\<lparr>v_pid := Some (sint p), v_slot := Some s, v_state := st, v_ip := Some (fmt_ip (host_at c s)),
         v_vsock := True\<rparr>"

lemma calm_dirs [calm]:
  "find_vm vid (mg_vms mg) = Some v \<Longrightarrow> valid_vm_id (v_dir_id v) \<Longrightarrow>
     sock_path mg vid = Some (mg_data_dir mg @ ''/instances/'' @ v_dir_id v @ ''/fc.sock'')
     \<and> instance_dir mg vid = Some (mg_data_dir mg @ ''/instances/'' @ v_dir_id v)"
  by (simp add: sock_path_def sock_path_sync_def instance_dir_def instance_dir_sync_def dir_id_for_sync_def instance_path_def)

lemma calm_cold_create:
  assumes "mg_net_on mg" "mg_allocator mg = Some a" "alloc_claim a = (Some s, a')" "alloc_cidr a' = mg_cidr mg"
    and "valid_vm_id (cs_id spec)" "find_vm (cs_id spec) (mg_vms mg) = None"
    and "cs_image_sha256 spec = None" "cs_disk_gb spec = 0"
  shows "cold_create (calm_os (Inr (Some p))) spec st None mg
    = (Inr (), mg\<lparr>mg_vms := mg_vms mg @ [built_vm spec st p s (mg_cidr mg)], mg_allocator := Some a'\<rparr>)"
proof -
  have n: "\<not> list_ex (\<lambda>v. v_id v = cs_id spec) (mg_vms mg)" using assms(6) list_ex_find by blast
  let ?vms = "mg_vms mg @ [new_vm spec]"
  have f: "find_vm (cs_id spec) ?vms = Some (new_vm spec)"
    using assms(6) by (rule find_vm_append_new) (simp add: new_vm_def)
  have b: "update_vm (cs_id spec) (\<lambda>v. v\<lparr>v_pid := Some (sint p), v_slot := Some s, v_state := st,
         v_ip := Some (fmt_ip (host_at (mg_cidr mg) s)), v_vsock := True\<rparr>) ?vms
      = mg_vms mg @ [built_vm spec st p s (mg_cidr mg)]"
    using assms(6) by (subst update_vm_new) (simp_all add: new_vm_def built_vm_def)
  have g: "find_vm (cs_id spec) (mg_vms mg @ [built_vm spec st p s (mg_cidr mg)]) = Some (built_vm spec st p s (mg_cidr mg))"
    using assms(6) by (rule find_vm_append_new) (simp add: new_vm_def built_vm_def)
  let ?mg0 = "upd_vms (\<lambda>vs. vs @ [new_vm spec]) mg"
  let ?mg1 = "?mg0\<lparr>mg_allocator := Some a'\<rparr>"
  have d: "v_dir_id (new_vm spec) = cs_id spec" "v_dir_id (built_vm spec st p s (mg_cidr mg)) = cs_id spec"
    by (simp_all add: new_vm_def built_vm_def)
  have dirs: "instance_dir ?mg0 (cs_id spec) = Some (mg_data_dir mg @ ''/instances/'' @ cs_id spec)"
      "sock_path ?mg1 (cs_id spec) = Some (mg_data_dir mg @ ''/instances/'' @ cs_id spec @ ''/fc.sock'')"
    using calm_dirs [of "cs_id spec" ?mg0 "new_vm spec"] calm_dirs [of "cs_id spec" ?mg1 "new_vm spec"] f assms(5) d
    by (simp_all add: upd_vms_def)
  have net: "claim_network (calm_os (Inr (Some p))) None ?mg0
      = (Inr (Some s, Some (fmt_ip (host_at (mg_cidr mg) s))), ?mg1)"
    using assms(1-4)
    by (simp add: claim_network_def take_slot_def claim_slot_def ip_for_slot_def alloc_ip_for_def upd_vms_def calm)
  have pk: "park (calm_os (Inr (Some p))) (cs_id spec) st ?mg1 = (Inr (), ?mg1)"
    using dirs by (simp add: park_def calm)
  have pub: "publish (cs_id spec) (sint p) (Some s) st (Some (fmt_ip (host_at (mg_cidr mg) s))) True ?mg1
      = mg\<lparr>mg_vms := mg_vms mg @ [built_vm spec st p s (mg_cidr mg)], mg_allocator := Some a'\<rparr>"
    using b by (simp add: publish_def upd_vms_def)
  have "cold_create_inner (calm_os (Inr (Some p))) spec st None ?mg0
      = (Inr (), mg\<lparr>mg_vms := mg_vms mg @ [built_vm spec st p s (mg_cidr mg)], mg_allocator := Some a'\<rparr>)"
    using dirs net pk pub g d assms(5,7,8)
    by (simp add: cold_create_inner_def calm_prepare_disk calm_spawn_and_configure
        calm_write_meta [where v = "built_vm spec st p s (mg_cidr mg)"])
  then show ?thesis using n by (simp add: cold_create_def)
qed

lemma calm_refresh [calm]: "mg_net_on mg \<Longrightarrow> refresh_isolation (calm_os sp) mg
    = (True, mg\<lparr>mg_host := (mg_host mg)\<lparr>h_isolation_ok := True\<rparr>\<rparr>)"
  by (simp add: refresh_isolation_def on_host_def calm)

lemma calm_create:
  assumes "mg_net_on mg" "mg_allocator mg = Some a" "alloc_claim a = (Some s, a')" "alloc_cidr a' = mg_cidr mg"
    and "valid_vm_id (cs_id spec)" "find_vm (cs_id spec) (mg_vms mg) = None"
    and "cs_image_sha256 spec = None" "cs_disk_gb spec = 0" "\<forall>v\<in>set (mg_vms mg). v_state v \<noteq> Pooled"
  shows "create (calm_os (Inr (Some p))) spec mg
    = (Inr (), mg\<lparr>mg_vms := mg_vms mg @ [built_vm spec Running p s (mg_cidr mg)], mg_allocator := Some a',
        mg_host := (mg_host mg)\<lparr>h_isolation_ok := True\<rparr>\<rparr>)"
proof -
  have "find_pooled_match (mg_vms mg) (cs_image spec) (cs_image_sha256 spec) (cs_vcpus spec) (cs_mem_mib spec)
      (cs_disk_gb spec) = None"
    using assms(9) by (auto simp: find_pooled_match_def position_None pooled_shape_matches_def)
  then show ?thesis
    using assms(1,5) calm_cold_create [OF assms(1-8), of p Running]
    by (simp add: create_def claim_from_pool_def commit_or_isolate_def calm)
qed

subsection \<open>Two tenants on the calm system\<close>

definition calm_cidr :: Cidr where
  "calm_cidr = \<lparr>cidr_base = 0x0AE70000, cidr_prefix = 29\<rparr>"

definition calm_host :: "unit host" where
  "calm_host = \<lparr>h_world = (), h_guest_cidr = None, h_isolation_ok = False, h_filter_ok = False, h_agent_port = 0\<rparr>"

definition calm_spec :: "string \<Rightarrow> string \<Rightarrow> CreateSpec" where
  "calm_spec vid tenant
     = \<lparr>cs_id = vid, cs_name = vid, cs_vcpus = 1, cs_mem_mib = 256, cs_tenant_id = Some tenant,
        cs_image = ''base'', cs_image_sha256 = None, cs_disk_gb = 0\<rparr>"

definition up_host :: "unit host" where
  "up_host = \<lparr>h_world = (), h_guest_cidr = Some ''10.231.0.0/29'', h_isolation_ok = True, h_filter_ok = True,
     h_agent_port = 7070\<rparr>"

definition calm_boot :: "unit Manager" where
  "calm_boot = (manager_new ''/d'' True calm_cidr 0 ''http://cp'' ''t'' up_host)
     \<lparr>mg_allocator := Some \<lparr>alloc_cidr = calm_cidr, alloc_used = [False, False, False, False, False]\<rparr>\<rparr>"

lemma calm_booted_with:
  "boot_manager (calm_os sp) d True calm_cidr 0 cp tok 7070 calm_host
     = Some (calm_boot\<lparr>mg_data_dir := d, mg_control_plane := cp, mg_token := tok\<rparr>)"
proof -
  have c: "alloc_new calm_cidr = \<lparr>alloc_cidr = calm_cidr, alloc_used = [False, False, False, False, False]\<rparr>"
      "fmt_ip (net_base calm_cidr) @ ''/'' @ show_nat (unat (cidr_prefix calm_cidr)) = ''10.231.0.0/29''"
    by code_simp+
  show ?thesis
    using c
    by (simp add: boot_manager_def manager_new_def setup_host_def reconcile_def reconcile_scan_def taps_to_repin_def
        calm on_host_def refresh_ingress_def netfilter_ready_def calm_boot_def up_host_def calm_host_def set_agent_port_def
        once_set_def Let_def List.map_filter_def)
qed

lemma calm_booted:
  "boot_manager (calm_os sp) ''/d'' True calm_cidr 0 ''http://cp'' ''t'' 7070 calm_host = Some calm_boot"
  by (simp add: calm_booted_with) (simp add: calm_boot_def manager_new_def)

lemma calm_metas: "metas_ok c (disk_metas (calm_os sp) d w)"
  by (simp add: disk_metas_def calm metas_ok_def meta_slots_def meta_ports_def List.map_filter_def)

lemma calm_probe: "probe_keeps_files (calm_os sp)"
  by (simp add: probe_keeps_files_def calm)

definition calm_two :: "unit Manager" where
  "calm_two = calm_boot\<lparr>mg_vms := [built_vm (calm_spec ''a'' ''acme'') Running 7 0 calm_cidr,
       built_vm (calm_spec ''b'' ''beta'') Running 7 1 calm_cidr],
     mg_allocator := Some \<lparr>alloc_cidr = calm_cidr, alloc_used = [True, True, False, False, False]\<rparr>\<rparr>"

lemma calm_two_steps:
  "mgr_apply (calm_os (Inr (Some 7))) (OpCreate (calm_spec ''b'' ''beta''))
     (mgr_apply (calm_os (Inr (Some 7))) (OpCreate (calm_spec ''a'' ''acme'')) calm_boot) = calm_two"
proof -
  let ?os = "calm_os (Inr (Some 7))"
  define mg1 where "mg1 = mgr_apply ?os (OpCreate (calm_spec ''a'' ''acme'')) calm_boot"
  have v: "valid_vm_id ''a''" "valid_vm_id ''b''" by code_simp+
  have cl: "alloc_claim \<lparr>alloc_cidr = calm_cidr, alloc_used = [False, False, False, False, False]\<rparr>
        = (Some 0, \<lparr>alloc_cidr = calm_cidr, alloc_used = [True, False, False, False, False]\<rparr>)"
      "alloc_claim \<lparr>alloc_cidr = calm_cidr, alloc_used = [True, False, False, False, False]\<rparr>
        = (Some 1, \<lparr>alloc_cidr = calm_cidr, alloc_used = [True, True, False, False, False]\<rparr>)"
    by (simp_all add: alloc_claim_def)
  have "mg1 = calm_boot\<lparr>mg_vms := [built_vm (calm_spec ''a'' ''acme'') Running 7 0 calm_cidr],
      mg_allocator := Some \<lparr>alloc_cidr = calm_cidr, alloc_used = [True, False, False, False, False]\<rparr>\<rparr>"
    unfolding mg1_def mgr_apply.simps
    by (subst calm_create [OF _ _ cl(1)]) (simp_all add: calm_boot_def manager_new_def calm_spec_def v up_host_def)
  then have "mgr_apply ?os (OpCreate (calm_spec ''b'' ''beta'')) mg1 = calm_two"
    unfolding mgr_apply.simps
    by (subst calm_create [OF _ _ cl(2)])
      (simp_all add: calm_boot_def manager_new_def calm_spec_def v up_host_def built_vm_def new_vm_def calm_two_def)
  then show ?thesis by (simp only: mg1_def)
qed

lemma calm_two_reach: "reach (calm_os (Inr (Some 7))) calm_boot calm_two"
  by (metis calm_two_steps reach_op reach_refl)

end
