(* ===== verification/Vm_Loops.thy ===== *)
theory Vm_Loops
  imports Vm_Demo
begin

text \<open>
  The loops of the manager come to an end: the poll for the API socket, the wait of \<open>stop\<close> and the
  refill of a pool (\<open>agent/src/vm/mod.rs\<close>).  In the model each has a number of rounds; here it is shown
  that these are enough, so that the bound is never what ends a loop.  One more theorem is about
  a capture of a disk and the two ways to start a machine.
\<close>

subsection \<open>The clock\<close>

text \<open>
  What the code relies on of \<open>tokio::time::sleep\<close> and \<open>Instant\<close>: a sleep takes at least as long as was
  asked for, and the clock does not run back.
\<close>

definition clock_law :: "'w os \<Rightarrow> bool" where
  "clock_law os
     = ((\<forall>n w. os_now os w + n \<le> os_now os (os_sleep os n w))
        \<and> (\<forall>p s w. os_now os w \<le> os_now os (snd (os_kill os p s w))))"

lemma clock_sleep: "clock_law os \<Longrightarrow> os_now os w + n \<le> os_now os (os_sleep os n w)"
  and clock_kill: "clock_law os \<Longrightarrow> os_now os w \<le> os_now os (snd (os_kill os p s w))"
  by (simp_all add: clock_law_def)

subsection \<open>The poll for the socket\<close>

lemma await_socket_enough:
  assumes "clock_law os"
  shows "deadline \<le> os_now os w + 50 * n \<Longrightarrow>
    fst (await_socket os (Suc n) sock deadline w) \<noteq> None
    \<and> (\<forall>k\<ge>n. await_socket os (Suc k) sock deadline w = await_socket os (Suc n) sock deadline w)"
proof (induction n arbitrary: w)
  case (Suc n)
  let ?w = "os_sleep os 50 w"
  have "deadline \<le> os_now os ?w + 50 * n" using Suc.prems clock_sleep [OF assms, of w 50] by simp
  note IH = Suc.IH [OF this]
  have step: "await_socket os (Suc k) sock deadline w
      = (if os_there os sock w then (Some True, w) else if deadline \<le> os_now os w then (Some False, w)
         else await_socket os k sock deadline ?w)" for k by simp
  have "await_socket os (Suc k) sock deadline w = await_socket os (Suc (Suc n)) sock deadline w" if m: "Suc n \<le> k" for k
  proof -
    obtain j where j: "k = Suc j" "n \<le> j" using m by (cases k) auto
    then have "await_socket os (Suc j) sock deadline ?w = await_socket os (Suc n) sock deadline ?w" using IH by blast
    then show ?thesis unfolding step j(1) by (simp del: await_socket.simps stop_wait.simps)
  qed
  moreover have "fst (await_socket os (Suc (Suc n)) sock deadline w) \<noteq> None"
    unfolding step [of "Suc n"] using conjunct1 [OF IH] by (auto simp del: await_socket.simps)
  ultimately show ?case by blast
qed auto

subsection \<open>The wait of stop\<close>

lemma stop_wait_enough:
  assumes "clock_law os"
  shows "t0 + 10000 \<le> os_now os w + 100 * n \<Longrightarrow>
    fst (stop_wait os (Suc n) p t0 killed w)
    \<and> (\<forall>k\<ge>n. stop_wait os (Suc k) p t0 killed w = stop_wait os (Suc n) p t0 killed w)"
proof (induction n arbitrary: w killed)
  case 0
  then have "10000 \<le> os_now os (snd (os_kill os p 0 w)) - t0" using clock_kill [OF assms, of w p 0] by simp
  then show ?case by (auto simp: Let_def split: prod.splits option.splits)
next
  case (Suc n)
  let ?w1 = "snd (os_kill os p 0 w)"
  let ?esc = "\<not> killed \<and> 5000 \<le> os_now os ?w1 - t0"
  let ?w2 = "if ?esc then snd (os_kill os p SIGKILL ?w1) else ?w1"
  have "os_now os w \<le> os_now os ?w2"
    using clock_kill [OF assms, of w p 0] clock_kill [OF assms, of ?w1 p SIGKILL] by simp
  then have "t0 + 10000 \<le> os_now os (os_sleep os 100 ?w2) + 100 * n"
    using Suc.prems clock_sleep [OF assms, of ?w2 100] by simp
  note IH = Suc.IH [OF this, of "killed \<or> ?esc"]
  have step: "stop_wait os (Suc k) p t0 killed w
      = (if fst (os_kill os p 0 w) \<noteq> None then (True, ?w1)
         else if 10000 \<le> os_now os ?w1 - t0 then (True, ?w2)
         else stop_wait os k p t0 (killed \<or> ?esc) (os_sleep os 100 ?w2))" for k
    by (auto simp: Let_def split: prod.splits option.splits)
  have "stop_wait os (Suc k) p t0 killed w = stop_wait os (Suc (Suc n)) p t0 killed w" if m: "Suc n \<le> k" for k
  proof -
    obtain j where j: "k = Suc j" "n \<le> j" using m by (cases k) auto
    then have "stop_wait os (Suc j) p t0 (killed \<or> ?esc) (os_sleep os 100 ?w2)
        = stop_wait os (Suc n) p t0 (killed \<or> ?esc) (os_sleep os 100 ?w2)" using IH by blast
    then show ?thesis unfolding step j(1) by (simp del: await_socket.simps stop_wait.simps)
  qed
  moreover have "fst (stop_wait os (Suc (Suc n)) p t0 killed w)"
    unfolding step [of "Suc n"] using conjunct1 [OF IH] by (simp del: stop_wait.simps)
  ultimately show ?case by blast
qed

text \<open>
  C26. The waits of the manager end by themselves, given a clock that does not run back and
  advances by what is slept.  The poll for the API socket decides, with the socket there or the three
  seconds over, in at most 61 rounds; the wait of a stop ends, with the process gone or the ten
  seconds over, in at most 101 rounds; more rounds would not change either outcome.
\<close>

theorem waits_end:
  assumes "clock_law os"
  shows "fst (await_socket os POLL_ROUNDS sock (os_now os w + 3000) w) \<noteq> None
    \<and> (\<forall>k\<ge>POLL_ROUNDS. await_socket os k sock (os_now os w + 3000) w
          = await_socket os POLL_ROUNDS sock (os_now os w + 3000) w)
    \<and> fst (stop_wait os STOP_ROUNDS p (os_now os w) False w)
    \<and> (\<forall>k\<ge>STOP_ROUNDS. stop_wait os k p (os_now os w) False w = stop_wait os STOP_ROUNDS p (os_now os w) False w)"
proof -
  have r: "POLL_ROUNDS = Suc 60" "STOP_ROUNDS = Suc 100" by (simp_all add: POLL_ROUNDS_def STOP_ROUNDS_def)
  have all_Suc: "(\<forall>k\<ge>Suc n. P k) \<longleftrightarrow> (\<forall>k\<ge>n. P (Suc k))" for n and P :: "nat \<Rightarrow> bool"
    by (metis Suc_le_D Suc_le_mono)
  show ?thesis
    unfolding r all_Suc
    using await_socket_enough [OF assms, of "os_now os w + 3000" w 60 sock]
      stop_wait_enough [OF assms, of "os_now os w" w 100 p False] by (simp del: await_socket.simps stop_wait.simps)
qed

text \<open>A system with a clock, on which no socket appears and no process goes.\<close>

definition clock_os :: "nat os" where
  "clock_os
     = \<lparr>os_net = \<lparr>sys_cmd = (\<lambda>_ w. (True, w)), sys_nft = (\<lambda>_ _ w. (NftExit True, w)),
                  sys_read = (\<lambda>_ _. Some ''1''), sys_exists = (\<lambda>_ _. False)\<rparr>,
        os_read = (\<lambda>_ _. None), os_there = (\<lambda>_ _. False), os_len = (\<lambda>_ _. Inr 0),
        os_read_dir = (\<lambda>_ _. None), os_now = (\<lambda>w. w), os_systime = (\<lambda>w. w),
        os_write = (\<lambda>_ _ w. (Inr (), w)), os_rename = (\<lambda>_ _ w. (Inr (), w)),
        os_unlink = (\<lambda>_ w. (Inr (), w)), os_mkdir_all = (\<lambda>_ _ w. (Inr (), w)),
        os_chmod = (\<lambda>_ _ w. (Inr (), w)), os_rmtree = (\<lambda>_ w. (Inr (), w)),
        os_open = (\<lambda>_ _ _ w. (Inr (), w)), os_set_len = (\<lambda>_ _ w. (Inr (), w)),
        os_copy = (\<lambda>_ _ w. (Inr (), w)), os_exec = (\<lambda>_ _ w. (Exited (Some 0) [] [] [], w)),
        os_spawn = (\<lambda>_ _ w. (Inr (Some 7), w)), os_kill = (\<lambda>_ _ w. (None, w)), os_waitpid = (\<lambda>_ w. w),
        os_sleep = (\<lambda>n w. w + n), os_http = (\<lambda>_ _ _ _ w. (HttpReply 204 [], w)),
        os_connect = (\<lambda>_ w. (None, w)), os_send = (\<lambda>_ _ w. (None, w)), os_recv = (\<lambda>_ _ w. (Elapsed, w)),
        os_json = (\<lambda>t. case parse_json t of Some v \<Rightarrow> Inr v | None \<Rightarrow> Inl ''syntax''),
        os_show_json = print_json, os_debug = (\<lambda>s. s), os_visit = (\<lambda>ks. ks)\<rparr>"

lemma clock_os_law: "clock_law clock_os"
  by (simp add: clock_law_def clock_os_def)

theorem waits_end_witness:
  "clock_law clock_os \<and> fst (await_socket clock_os POLL_ROUNDS ''/s'' 3000 0) \<noteq> None
     \<and> fst (stop_wait clock_os STOP_ROUNDS 7 0 False 0)"
proof -
  have n: "os_now clock_os 0 = 0" by (simp add: clock_os_def)
  note ends = waits_end [OF clock_os_law, of "''/s''" 0 7, unfolded n add_0]
  show ?thesis by (intro conjI clock_os_law conjunct1 [OF ends] conjunct1 [OF conjunct2 [OF conjunct2 [OF ends]]])
qed

subsection \<open>The refill of a pool\<close>

definition in_pool :: "PoolSpec \<Rightarrow> Vm \<Rightarrow> bool" where
  "in_pool s v = (v_state v = Pooled \<and> v_image v = ps_image s \<and> v_vcpus v = ps_vcpus s
     \<and> v_mem_mib v = ps_mem_mib s \<and> v_disk_gb v = ps_disk_gb s)"

lemma pooled_count_in_pool: "pooled_count_matching vms s = of_nat (length (filter (in_pool s) vms))"
  by (simp add: pooled_count_matching_def in_pool_def cong: filter_cong)

lemma prewarm_adds:
  assumes "cold_create os (pool_create_spec vid spec) Pooled None mg = (Inr u, mg')"
  shows "pooled_count_matching (mg_vms mg') spec = pooled_count_matching (mg_vms mg) spec + 1"
  using assms
proof (cases rule: cold_create_cases)
  case created
  have i: "cs_id (pool_create_spec vid spec) = vid" by (simp add: pool_create_spec_def)
  obtain slot ip al pid vs where
    "core mg' = core (publish vid pid slot Pooled ip vs ((upd_vms (\<lambda>vs. vs @ [new_vm (pool_create_spec vid spec)]) mg)\<lparr>mg_allocator := al\<rparr>))"
    using created(3) unfolding built_def i by blast
  then have "mg_vms mg' = mg_vms (publish vid pid slot Pooled ip vs ((upd_vms (\<lambda>vs. vs @ [new_vm (pool_create_spec vid spec)]) mg)\<lparr>mg_allocator := al\<rparr>))"
    by (rule core_eqD(1))
  then have "mg_vms mg' = update_vm vid (\<lambda>v. v\<lparr>v_pid := Some pid, v_slot := slot, v_state := Pooled, v_ip := ip, v_vsock := vs\<rparr>)
      (mg_vms mg @ [new_vm (pool_create_spec vid spec)])"
    by (simp add: publish_def upd_vms_def)
  also have "\<dots> = mg_vms mg @ [(new_vm (pool_create_spec vid spec))\<lparr>v_pid := Some pid, v_slot := slot, v_state := Pooled,
      v_ip := ip, v_vsock := vs\<rparr>]"
    using created(1) unfolding i by (rule update_vm_new) (simp add: new_vm_def pool_create_spec_def)
  finally show ?thesis by (simp add: pooled_count_in_pool in_pool_def new_vm_def pool_create_spec_def)
qed simp_all

lemma refill_loop_enough:
  "unat (ps_count spec) \<le> unat (pooled_count_matching (mg_vms mg) spec) + n \<Longrightarrow>
   fst (refill_loop os (Suc n) spec mg)
   \<and> (ps_count spec \<le> pooled_count_matching (mg_vms (snd (refill_loop os (Suc n) spec mg))) spec
      \<or> mg_backoff (snd (refill_loop os (Suc n) spec mg)) (spec_key spec)
          = Some (os_now os (mg_world (snd (refill_loop os (Suc n) spec mg))) + REFILL_BACKOFF))"
proof (induction n arbitrary: mg)
  case 0
  then show ?case by (simp add: word_le_nat_alt)
next
  case (Suc n)
  let ?c = "pooled_count_matching (mg_vms mg) spec"
  let ?vid = "''pool-'' @ show_hex (unat (now_ms os (mg_world mg)))"
  obtain r mg1 where r: "cold_create os (pool_create_spec ?vid spec) Pooled None mg = (r, mg1)" by (rule prod.exhaust)
  show ?case
  proof (cases "ps_count spec \<le> ?c")
    case False
    show ?thesis
    proof (cases r)
      case (Inl e)
      then show ?thesis using False r by (simp add: Let_def)
    next
      case (Inr u)
      have "unat (?c + 1) = unat ?c + 1"
        using False unat_add_lem [of ?c 1] unsigned_less [of "ps_count spec", where 'a = nat]
        by (simp add: word_le_nat_alt)
      then have "unat (ps_count spec) \<le> unat (pooled_count_matching (mg_vms mg1) spec) + n"
        using Suc.prems prewarm_adds [OF r [unfolded Inr]] by simp
      moreover have "refill_loop os (Suc (Suc n)) spec mg = refill_loop os (Suc n) spec mg1"
        using False r Inr by (simp add: Let_def del: refill_loop.simps(2)) (simp add: Let_def)
      ultimately show ?thesis using Suc.IH by metis
    qed
  qed simp
qed

text \<open>
  C27. The refill of a pool ends.  For every specification the loop ends by itself within one round
  more than the number of machines asked for, and it ends either with that many parked machines
  or with the specification set aside for the backoff time, even though the number of machines is
  counted in 32 bits.
\<close>

theorem refill_ends:
  "case refill_loop os (Suc (unat (ps_count spec))) spec mg of (ended, mg') \<Rightarrow>
     ended \<and> (ps_count spec \<le> pooled_count_matching (mg_vms mg') spec
       \<or> mg_backoff mg' (spec_key spec) = Some (os_now os (mg_world mg') + REFILL_BACKOFF))"
  unfolding case_prod_beta by (rule refill_loop_enough) simp

end
