(* ===== verification/Vm_Gaps.thy ===== *)
theory Vm_Gaps
  imports Vm_Demo
begin

text \<open>
  Two places where the manager (\<open>agent/src/vm/mod.rs\<close>) does less than its comments promise, each shown
  by a run on the calm system from the start of the process on: waking a machine whose disk is being
  captured, and a second creation of an identifier that is in use when a pool can serve it.
\<close>

lemma reach_trans_op: "reach os mg0 mg \<Longrightarrow> mgr_apply os op mg = mg' \<Longrightarrow> reach os mg0 mg'"
  using reach_op by blast

definition one_vm :: "unit Manager" where
  "one_vm = calm_boot\<lparr>mg_vms := [built_vm (calm_spec ''a'' ''acme'') Running 7 0 calm_cidr],
     mg_allocator := Some \<lparr>alloc_cidr = calm_cidr, alloc_used = [True, False, False, False, False]\<rparr>\<rparr>"

lemma calm_claims:
  "alloc_claim \<lparr>alloc_cidr = calm_cidr, alloc_used = [False, False, False, False, False]\<rparr>
     = (Some 0, \<lparr>alloc_cidr = calm_cidr, alloc_used = [True, False, False, False, False]\<rparr>)"
  "alloc_claim \<lparr>alloc_cidr = calm_cidr, alloc_used = [True, False, False, False, False]\<rparr>
     = (Some 1, \<lparr>alloc_cidr = calm_cidr, alloc_used = [True, True, False, False, False]\<rparr>)"
  by (simp_all add: alloc_claim_def)

lemma valid_a: "valid_vm_id ''a''" by code_simp

lemma one_vm_step: "mgr_apply (calm_os (Inr (Some 7))) (OpCreate (calm_spec ''a'' ''acme'')) calm_boot = one_vm"
  unfolding mgr_apply.simps
  by (subst calm_create [OF _ _ calm_claims(1)])
    (simp_all add: calm_boot_def manager_new_def calm_spec_def valid_a up_host_def one_vm_def)

lemma one_vm_reach: "reach (calm_os (Inr (Some 7))) calm_boot one_vm"
  by (rule reach_trans_op [OF reach_refl one_vm_step])

subsection \<open>Waking during a capture\<close>

definition under_capture :: "unit Manager" where
  "under_capture = one_vm\<lparr>mg_vms := [(built_vm (calm_spec ''a'' ''acme'') Running 7 0 calm_cidr)\<lparr>v_state := Stopped, v_pid := None\<rparr>],
     mg_capturing := {''a''}\<rparr>"

lemma one_vm_fields:
  "mg_vms one_vm = [built_vm (calm_spec ''a'' ''acme'') Running 7 0 calm_cidr]"
  "mg_capturing one_vm = {}" "mg_data_dir one_vm = ''/d''" "mg_net_on one_vm" "mg_cidr one_vm = calm_cidr"
  by (simp_all add: one_vm_def calm_boot_def manager_new_def)

lemma built_fields:
  "v_id (built_vm spec st p s c) = cs_id spec" "v_dir_id (built_vm spec st p s c) = cs_id spec"
  "v_state (built_vm spec st p s c) = st" "v_pid (built_vm spec st p s c) = Some (sint p)"
  "v_slot (built_vm spec st p s c) = Some s" "v_ip (built_vm spec st p s c) = Some (fmt_ip (host_at c s))"
  "v_image (built_vm spec st p s c) = cs_image spec" "v_image_sha256 (built_vm spec st p s c) = cs_image_sha256 spec"
  "v_vcpus (built_vm spec st p s c) = cs_vcpus spec" "v_mem_mib (built_vm spec st p s c) = cs_mem_mib spec"
  "v_disk_gb (built_vm spec st p s c) = cs_disk_gb spec"
  by (simp_all add: built_vm_def new_vm_def)

lemma calm_stop_process: "stop_process (calm_os sp) p w = (Inr (), w)"
  by (simp add: stop_process_def STOP_ROUNDS_def numeral_eq_Suc calm)

lemma one_vm_stopped: "mgr_apply (calm_os (Inr (Some 7))) (OpStop ''a'') one_vm = under_capture\<lparr>mg_capturing := {}\<rparr>"
  by (simp add: stop_def one_vm_fields built_fields calm_spec_def set_pid_def set_state_def upd_vms_def under_capture_def
      calm_on_world calm_stop_process)

lemma stopped_captured:
  "mgr_apply (calm_os (Inr (Some 7))) (OpBeginCapture ''a'') (under_capture\<lparr>mg_capturing := {}\<rparr>) = under_capture"
  using valid_a by (simp add: begin_capture_def under_capture_def built_fields calm_spec_def instance_path_def)

lemma under_capture_reach: "reach (calm_os (Inr (Some 7))) calm_boot under_capture"
  by (rule reach_trans_op [OF reach_trans_op [OF one_vm_reach one_vm_stopped] stopped_captured])

text \<open>
  C36. A machine can be woken while its disk is being captured.  The manager reaches a state in which
  the stopped machine \<open>a\<close> is under capture.  There \<open>start\<close> refuses, as the comment asks for, because
  a Firecracker over the disk would corrupt the template; \<open>wake_vm\<close> looks only at whether the machine
  runs, and brings it to \<open>Running\<close> with the capture still going on.
\<close>

theorem wake_ignores_capture:
  "\<exists>mg mg'. reach (calm_os (Inr (Some 7))) calm_boot mg \<and> ''a'' \<in> mg_capturing mg
     \<and> start (calm_os (Inr (Some 7))) ''a'' mg = (Inl ''InvalidState: capture in progress'', mg)
     \<and> wake_vm (calm_os (Inr (Some 7))) ''a'' mg = (Inr 0, mg')
     \<and> ''a'' \<in> mg_capturing mg' \<and> map v_state (mg_vms mg') = [Running]"
proof -
  let ?os = "calm_os (Inr (Some 7))" and ?mg = under_capture
  let ?v = "(built_vm (calm_spec ''a'' ''acme'') Running 7 0 calm_cidr)\<lparr>v_state := Stopped, v_pid := None\<rparr>"
  define mg' where "mg' = set_state ''a'' Running (set_pid ''a'' (Some (sint (7 :: u32))) ?mg)"
  have vms: "mg_vms ?mg = [?v]" "mg_capturing ?mg = {''a''}" "mg_net_on ?mg"
    by (simp_all add: under_capture_def one_vm_fields)
  have f: "find_vm ''a'' (mg_vms ?mg) = Some ?v" by (simp add: vms built_fields calm_spec_def)
  have d: "v_dir_id ?v = ''a''" "v_slot ?v = Some 0" "v_ip ?v = Some (fmt_ip (host_at calm_cidr 0))" "v_state ?v = Stopped"
    by (simp_all add: built_fields calm_spec_def)
  note dirs = calm_dirs [OF f, unfolded d(1), OF valid_a]
  have vms': "mg_vms mg' = [?v\<lparr>v_state := Running, v_pid := Some (sint (7 :: u32))\<rparr>]" "mg_capturing mg' = {''a''}"
    by (simp_all add: mg'_def set_state_def set_pid_def upd_vms_def vms built_fields calm_spec_def)
  have "write_meta ?os ''a'' mg' = (Inr (), mg')"
    by (rule calm_write_meta [where v = "?v\<lparr>v_state := Running, v_pid := Some (sint (7 :: u32))\<rparr>"])
      (simp_all add: vms' built_fields calm_spec_def valid_a)
  then have "wake_vm ?os ''a'' ?mg = (Inr 0, mg')"
    using dirs vms(3)
    by (simp add: wake_vm_def f d repin_def calm Let_def load_snapshot_def mg'_def)
  moreover have "start ?os ''a'' ?mg = (Inl ''InvalidState: capture in progress'', ?mg)"
    by (simp add: start_def start_guard_def vms)
  ultimately show ?thesis
    using under_capture_reach vms vms' by (intro exI [of _ ?mg] exI [of _ mg']) simp
qed

subsection \<open>The same identifier twice\<close>

definition base_pool :: PoolSpec where
  "base_pool = \<lparr>ps_image = ''base'', ps_image_sha256 = [], ps_vcpus = 1, ps_mem_mib = 256, ps_disk_gb = 0, ps_count = 1\<rparr>"

definition with_pool :: "unit Manager" where
  "with_pool = one_vm\<lparr>mg_template_pools := [base_pool],
     mg_vms := [built_vm (calm_spec ''a'' ''acme'') Running 7 0 calm_cidr,
                built_vm (pool_create_spec ''pool-0'' base_pool) Pooled 7 1 calm_cidr],
     mg_allocator := Some \<lparr>alloc_cidr = calm_cidr, alloc_used = [True, True, False, False, False]\<rparr>\<rparr>"

lemma base_pool_valid: "validate_pool_spec debug base_pool = Inr ()"
proof -
  have "valid_image_name ''base''" by code_simp
  then show ?thesis by (simp add: validate_pool_spec_def base_pool_def)
qed

lemma with_pool_reach: "reach (calm_os (Inr (Some 7))) calm_boot with_pool"
proof -
  let ?os = "calm_os (Inr (Some 7))" and ?mg = "one_vm\<lparr>mg_template_pools := [base_pool]\<rparr>"
  have "mgr_apply ?os (OpSetPools [base_pool]) one_vm = ?mg"
    by (simp add: set_pools_def base_pool_valid)
  then have s: "reach ?os calm_boot ?mg" by (rule reach_trans_op [OF one_vm_reach])
  have id0: "''pool-'' @ show_hex (unat (now_ms ?os w)) = ''pool-0''" for w
  proof -
    have "show_hex 0 = ''0''" by code_simp
    then show ?thesis by (simp add: now_ms_def calm)
  qed
  have v: "valid_vm_id ''pool-0''" by code_simp
  have cs: "cs_id (pool_create_spec ''pool-0'' base_pool) = ''pool-0''" "cs_image_sha256 (pool_create_spec ''pool-0'' base_pool) = None"
      "cs_disk_gb (pool_create_spec ''pool-0'' base_pool) = 0"
    by (simp_all add: pool_create_spec_def base_pool_def sha_opt_def)
  have c: "cold_create ?os (pool_create_spec ''pool-0'' base_pool) Pooled None ?mg = (Inr (), with_pool)"
    by (subst calm_cold_create [OF _ _ calm_claims(2)])
      (simp_all add: one_vm_def calm_boot_def manager_new_def cs v built_fields calm_spec_def with_pool_def)
  have n: "pooled_count_matching (mg_vms one_vm) base_pool = 0" "pooled_count_matching (mg_vms with_pool) base_pool = 1"
    by (simp_all add: pooled_count_matching_def with_pool_def one_vm_fields built_fields base_pool_def calm_spec_def
        pool_create_spec_def)
  have two: "Suc (unat (ps_count base_pool)) = Suc (Suc 0)" "ps_count base_pool = 1" by (simp_all add: base_pool_def)
  have l: "refill_loop ?os (Suc (Suc 0)) base_pool ?mg = (True, with_pool)"
    using c by (simp add: n two(2) id0 [simplified] Let_def)
  have bo: "mg_backoff ?mg = Map.empty" "mg_pool_target ?mg = 0" "?mg\<lparr>mg_backoff := Map.empty\<rparr> = ?mg"
    by (simp_all add: one_vm_def calm_boot_def manager_new_def)
  then have "refill_pool ?os ?mg = snd (refill_loop ?os (Suc (Suc 0)) base_pool (?mg\<lparr>mg_backoff := Map.empty\<rparr>))"
    by (simp add: refill_pool_def refill_spec_def pool_specs_def surplus_pooled_ids_def one_vm_fields built_fields
        backoff_active_def two(1) Let_def del: refill_loop.simps)
  also have "\<dots> = with_pool" unfolding bo(3) l by simp
  finally have "refill_pool ?os ?mg = with_pool" .
  then have "mgr_apply ?os (OpPoolTick 0) ?mg = with_pool" by (simp add: pool_tick_def Let_def)
  then show ?thesis by (rule reach_trans_op [OF s])
qed

text \<open>
  C37. A creation that a pool serves does not check whether its identifier is in use.  The manager
  reaches a state with a running machine \<open>a\<close> and a parked machine of the same shape.  Without the
  parked one, a second creation of \<open>a\<close> is refused as \<open>AlreadyExists\<close>; with it the creation reports
  success, two records have the identifier \<open>a\<close>, and the parked machine is left in \<open>Creating\<close>.
\<close>

theorem pool_claim_duplicates_id:
  "\<exists>mg mg'. reach (calm_os (Inr (Some 7))) calm_boot mg
     \<and> cold_create (calm_os (Inr (Some 7))) (calm_spec ''a'' ''beta'') Running None mg = (Inl ''AlreadyExists'', mg)
     \<and> create (calm_os (Inr (Some 7))) (calm_spec ''a'' ''beta'') mg = (Inr (), mg')
     \<and> map (\<lambda>v. (v_id v, v_state v)) (mg_vms mg') = [(''a'', Running), (''a'', Creating)]"
proof -
  let ?os = "calm_os (Inr (Some 7))" and ?mg = with_pool and ?spec = "calm_spec ''a'' ''beta''"
  let ?u = "built_vm (calm_spec ''a'' ''acme'') Running 7 0 calm_cidr"
  let ?p = "built_vm (pool_create_spec ''pool-0'' base_pool) Pooled 7 1 calm_cidr"
  define mg1 where "mg1 = upd_vms (\<lambda>vs. vs[Suc 0 := retag ?spec (vs ! Suc 0)]) ?mg"
  have vms: "mg_vms ?mg = [?u, ?p]" "mg_net_on ?mg" by (simp_all add: with_pool_def one_vm_fields)
  have vms1: "mg_vms mg1 = [?u, retag ?spec ?p]" "mg_net_on mg1" by (simp_all add: mg1_def upd_vms_def vms)
  have f: "find_vm ''a'' (mg_vms mg1) = Some ?u" by (simp add: vms1 built_fields calm_spec_def)
  have s: "set_state ''a'' Running mg1 = mg1"
    by (simp add: set_state_def upd_vms_def vms1 built_fields calm_spec_def)
  have m: "find_pooled_match (mg_vms ?mg) ''base'' None 1 256 0 = Some 1"
    by (simp add: find_pooled_match_def vms position_Some pooled_shape_matches_def built_fields calm_spec_def
        pool_create_spec_def base_pool_def sha_opt_def)
  have dirs: "sock_path mg1 ''a'' = Some (mg_data_dir mg1 @ ''/instances/a/fc.sock'')"
    using calm_dirs [OF f] valid_a by (simp add: built_fields calm_spec_def)
  have w: "write_meta ?os ''a'' mg1 = (Inr (), mg1)"
    using f by (rule calm_write_meta) (simp add: built_fields calm_spec_def valid_a)
  have spec: "cs_id ?spec = ''a''" "cs_image ?spec = ''base''" "cs_image_sha256 ?spec = None" "cs_vcpus ?spec = 1"
      "cs_mem_mib ?spec = 256" "cs_disk_gb ?spec = 0"
    by (simp_all add: calm_spec_def)
  have "claim_from_pool ?os ?spec ?mg = (Inr True, mg1)"
    using m dirs w s unfolding claim_from_pool_def spec
    by (simp add: Let_def calm mg1_def [symmetric])
  then have "create ?os ?spec ?mg = (Inr (), mg1\<lparr>mg_host := (mg_host mg1)\<lparr>h_isolation_ok := True\<rparr>\<rparr>)"
    using vms1(2) by (simp add: create_def spec valid_a commit_or_isolate_def calm)
  moreover have "cold_create ?os ?spec Running None ?mg = (Inl ''AlreadyExists'', ?mg)"
    by (simp add: cold_create_def vms built_fields calm_spec_def)
  moreover have "map (\<lambda>v. (v_id v, v_state v)) (mg_vms mg1) = [(''a'', Running), (''a'', Creating)]"
    by (simp add: vms1 built_fields retag_def calm_spec_def)
  ultimately show ?thesis
    using with_pool_reach by (intro exI [of _ ?mg] exI [of _ "mg1\<lparr>mg_host := (mg_host mg1)\<lparr>h_isolation_ok := True\<rparr>\<rparr>"]) simp
qed

end
