(* ===== verification/Vm_Props.thy ===== *)
theory Vm_Props
  imports Vm_Demo
begin

text \<open>
  Properties of the lifecycle manager in every reachable state, and the behaviours of single
  operations that callers rely on.
\<close>

subsection \<open>Reachable states\<close>

lemma in_held: "s \<in> set (held vms) \<longleftrightarrow> (\<exists>v\<in>set vms. v_slot v = Some s)"
  unfolding held_def by (rule set_map_filter)

lemma held_nth_distinct:
  assumes "distinct (held vms)" "i < j" "j < length vms" "v_slot (vms ! i) = Some a" "v_slot (vms ! j) = Some b"
  shows "a \<noteq> b"
  using assms
proof (induction vms arbitrary: i j)
  case (Cons v vms)
  obtain j' where j: "j = Suc j'" using Cons.prems(2) by (cases j) auto
  show ?case
  proof (cases i)
    case 0
    have "vms ! j' \<in> set vms" using Cons.prems(3) j by simp
    then have "b \<in> set (held vms)" using Cons.prems(5) j by (auto simp: in_held)
    then show ?thesis using Cons.prems(1,4) 0 by auto
  next
    case (Suc i')
    then show ?thesis using Cons.IH [of i' j'] Cons.prems j by (auto split: option.splits)
  qed
qed simp

lemma reachable_inv:
  assumes "probe_keeps_files os" "boot_manager os data_dir net_on c pool cp token port h = Some mg0"
    and "metas_ok c (disk_metas os data_dir
           (mg_world (setup_host os (manager_new data_dir net_on c pool cp token (set_agent_port port h)))))"
    and "reach os mg0 mg"
  shows "mgr_inv (data_dir, net_on, c, net_on) mg"
  using reach_inv [OF assms(4) boot_inv [OF assms(1-3)]] .

lemma host_count_mac: "wf_cidr c \<Longrightarrow> 8 \<le> cidr_prefix c \<Longrightarrow> s < host_count c \<Longrightarrow> s < 2 ^ 24"
proof -
  assume c: "wf_cidr c" "8 \<le> cidr_prefix c" "s < host_count c"
  have "host_bits c \<le> 24" using c(1,2) by (simp add: host_bits_def wf_cidr_def word_le_nat_alt)
  then have "(2::nat) ^ host_bits c \<le> 2 ^ 24" by (intro power_increasing) auto
  then have "unat s < 2 ^ 24" using c(3) unat_host_count [OF c(1)] by (simp add: word_less_nat_alt)
  then show "s < 2 ^ 24" by (simp add: word_less_nat_alt)
qed

lemma inv_identities:
  assumes "wf_cidr c" "mgr_inv (dir, True, c, True) mg"
    and "i < length (mg_vms mg)" "j < length (mg_vms mg)" "i \<noteq> j"
    and "v_slot (mg_vms mg ! i) = Some a" "v_slot (mg_vms mg ! j) = Some b"
  shows "v_ip (mg_vms mg ! i) = Some (fmt_ip (host_at c a)) \<and> v_ip (mg_vms mg ! i) \<noteq> v_ip (mg_vms mg ! j)
         \<and> tap_name a \<noteq> tap_name b
         \<and> (8 \<le> cidr_prefix c \<longrightarrow> guest_mac_for_slot a \<noteq> guest_mac_for_slot b)
         \<and> host_at c a AND cidr_mask c = net_base c \<and> host_at c a \<notin> {net_base c, gateway c, broadcast c}"
proof -
  obtain al where al: "mg_allocator mg = Some al" "mg_cidr mg = c"
    using assms(2) by (auto simp: mgr_inv_def conf_def)
  with assms(2) have s: "slots_inv c (mg_vms mg) (Some al)" by (simp add: mgr_inv_def)
  have "a \<noteq> b"
    using held_nth_distinct [of "mg_vms mg" i j a b] held_nth_distinct [of "mg_vms mg" j i b a] s assms(3-7)
    by (cases "i < j") (auto simp: slots_inv_Some)
  note wf = assms(1)
  have held: "a \<in> set (held (mg_vms mg))" "b \<in> set (held (mg_vms mg))"
    using assms(3,4,6,7) by (auto simp: in_held)
  have lt: "x < host_count c" if "x \<in> set (held (mg_vms mg))" for x
    using s that slots.used_cap [of al x] by (auto simp: slots_inv_Some word_less_nat_alt)
  have ip: "v_ip (mg_vms mg ! i) = Some (fmt_ip (host_at c a))" "v_ip (mg_vms mg ! j) = Some (fmt_ip (host_at c b))"
    using s assms(3,4,6,7) by (simp_all add: slots_inv_Some)
  have "host_at c a \<noteq> host_at c b" using host_at_inj [OF wf lt lt] held \<open>a \<noteq> b\<close> by blast
  then have "v_ip (mg_vms mg ! i) \<noteq> v_ip (mg_vms mg ! j)" using ip fmt_ip_inj by auto
  moreover have "tap_name a \<noteq> tap_name b"
    using \<open>a \<noteq> b\<close> show_nat_inj [of "unat a" "unat b"] by (auto simp: tap_name_def word_unat_eq_iff)
  moreover have "8 \<le> cidr_prefix c \<longrightarrow> guest_mac_for_slot a \<noteq> guest_mac_for_slot b"
    using guest_mac_inj [of a b] host_count_mac [OF wf _ lt] held \<open>a \<noteq> b\<close> by blast
  ultimately show ?thesis using ip host_at_special [OF wf lt [OF held(1)]] by simp
qed



lemma ingress_ports_Cons:
  "map fst (ingress_members (v # vms))
     = (if v_ip v = None then [] else map node_port (v_exposes v)) @ map fst (ingress_members vms)"
  by (simp add: ingress_members_def comp_def split: option.splits)

lemma ingress_target:
  assumes "(np, ip, gp) \<in> set (ingress_members vms)"
  shows "\<exists>v\<in>set vms. v_ip v = Some ip \<and> \<lparr>guest_port = gp, node_port = np\<rparr> \<in> set (v_exposes v)"
proof -
  obtain v e where v: "v \<in> set vms" "v_ip v = Some ip" "e \<in> set (v_exposes v)" "np = node_port e" "gp = guest_port e"
    using assms by (auto simp: ingress_members_def split: option.splits)
  then have "\<lparr>guest_port = gp, node_port = np\<rparr> = e" by (cases e) simp
  then show ?thesis using v by blast
qed

lemma ingress_ports:
  "distinct (all_node_ports vms) \<Longrightarrow> distinct (map fst (ingress_members vms))
     \<and> set (map fst (ingress_members vms)) \<subseteq> set (all_node_ports vms)"
proof (induction vms)
  case (Cons v vms)
  then have IH: "distinct (map fst (ingress_members vms))" "set (map fst (ingress_members vms)) \<subseteq> set (all_node_ports vms)"
    and d: "distinct (map node_port (v_exposes v))" "set (map node_port (v_exposes v)) \<inter> set (all_node_ports vms) = {}"
    by simp_all
  have "set (map node_port (v_exposes v)) \<inter> set (map fst (ingress_members vms)) = {}" using IH(2) d(2) by blast
  then show ?case
    unfolding ingress_ports_Cons all_node_ports_simps using IH d(1) by (simp del: set_map) blast
qed (simp add: ingress_members_def)


definition calm_exposed :: "unit Manager" where
  "calm_exposed = mgr_apply (calm_os (Inr (Some 7))) (OpExpose ''a'' 80) calm_two"

lemma lowest_free_first: "NODE_PORT_MIN \<notin> used \<Longrightarrow> lowest_free_node_port used = Some NODE_PORT_MIN"
proof -
  assume n: "NODE_PORT_MIN \<notin> used"
  have "unat NODE_PORT_MIN < Suc (unat NODE_PORT_MAX)" by (simp add: NODE_PORT_MIN_def NODE_PORT_MAX_def)
  then obtain xs where "[unat NODE_PORT_MIN ..< Suc (unat NODE_PORT_MAX)] = unat NODE_PORT_MIN # xs"
    using upt_conv_Cons by blast
  then show ?thesis unfolding lowest_free_node_port_def using n by simp
qed

lemma calm_exposed_members:
  "ingress_members (mg_vms calm_exposed) = [(20000, fmt_ip (host_at calm_cidr 0), 80)]"
proof -
  have v: "valid_vm_id ''a''" by code_simp
  show ?thesis
    by (simp add: calm_exposed_def expose_def calm_two_def built_vm_def new_vm_def calm_spec_def used_node_ports_def
        lowest_free_first upd_vms_def refresh_ingress_def calm_boot_def manager_new_def write_meta_def instance_path_def
        v calm Let_def ingress_members_def) (simp add: NODE_PORT_MIN_def)
qed


end
