(* ===== verification/Agent_Config.thy ===== *)
theory Agent_Config
  imports Vm_Image Vm_Meta "HOL-Library.Monad_Syntax"
begin

text \<open>
  Configuration and credentials (\<open>agent/src/config.rs\<close>): the three layers of configuration, the
  guards on tokens, the persisted credential of the node, listen addresses, and the comparison
  that every request of the control API passes.  Files are read and written through a record
  of functions that extends \<open>os\<close> by what the node outside the manager asks of its system.
\<close>

subsection \<open>The system around the node\<close>

datatype lstat_result = LMissing | LFailed string | LFile bool nat

datatype read_result = Missing | Unreadable string | Contents string

datatype tcp_result = ConnectFailed string | WriteFailed string | FlushFailed string | ReadFailed string | Received string

text \<open>
  \<open>no_lstat\<close> is \<open>symlink_metadata\<close> (whether the path is a symbolic link, and its mode);
  \<open>no_read\<close> reads a file whole; \<open>no_put\<close> and \<open>no_sync\<close> write to and flush the file opened at
  a path; \<open>no_openable\<close> is the error of opening a file for reading; \<open>no_tcp addr request\<close> is one
  exchange on a fresh connection, read to its end; \<open>no_shape_error\<close> is what \<open>serde_json\<close> says of a
  document that does not have the declared shape; \<open>no_pretty\<close> is its pretty printer;
  \<open>no_local_addr addr\<close> is the local address of a datagram socket connected to \<open>addr\<close>; \<open>no_listen\<close>
  binds a listening socket.
\<close>

record 'w nodeos =
  no_os :: "'w os"
  no_lstat :: "string \<Rightarrow> 'w \<Rightarrow> lstat_result"
  no_read :: "string \<Rightarrow> 'w \<Rightarrow> read_result"
  no_put :: "string \<Rightarrow> string \<Rightarrow> ('w, unit) step"
  no_sync :: "string \<Rightarrow> ('w, unit) step"
  no_openable :: "string \<Rightarrow> 'w \<Rightarrow> string option"
  no_tcp :: "string \<Rightarrow> string \<Rightarrow> 'w \<Rightarrow> tcp_result \<times> 'w"
  no_shape_error :: "string \<Rightarrow> string"
  no_pretty :: "json \<Rightarrow> string"
  no_local_addr :: "string \<Rightarrow> 'w \<Rightarrow> string option"
  no_listen :: "string \<Rightarrow> ('w, unit) step"

text \<open>\<open>std::fs::read_to_string\<close>.\<close>

definition read_text :: "'w nodeos \<Rightarrow> string \<Rightarrow> 'w \<Rightarrow> read_result" where
  "read_text no path w
     = (case no_read no path w of
          Contents b \<Rightarrow> if valid_utf8 b then Contents b else Unreadable ''stream did not contain valid UTF-8''
        | r \<Rightarrow> r)"

definition emdash :: string where
  "emdash = map char_of [0xE2, 0x80, 0x94 :: nat]"

definition tick :: string where
  "tick = [CHR 0x60]"

subsection \<open>Configuration\<close>

record Config =
  c_bind :: string
  c_control_plane :: string
  c_advertise_addr :: string
  c_data_dir :: string
  c_token :: string
  c_join_url :: string
  c_join_token :: string
  c_net :: bool
  c_net_cidr :: string
  c_pool_size :: u32
  c_port :: u16
  c_bind_any :: bool

definition Config_default :: Config where
  "Config_default
     = \<lparr>c_bind = ''0.0.0.0:9090'', c_control_plane = ''http://127.0.0.1:8080'', c_advertise_addr = [],
        c_data_dir = ''/srv/ignis'', c_token = [], c_join_url = [], c_join_token = [], c_net = True,
        c_net_cidr = ''10.231.0.0/24'', c_pool_size = 0, c_port = 9090, c_bind_any = False\<rparr>"

record FileConfig =
  fc_bind :: "string option"
  fc_control_plane :: "string option"
  fc_advertise_addr :: "string option"
  fc_data_dir :: "string option"
  fc_token :: "string option"
  fc_join_url :: "string option"
  fc_join_token :: "string option"
  fc_net :: "json option"
  fc_net_cidr :: "string option"
  fc_pool_size :: "nat option"
  fc_port :: "nat option"
  fc_bind_any :: "json option"

definition FILE_KEYS :: "string list" where
  "FILE_KEYS = [''bind'', ''control_plane'', ''advertise_addr'', ''data_dir'', ''token'', ''join_url'', ''join_token'',
                ''net'', ''net_cidr'', ''pool_size'', ''port'', ''bind_any'']"

definition de_file_config :: "json \<Rightarrow> FileConfig option" where
  "de_file_config v
     = (case v of
          JObj kvs \<Rightarrow>
            if \<not> fields_once FILE_KEYS kvs then None
            else do {
              bnd \<leftarrow> de_opt de_str (jfield kvs ''bind'');
              control_plane \<leftarrow> de_opt de_str (jfield kvs ''control_plane'');
              advertise_addr \<leftarrow> de_opt de_str (jfield kvs ''advertise_addr'');
              data_dir \<leftarrow> de_opt de_str (jfield kvs ''data_dir'');
              token \<leftarrow> de_opt de_str (jfield kvs ''token'');
              join_url \<leftarrow> de_opt de_str (jfield kvs ''join_url'');
              join_token \<leftarrow> de_opt de_str (jfield kvs ''join_token'');
              net \<leftarrow> de_opt Some (jfield kvs ''net'');
              net_cidr \<leftarrow> de_opt de_str (jfield kvs ''net_cidr'');
              pool_size \<leftarrow> de_opt (de_uint 64) (jfield kvs ''pool_size'');
              port \<leftarrow> de_opt (de_uint 64) (jfield kvs ''port'');
              bind_any \<leftarrow> de_opt Some (jfield kvs ''bind_any'');
              Some \<lparr>fc_bind = bnd, fc_control_plane = control_plane, fc_advertise_addr = advertise_addr,
                    fc_data_dir = data_dir, fc_token = token, fc_join_url = join_url, fc_join_token = join_token,
                    fc_net = net, fc_net_cidr = net_cidr, fc_pool_size = pool_size, fc_port = port,
                    fc_bind_any = bind_any\<rparr>
            }
        | _ \<Rightarrow> None)"

definition parse_bool :: "string \<Rightarrow> bool option" where
  "parse_bool v
     = (let lo = map ascii_lower v
        in if lo \<in> {''on'', ''true'', ''1''} then Some True
           else if lo \<in> {''off'', ''false'', ''0''} then Some False
           else None)"

definition set_bool :: "string \<Rightarrow> bool \<Rightarrow> bool" where
  "set_bool v old = (case parse_bool v of Some b \<Rightarrow> b | None \<Rightarrow> old)"

definition json_bool :: "json option \<Rightarrow> bool \<Rightarrow> bool" where
  "json_bool v old = (case v of Some (JBool b) \<Rightarrow> b | Some (JStr s) \<Rightarrow> set_bool s old | _ \<Rightarrow> old)"

definition or_old :: "'a option \<Rightarrow> 'a \<Rightarrow> 'a" where
  "or_old v old = (case v of Some x \<Rightarrow> x | None \<Rightarrow> old)"

text \<open>The casts \<open>as u32\<close> and \<open>as u16\<close> of the file layer keep the low bits.\<close>

definition file_layer :: "FileConfig \<Rightarrow> Config \<Rightarrow> Config" where
  "file_layer fc cfg
     = cfg\<lparr>c_bind := or_old (fc_bind fc) (c_bind cfg),
           c_control_plane := or_old (fc_control_plane fc) (c_control_plane cfg),
           c_advertise_addr := or_old (fc_advertise_addr fc) (c_advertise_addr cfg),
           c_data_dir := or_old (fc_data_dir fc) (c_data_dir cfg),
           c_token := or_old (fc_token fc) (c_token cfg),
           c_join_url := or_old (fc_join_url fc) (c_join_url cfg),
           c_join_token := or_old (fc_join_token fc) (c_join_token cfg),
           c_net := json_bool (fc_net fc) (c_net cfg),
           c_net_cidr := or_old (fc_net_cidr fc) (c_net_cidr cfg),
           c_pool_size := or_old (map_option of_nat (fc_pool_size fc)) (c_pool_size cfg),
           c_port := or_old (map_option of_nat (fc_port fc)) (c_port cfg),
           c_bind_any := json_bool (fc_bind_any fc) (c_bind_any cfg)\<rparr>"

text \<open>\<open>v.parse::<u32>()\<close> and \<open>v.parse::<u16>()\<close>, keeping the old value on an error.\<close>

definition set_num :: "string \<Rightarrow> 'a::len word \<Rightarrow> 'a word" where
  "set_num v old = (case parse_uint (2 ^ LENGTH('a)) v of Some n \<Rightarrow> of_nat n | None \<Rightarrow> old)"

definition env_layer :: "(string \<Rightarrow> string option) \<Rightarrow> Config \<Rightarrow> Config" where
  "env_layer env cfg
     = cfg\<lparr>c_bind := or_old (env ''FELUCCA_AGENT_BIND'') (c_bind cfg),
           c_control_plane := or_old (env ''FELUCCA_CONTROL_PLANE'') (c_control_plane cfg),
           c_advertise_addr := or_old (env ''FELUCCA_ADVERTISE_ADDR'') (c_advertise_addr cfg),
           c_data_dir := or_old (env ''FELUCCA_DATA_DIR'') (c_data_dir cfg),
           c_token := or_old (env ''FELUCCA_TOKEN'') (c_token cfg),
           c_join_url := or_old (env ''FELUCCA_JOIN_URL'') (c_join_url cfg),
           c_join_token := or_old (env ''FELUCCA_JOIN_TOKEN'') (c_join_token cfg),
           c_net := (case env ''FELUCCA_NET'' of Some v \<Rightarrow> set_bool v (c_net cfg) | None \<Rightarrow> c_net cfg),
           c_net_cidr := or_old (env ''FELUCCA_NET_CIDR'') (c_net_cidr cfg),
           c_pool_size := (case env ''FELUCCA_POOL_SIZE'' of Some v \<Rightarrow> set_num v (c_pool_size cfg) | None \<Rightarrow> c_pool_size cfg),
           c_port := (case env ''FELUCCA_AGENT_PORT'' of Some v \<Rightarrow> set_num v (c_port cfg) | None \<Rightarrow> c_port cfg),
           c_bind_any := (case env ''FELUCCA_BIND_ANY'' of Some v \<Rightarrow> set_bool v (c_bind_any cfg) | None \<Rightarrow> c_bind_any cfg)\<rparr>"

definition set_flag :: "string \<Rightarrow> string \<Rightarrow> Config \<Rightarrow> Config option" where
  "set_flag flag v cfg
     = (if flag = ''--bind'' then Some (cfg\<lparr>c_bind := v\<rparr>)
        else if flag = ''--control-plane'' then Some (cfg\<lparr>c_control_plane := v\<rparr>)
        else if flag = ''--advertise-addr'' then Some (cfg\<lparr>c_advertise_addr := v\<rparr>)
        else if flag = ''--data-dir'' then Some (cfg\<lparr>c_data_dir := v\<rparr>)
        else if flag = ''--token'' then Some (cfg\<lparr>c_token := v\<rparr>)
        else if flag = ''--join'' then Some (cfg\<lparr>c_join_url := v\<rparr>)
        else if flag = ''--join-token'' then Some (cfg\<lparr>c_join_token := v\<rparr>)
        else if flag = ''--net'' then Some (cfg\<lparr>c_net := set_bool v (c_net cfg)\<rparr>)
        else if flag = ''--net-cidr'' then Some (cfg\<lparr>c_net_cidr := v\<rparr>)
        else if flag = ''--bind-any'' then Some (cfg\<lparr>c_bind_any := set_bool v (c_bind_any cfg)\<rparr>)
        else if flag = ''--pool-size'' then Some (cfg\<lparr>c_pool_size := set_num v (c_pool_size cfg)\<rparr>)
        else if flag = ''--port'' then Some (cfg\<lparr>c_port := set_num v (c_port cfg)\<rparr>)
        else None)"

text \<open>The arguments after the name of the program.  A flag at the very end has no value and is skipped.\<close>

fun flag_layer :: "string list \<Rightarrow> Config \<Rightarrow> Config" where
  "flag_layer (a # v # rest) cfg
     = (case set_flag a v cfg of Some cfg' \<Rightarrow> flag_layer rest cfg' | None \<Rightarrow> flag_layer (v # rest) cfg)"
| "flag_layer _ cfg = cfg"

fun find_config :: "string list \<Rightarrow> string option \<Rightarrow> string option" where
  "find_config (a # v # rest) path
     = (if a = ''--config'' then find_config rest (Some v) else find_config (v # rest) path)"
| "find_config _ path = path"

definition read_config :: "'w nodeos \<Rightarrow> string \<Rightarrow> Config \<Rightarrow> 'w \<Rightarrow> string + Config" where
  "read_config no path cfg w
     = (case read_text no path w of
          Missing \<Rightarrow> Inl (''config '' @ path @ '': No such file or directory (os error 2)'')
        | Unreadable e \<Rightarrow> Inl (''config '' @ path @ '': '' @ e)
        | Contents data \<Rightarrow>
            (case os_json (no_os no) data of
               Inl e \<Rightarrow> Inl (''config '' @ path @ '': '' @ e)
             | Inr v \<Rightarrow>
                 (case de_file_config v of
                    None \<Rightarrow> Inl (''config '' @ path @ '': '' @ no_shape_error no data)
                  | Some fc \<Rightarrow> Inr (file_layer fc cfg))))"

text \<open>The port after the last colon of \<open>bind\<close> wins.\<close>

definition bind_port :: "Config \<Rightarrow> Config" where
  "bind_port cfg
     = (case rsplit_once (CHR '':'') (c_bind cfg) of
          Some (_, p) \<Rightarrow> cfg\<lparr>c_port := set_num p (c_port cfg)\<rparr>
        | None \<Rightarrow> cfg)"

definition load :: "'w nodeos \<Rightarrow> string list \<Rightarrow> (string \<Rightarrow> string option) \<Rightarrow> 'w \<Rightarrow> string + Config" where
  "load no args env w
     = (case (case find_config (drop 1 args) (env ''FELUCCA_CONFIG'') of
                Some path \<Rightarrow> read_config no path Config_default w
              | None \<Rightarrow> Inr Config_default) of
          Inl e \<Rightarrow> Inl e
        | Inr cfg \<Rightarrow> Inr (bind_port (flag_layer (drop 1 args) (env_layer env cfg))))"

subsection \<open>Tokens\<close>

definition PLACEHOLDER_TOKENS :: "string list" where
  "PLACEHOLDER_TOKENS = [''REPLACE_WITH_SAME_TOKEN_AS_FELUCCAD'', ''REPLACE_WITH_OUTPUT_OF__openssl_rand_-hex_32'',
     ''felucca-lab-token'', ''hearth-lab-token'']"

definition MIN_TOKEN_LEN :: nat where
  "MIN_TOKEN_LEN = 16"

definition validate_token :: "string \<Rightarrow> string + unit" where
  "validate_token token
     = (if token = [] then
          Inl (''no token configured '' @ emdash @ '' set '' @ tick @ ''token'' @ tick
               @ '' in the config file, FELUCCA_TOKEN, or --token'')
        else
          let lower = map ascii_lower token
          in if contains_str ''replace_with'' lower \<or> list_ex (\<lambda>p. map ascii_lower p = lower) PLACEHOLDER_TOKENS
             then Inl (''token is a known placeholder '' @ emdash @ '' generate a real one with '' @ tick
                       @ ''openssl rand -hex 32'' @ tick)
             else if length token < MIN_TOKEN_LEN
             then Inl (''token is shorter than '' @ show_nat MIN_TOKEN_LEN @ '' bytes '' @ emdash
                       @ '' generate one with '' @ tick @ ''openssl rand -hex 32'' @ tick)
             else Inr ())"

definition node_token_path :: "string \<Rightarrow> string" where
  "node_token_path data_dir = data_dir @ ''/node-token''"

definition save_node_token :: "'w nodeos \<Rightarrow> string \<Rightarrow> string \<Rightarrow> ('w, unit) step" where
  "save_node_token no data_dir token w
     = attempt (map_err (\<lambda>e. ''refusing to persist node token: '' @ e) (validate_token token, w)) (\<lambda>_ w.
       attempt (map_err (\<lambda>e. ''create '' @ data_dir @ '': '' @ e) (os_mkdir_all (no_os no) data_dir 511 w)) (\<lambda>_ w.
       let path = node_token_path data_dir; tmp = path @ ''.tmp'' in
       attempt (map_err (\<lambda>e. ''open '' @ tmp @ '': '' @ e) (os_open (no_os no) tmp True 384 w)) (\<lambda>_ w.
       attempt (map_err (\<lambda>e. ''chmod '' @ tmp @ '': '' @ e) (os_chmod (no_os no) tmp 384 w)) (\<lambda>_ w.
       attempt (map_err (\<lambda>e. ''write '' @ tmp @ '': '' @ e) (no_put no tmp token w)) (\<lambda>_ w.
       attempt (map_err (\<lambda>e. ''sync '' @ tmp @ '': '' @ e) (no_sync no tmp w)) (\<lambda>_ w.
       map_err (\<lambda>e. ''rename '' @ path @ '': '' @ e) (os_rename (no_os no) tmp path w)))))))"

text \<open>\<open>{:04o}\<close> of a mode below 512.\<close>

definition octal4 :: "nat \<Rightarrow> string" where
  "octal4 n = map digit_char [n div 512 mod 8, n div 64 mod 8, n div 8 mod 8, n mod 8]"

definition load_node_token :: "'w nodeos \<Rightarrow> string \<Rightarrow> 'w \<Rightarrow> string + string option" where
  "load_node_token no data_dir w
     = (let path = node_token_path data_dir in
        case no_lstat no path w of
          LMissing \<Rightarrow> Inr None
        | LFailed e \<Rightarrow>
            Inl (path @ '': unreadable node token ('' @ e @ ''); fix the file'' @ [CHR 0x27] @ ''s owner/permissions, ''
                 @ ''or delete it to fall back to the configured shared token'')
        | LFile symlink md \<Rightarrow>
            if symlink then
              Inl (path @ '': node token is a symlink '' @ emdash @ '' refusing to read this node'' @ [CHR 0x27]
                   @ ''s credential through one; delete it and re-enroll with a fresh join token'')
            else if (md mod 512) mod 64 \<noteq> 0 then
              Inl (path @ '': node token is readable beyond its owner (mode '' @ octal4 (md mod 512) @ '') '' @ emdash
                   @ '' run '' @ tick @ ''chmod 600 '' @ path @ tick
                   @ '', or delete it and re-enroll with a fresh join token'')
            else
              (case read_text no path w of
                 Missing \<Rightarrow> Inl (path @ '': unreadable node token (No such file or directory (os error 2))'')
               | Unreadable e \<Rightarrow> Inl (path @ '': unreadable node token ('' @ e @ '')'')
               | Contents data \<Rightarrow>
                   let token = trim data
                   in (case validate_token token of
                         Inl e \<Rightarrow>
                           Inl (path @ '': unusable node token ('' @ e @ ''); delete the file to fall back to the ''
                                @ ''configured shared token, or re-enroll with a fresh join token'')
                       | Inr _ \<Rightarrow> Inr (Some token))))"

subsection \<open>Addresses\<close>

definition wildcard_to_empty :: "string \<Rightarrow> string" where
  "wildcard_to_empty host = (if host \<in> {''0.0.0.0'', ''::'', ''*'', []} then [] else host)"

definition bind_host :: "string \<Rightarrow> string" where
  "bind_host bnd
     = (let b = trim bnd in
        case strip_prefix ''['' b of
          Some rest \<Rightarrow>
            (case split_once (CHR '']'') rest of Some (h, _) \<Rightarrow> wildcard_to_empty h | None \<Rightarrow> [])
        | None \<Rightarrow>
            wildcard_to_empty
              (case (split_once (CHR '':'') b, rsplit_once (CHR '':'') b) of
                 (Some (f, _), Some (l, _)) \<Rightarrow> if length f = length l then f else b
               | _ \<Rightarrow> b))"

definition join_host_port :: "string \<Rightarrow> u16 \<Rightarrow> string" where
  "join_host_port host port
     = (if CHR '':'' \<in> set host \<and> \<not> starts_with ''['' host
        then ''['' @ host @ '']:'' @ show_nat (unat port)
        else host @ '':'' @ show_nat (unat port))"

definition addr_in_guest_cidr :: "string \<Rightarrow> Cidr \<Rightarrow> bool" where
  "addr_in_guest_cidr host cidr
     = (case ipv4_from_str host of
          None \<Rightarrow> False
        | Some ip \<Rightarrow> ip AND cidr_mask cidr = net_base cidr)"

definition until_slash :: "string \<Rightarrow> string" where
  "until_slash a = (case split_once (CHR ''/'') a of Some (h, _) \<Rightarrow> h | None \<Rightarrow> a)"

definition split_host_port :: "string \<Rightarrow> string \<times> u16" where
  "split_host_port addr
     = (let a = (case strip_prefix ''http://'' addr of
                   Some rest \<Rightarrow> rest
                 | None \<Rightarrow> (case strip_prefix ''https://'' addr of Some rest \<Rightarrow> rest | None \<Rightarrow> addr));
            a = until_slash a
        in case rsplit_once (CHR '':'') a of
             Some (host, p) \<Rightarrow> (host, set_num p 8080)
           | None \<Rightarrow> (a, 8080))"

subsection \<open>Authorisation\<close>

text \<open>The accumulator of the loop over the zipped bytes.\<close>

fun xor_diff :: "u8 \<Rightarrow> string \<Rightarrow> string \<Rightarrow> u8" where
  "xor_diff diff (x # xs) (y # ys) = xor_diff (diff OR (of_nat (byte x) XOR of_nat (byte y))) xs ys"
| "xor_diff diff _ _ = diff"

definition constant_time_eq :: "string \<Rightarrow> string \<Rightarrow> bool" where
  "constant_time_eq a b = (if length a \<noteq> length b then False else xor_diff 0 a b = 0)"

definition authorized :: "string \<Rightarrow> string option \<Rightarrow> bool" where
  "authorized token authorization
     = (if token = [] then False
        else case authorization of
               None \<Rightarrow> False
             | Some auth \<Rightarrow>
                 (case strip_prefix ''Bearer '' auth of
                    None \<Rightarrow> False
                  | Some bearer \<Rightarrow> constant_time_eq token bearer))"

definition authorized_either :: "string \<Rightarrow> string \<Rightarrow> string option \<Rightarrow> bool" where
  "authorized_either shared node authorization
     = (authorized shared authorization \<or> authorized node authorization)"

subsection \<open>Properties\<close>

lemma xor_zero: "a XOR b = 0 \<longleftrightarrow> a = (b :: 'a::len word)"
proof
  assume "a XOR b = 0"
  then have "(a XOR b) XOR b = 0 XOR b" by simp
  then show "a = b" by (simp add: xor.assoc)
qed simp

lemma byte_xor_zero: "(of_nat (byte x) XOR of_nat (byte y) :: u8) = 0 \<longleftrightarrow> x = y"
proof -
  have "(of_nat (byte x) :: u8) = of_nat (byte y) \<longleftrightarrow> byte x = byte y"
    using code_less [of x] code_less [of y] by (simp add: word_unat_eq_iff unat_of_nat)
  then show ?thesis using xor_zero [of "of_nat (byte x) :: u8" "of_nat (byte y)"] by simp
qed

lemma xor_diff_zero: "length a = length b \<Longrightarrow> xor_diff d a b = 0 \<longleftrightarrow> d = 0 \<and> a = b"
proof (induction d a b rule: xor_diff.induct)
  case (1 d x xs y ys)
  then show ?case using byte_xor_zero [of x y] by (auto simp: or_eq_0_iff)
qed auto

lemma constant_time_eq_iff: "constant_time_eq a b \<longleftrightarrow> a = b"
  using xor_diff_zero [of a b 0] by (auto simp: constant_time_eq_def)

lemma authorized_iff: "authorized token auth \<longleftrightarrow> token \<noteq> [] \<and> auth = Some (''Bearer '' @ token)"
proof (cases auth)
  case (Some a)
  show ?thesis
  proof (cases "strip_prefix ''Bearer '' a")
    case None
    then have "a \<noteq> ''Bearer '' @ token" using strip_prefix_Some [of "''Bearer ''" a token] by auto
    then show ?thesis using Some None by (simp add: authorized_def)
  next
    case (Some b)
    then have "a = ''Bearer '' @ b" by (simp only: strip_prefix_Some)
    then show ?thesis using Some \<open>auth = Some a\<close> by (auto simp: authorized_def constant_time_eq_iff simp del: append.simps)
  qed
qed (simp add: authorized_def)

text \<open>
  C10. The gate of the control API accepts exactly its credentials: a request is authorised if and
  only if its header is the word Bearer, a space and one of the two configured tokens, byte
  for byte, and that token is not empty.
\<close>

theorem authorized_either_exact:
  "authorized_either shared node auth \<longleftrightarrow>
     (\<exists>token. (token = shared \<or> token = node) \<and> token \<noteq> [] \<and> auth = Some (''Bearer '' @ token))"
  by (auto simp: authorized_either_def authorized_iff)

text \<open>
  A port hidden in an address: the port of the last colon also wins for an unbracketed IPv6
  address, whose last group is not a port and which the host part keeps whole.
\<close>

theorem bind_port_of_ipv6_literal:
  "c_port (bind_port (Config_default\<lparr>c_bind := ''fd00::12''\<rparr>)) = 12 \<and> bind_host ''fd00::12'' = ''fd00::12''"
proof -
  have "trim ''fd00::12'' = ''fd00::12''" by (simp add: trim_alnum ascii_defs)
  moreover have "c_port (bind_port (Config_default\<lparr>c_bind := ''fd00::12''\<rparr>)) = 12"
    by (simp add: bind_port_def rsplit_once_def set_num_def parse_uint_def digit_val_def is_ascii_digit_def)
  ultimately show ?thesis by (simp add: bind_host_def rsplit_once_def wildcard_to_empty_def)
qed

subsection \<open>The persisted credential\<close>

text \<open>
  What the code relies on of files, over a view \<open>fs\<close> of the world as contents and mode of each
  regular file: an operation changes at most the files it names, and on success has its effect.
\<close>

definition node_files :: "'w nodeos \<Rightarrow> ('w \<Rightarrow> string \<Rightarrow> (string \<times> nat) option) \<Rightarrow> bool" where
  "node_files no fs
     = ((\<forall>p w. no_lstat no p w = (case fs w p of None \<Rightarrow> LMissing | Some (_, md) \<Rightarrow> LFile False md))
        \<and> (\<forall>p w. no_read no p w = (case fs w p of None \<Rightarrow> Missing | Some (b, _) \<Rightarrow> Contents b))
        \<and> (\<forall>p m w r w'. os_mkdir_all (no_os no) p m w = (r, w') \<longrightarrow> fs w' = fs w)
        \<and> (\<forall>p m w r w'. os_open (no_os no) p True m w = (r, w') \<longrightarrow>
              (\<forall>q. q \<noteq> p \<longrightarrow> fs w' q = fs w q) \<and> (r = Inr () \<longrightarrow> (\<exists>md. fs w' p = Some ([], md))))
        \<and> (\<forall>p m w r w'. os_chmod (no_os no) p m w = (r, w') \<longrightarrow>
              (\<forall>q. q \<noteq> p \<longrightarrow> fs w' q = fs w q) \<and> (r = Inr () \<longrightarrow> fs w' p = map_option (\<lambda>(b, _). (b, m)) (fs w p)))
        \<and> (\<forall>p c w r w'. no_put no p c w = (r, w') \<longrightarrow>
              (\<forall>q. q \<noteq> p \<longrightarrow> fs w' q = fs w q) \<and> (r = Inr () \<longrightarrow> fs w' p = map_option (\<lambda>(b, md). (b @ c, md)) (fs w p)))
        \<and> (\<forall>p w r w'. no_sync no p w = (r, w') \<longrightarrow> fs w' = fs w)
        \<and> (\<forall>p q w r w'. os_rename (no_os no) p q w = (r, w') \<longrightarrow>
              fs w' = (if r = Inr () then (fs w)(p := None, q := fs w p) else fs w)))"

lemma node_filesD:
  assumes "node_files no fs"
  shows "no_lstat no p w = (case fs w p of None \<Rightarrow> LMissing | Some (_, md) \<Rightarrow> LFile False md)"
    "no_read no p w = (case fs w p of None \<Rightarrow> Missing | Some (b, _) \<Rightarrow> Contents b)"
    "os_mkdir_all (no_os no) p m w = (r, w') \<Longrightarrow> fs w' = fs w"
    "os_open (no_os no) p True m w = (r, w') \<Longrightarrow>
       (\<forall>q. q \<noteq> p \<longrightarrow> fs w' q = fs w q) \<and> (r = Inr () \<longrightarrow> (\<exists>md. fs w' p = Some ([], md)))"
    "os_chmod (no_os no) p m w = (r, w') \<Longrightarrow>
       (\<forall>q. q \<noteq> p \<longrightarrow> fs w' q = fs w q) \<and> (r = Inr () \<longrightarrow> fs w' p = map_option (\<lambda>(b, _). (b, m)) (fs w p))"
    "no_put no p c w = (r, w') \<Longrightarrow>
       (\<forall>q. q \<noteq> p \<longrightarrow> fs w' q = fs w q) \<and> (r = Inr () \<longrightarrow> fs w' p = map_option (\<lambda>(b, md). (b @ c, md)) (fs w p))"
    "no_sync no p w = (r, w') \<Longrightarrow> fs w' = fs w"
    "os_rename (no_os no) p q w = (r, w') \<Longrightarrow> fs w' = (if r = Inr () then (fs w)(p := None, q := fs w p) else fs w)"
proof -
  note c = assms [unfolded node_files_def]
  show "no_lstat no p w = (case fs w p of None \<Rightarrow> LMissing | Some (_, md) \<Rightarrow> LFile False md)"
    using c [THEN conjunct1] by simp
  note c2 = c [THEN conjunct2]
  show "no_read no p w = (case fs w p of None \<Rightarrow> Missing | Some (b, _) \<Rightarrow> Contents b)"
    using c2 [THEN conjunct1] by simp
  note c3 = c2 [THEN conjunct2]
  show "os_mkdir_all (no_os no) p m w = (r, w') \<Longrightarrow> fs w' = fs w" using c3 [THEN conjunct1] by simp
  note c4 = c3 [THEN conjunct2]
  show "os_open (no_os no) p True m w = (r, w') \<Longrightarrow>
       (\<forall>q. q \<noteq> p \<longrightarrow> fs w' q = fs w q) \<and> (r = Inr () \<longrightarrow> (\<exists>md. fs w' p = Some ([], md)))"
    using c4 [THEN conjunct1] by simp
  note c5 = c4 [THEN conjunct2]
  show "os_chmod (no_os no) p m w = (r, w') \<Longrightarrow>
       (\<forall>q. q \<noteq> p \<longrightarrow> fs w' q = fs w q) \<and> (r = Inr () \<longrightarrow> fs w' p = map_option (\<lambda>(b, _). (b, m)) (fs w p))"
    using c5 [THEN conjunct1] by simp
  note c6 = c5 [THEN conjunct2]
  show "no_put no p c w = (r, w') \<Longrightarrow>
       (\<forall>q. q \<noteq> p \<longrightarrow> fs w' q = fs w q) \<and> (r = Inr () \<longrightarrow> fs w' p = map_option (\<lambda>(b, md). (b @ c, md)) (fs w p))"
    using c6 [THEN conjunct1] by simp
  note c7 = c6 [THEN conjunct2]
  show "no_sync no p w = (r, w') \<Longrightarrow> fs w' = fs w" using c7 [THEN conjunct1] by simp
  show "os_rename (no_os no) p q w = (r, w') \<Longrightarrow> fs w' = (if r = Inr () then (fs w)(p := None, q := fs w p) else fs w)"
    using c7 [THEN conjunct2] by simp
qed

lemma unit_Inr: "(r :: 'e + unit) = Inr u \<longleftrightarrow> r = Inr ()"
  by simp

text \<open>Until the rename, only the temporary file changes.\<close>

lemma save_node_token_tail:
  assumes "node_files no fs"
    and "attempt (map_err f1 (os_chmod (no_os no) t 384 w)) (\<lambda>_ w.
         attempt (map_err f2 (no_put no t token w)) (\<lambda>_ w.
         attempt (map_err f3 (no_sync no t w)) (\<lambda>_ w.
         map_err f4 (os_rename (no_os no) t p w)))) = (r, w')"
    and "\<exists>md. fs w t = Some ([], md)" and n: "p \<noteq> t"
  shows "if r = Inr () then fs w' p = Some (token, 384) else fs w' p = fs w p"
proof -
  note D = node_filesD [OF assms(1)]
  from assms(2) show ?thesis
  proof (cases rule: attempt_errE)
    case (err e)
    then show ?thesis using D(5) [OF err(1)] n by simp
  next
    case (ok u w1)
    have f1: "fs w1 p = fs w p" "fs w1 t = Some ([], 384)" using D(5) [OF ok(1)] n assms(3) by auto
    from ok(2) show ?thesis
    proof (cases rule: attempt_errE)
      case (err e)
      then show ?thesis using D(6) [OF err(1)] n f1 by simp
    next
      case (ok u w2)
      have f2: "fs w2 p = fs w p" "fs w2 t = Some (token, 384)" using D(6) [OF ok(1)] n f1 by auto
      from ok(2) show ?thesis
      proof (cases rule: attempt_errE)
        case (err e)
        then show ?thesis using D(7) [OF err(1)] f2 by simp
      next
        case (ok u w3)
        have f3: "fs w3 = fs w2" using D(7) [OF ok(1)] by simp
        obtain r1 where r1: "os_rename (no_os no) t p w3 = (r1, w')" "r = Inr () \<longleftrightarrow> r1 = Inr ()"
          using ok(2) by (cases "os_rename (no_os no) t p w3") (auto simp: map_err_def split: sum.splits)
        then show ?thesis using D(8) [OF r1(1)] f2 f3 n by auto
      qed
    qed
  qed
qed

lemma save_node_token_files:
  assumes "node_files no fs" "save_node_token no d token w = (r, w')"
  shows "if r = Inr () then fs w' (node_token_path d) = Some (token, 384)
         else fs w' (node_token_path d) = fs w (node_token_path d)"
proof -
  let ?p = "node_token_path d" and ?t = "node_token_path d @ ''.tmp''"
  have n: "?p \<noteq> ?t" by simp
  note D = node_filesD [OF assms(1)]
  from assms(2) show ?thesis
    unfolding save_node_token_def Let_def
  proof (cases rule: attempt_errE)
    case (ok u w1)
    then have "w1 = w" by simp
    from ok(2) show ?thesis
    proof (cases rule: attempt_errE)
      case (err e)
      then show ?thesis using D(3) [OF err(1)] \<open>w1 = w\<close> by simp
    next
      case (ok u w2)
      have f2: "fs w2 = fs w" using D(3) [OF ok(1)] \<open>w1 = w\<close> by simp
      from ok(2) show ?thesis
      proof (cases rule: attempt_errE)
        case (err e)
        then show ?thesis using D(4) [OF err(1)] f2 n by simp
      next
        case (ok u w3)
        have "\<exists>md. fs w3 ?t = Some ([], md)" using D(4) [OF ok(1), THEN conjunct2] by simp
        note tail = save_node_token_tail [where t = ?t and p = ?p and w = w3 and fs = fs and no = no, OF assms(1) ok(2) this n]
        have "fs w3 ?p = fs w ?p" using D(4) [OF ok(1), THEN conjunct1, rule_format, OF n] f2 by (rule trans [OF _ fun_cong])
        then show ?thesis using tail by (rule subst)
      qed
    qed
  qed simp
qed

text \<open>A system of files for witnesses: every operation succeeds.\<close>

definition file_node :: "(string \<Rightarrow> (string \<times> nat) option) nodeos" where
  "file_node
     = \<lparr>no_os = \<lparr>os_net = \<lparr>sys_cmd = (\<lambda>_ w. (True, w)), sys_nft = (\<lambda>_ _ w. (NftExit True, w)),
                 sys_read = (\<lambda>p w. map_option fst (w p)), sys_exists = (\<lambda>p w. w p \<noteq> None)\<rparr>,
        os_read = (\<lambda>p w. map_option fst (w p)), os_there = (\<lambda>p w. w p \<noteq> None), os_len = (\<lambda>p w. Inr 0),
        os_read_dir = (\<lambda>_ _. None), os_now = (\<lambda>_. 0), os_systime = (\<lambda>_. 0),
        os_write = (\<lambda>p c w. (Inr (), w(p \<mapsto> (c, 420)))),
        os_rename = (\<lambda>p q w. (Inr (), w(p := None, q := w p))),
        os_unlink = (\<lambda>p w. (Inr (), w(p := None))), os_mkdir_all = (\<lambda>_ _ w. (Inr (), w)),
        os_chmod = (\<lambda>p m w. (Inr (), w(p := map_option (\<lambda>(b, _). (b, m)) (w p)))), os_rmtree = (\<lambda>_ w. (Inr (), w)),
        os_open = (\<lambda>p t m w. (Inr (), w(p \<mapsto> ([], case w p of Some (_, md) \<Rightarrow> md | None \<Rightarrow> m)))),
        os_set_len = (\<lambda>_ _ w. (Inr (), w)), os_copy = (\<lambda>p q w. (Inr (), w(q := w p))),
        os_exec = (\<lambda>_ _ w. (Exited (Some 0) [] [] [], w)),
        os_spawn = (\<lambda>_ _ w. (Inr (Some 7), w)), os_kill = (\<lambda>_ _ w. (None, w)), os_waitpid = (\<lambda>_ w. w),
        os_sleep = (\<lambda>_ w. w), os_http = (\<lambda>_ _ _ _ w. (HttpReply 204 [], w)),
        os_connect = (\<lambda>_ w. (None, w)), os_send = (\<lambda>_ _ w. (None, w)), os_recv = (\<lambda>_ _ w. (Elapsed, w)),
        os_json = (\<lambda>t. case parse_json t of Some v \<Rightarrow> Inr v | None \<Rightarrow> Inl ''syntax''), os_show_json = print_json,
        os_debug = (\<lambda>s. s), os_visit = (\<lambda>ks. ks)\<rparr>,
        no_lstat = (\<lambda>p w. case w p of None \<Rightarrow> LMissing | Some (_, md) \<Rightarrow> LFile False md),
        no_read = (\<lambda>p w. case w p of None \<Rightarrow> Missing | Some (b, _) \<Rightarrow> Contents b),
        no_put = (\<lambda>p c w. (Inr (), w(p := map_option (\<lambda>(b, md). (b @ c, md)) (w p)))),
        no_sync = (\<lambda>_ w. (Inr (), w)), no_openable = (\<lambda>p w. if w p = None then Some ''missing'' else None),
        no_tcp = (\<lambda>_ _ w. (ReadFailed ''down'', w)), no_shape_error = (\<lambda>_. ''shape''), no_pretty = print_json,
        no_local_addr = (\<lambda>_ _. Some ''192.0.2.7''), no_listen = (\<lambda>_ w. (Inr (), w))\<rparr>"

lemma file_node_ops:
  "os_mkdir_all (no_os file_node) p m w = (Inr (), w)"
  "os_open (no_os file_node) p t m w = (Inr (), w(p \<mapsto> ([], case w p of Some (_, md) \<Rightarrow> md | None \<Rightarrow> m)))"
  "os_chmod (no_os file_node) p m w = (Inr (), w(p := map_option (\<lambda>(b, _). (b, m)) (w p)))"
  "os_rename (no_os file_node) p q w = (Inr (), w(p := None, q := w p))"
  "no_put file_node p c w = (Inr (), w(p := map_option (\<lambda>(b, md). (b @ c, md)) (w p)))"
  "no_sync file_node p w = (Inr (), w)"
  by (simp_all add: file_node_def)

lemma file_node_files: "node_files file_node (\<lambda>w. w)"
  by (auto simp: node_files_def file_node_def)

lemma load_node_token_eq:
  assumes "node_files no fs" "fs w1 (node_token_path d) = fs w (node_token_path d)"
  shows "load_node_token no d w1 = load_node_token no d w"
proof -
  let ?p = "node_token_path d"
  have l: "no_lstat no ?p w1 = no_lstat no ?p w"
    unfolding node_filesD(1) [OF assms(1)] assms(2) ..
  have t: "read_text no ?p w1 = read_text no ?p w"
    unfolding read_text_def node_filesD(2) [OF assms(1)] assms(2) ..
  show ?thesis unfolding load_node_token_def Let_def l t ..
qed

text \<open>
  C21. The credential of the node survives a restart, or stays what it was.  After saving a
  credential that has no white space at its ends: if the save succeeded, loading gives exactly
  that credential, and if it failed at any of its steps, loading gives what it gave before.
\<close>

theorem node_token_saved_or_unchanged:
  assumes "node_files no fs" "save_node_token no d token w = (r, w')"
    and "trim token = token" "valid_utf8 token"
  shows "load_node_token no d w' = (if r = Inr () then Inr (Some token) else load_node_token no d w)"
proof (cases "r = Inr ()")
  case True
  then have f: "fs w' (node_token_path d) = Some (token, 384)"
    using save_node_token_files [OF assms(1,2)] by simp
  have "validate_token token = Inr ()"
    using assms(2) True by (auto simp: save_node_token_def attempt_Inr)
  moreover have "no_lstat no (node_token_path d) w' = LFile False 384"
    using f node_filesD(1) [OF assms(1), of "node_token_path d" w'] by simp
  moreover have "read_text no (node_token_path d) w' = Contents token"
    using f node_filesD(2) [OF assms(1), of "node_token_path d" w'] assms(4) by (simp add: read_text_def)
  ultimately show ?thesis using True assms(3) by (simp add: load_node_token_def Let_def)
next
  case False
  then show ?thesis
    using save_node_token_files [OF assms(1,2)] load_node_token_eq [OF assms(1), of w' d w] by simp_all
qed

lemma fst_eqE: "fst p = a \<Longrightarrow> (\<And>b. p = (a, b) \<Longrightarrow> P) \<Longrightarrow> P"
  by (cases p) simp

theorem node_token_saved_or_unchanged_witness:
  "\<exists>w'. save_node_token file_node ''/d'' ''felucca_nt_0123456789'' Map.empty = (Inr (), w')
        \<and> load_node_token file_node ''/d'' w' = Inr (Some ''felucca_nt_0123456789'')"
proof -
  let ?t = "''felucca_nt_0123456789''"
  have t: "trim ?t = ?t" by (simp add: trim_alnum ascii_defs)
  have u: "valid_utf8 ?t" by (rule ascii_utf8) simp
  have v: "validate_token ?t = Inr ()"
    by (simp add: validate_token_def PLACEHOLDER_TOKENS_def MIN_TOKEN_LEN_def starts_with_def ascii_lower_def
        is_ascii_uppercase_def)
  have "fst (save_node_token file_node ''/d'' ?t Map.empty) = Inr ()"
    by (simp only: save_node_token_def v file_node_ops Let_def attempt_simps map_err_simps fst_conv)
  then obtain w' where s: "save_node_token file_node ''/d'' ?t Map.empty = (Inr (), w')"
    by (rule fst_eqE)
  have "load_node_token file_node ''/d'' w' = Inr (Some ?t)"
    using node_token_saved_or_unchanged [OF file_node_files s t u] by (simp only: if_True refl)
  with s show ?thesis by blast
qed

end
