(* ===== verification/Registration.thy ===== *)
theory Registration
  imports Agent_Config Vm_Manager
begin

text \<open>
  Registration and heartbeat (\<open>agent/src/registration.rs\<close>): which credential goes out, how an
  issued one is taken up, the HTTP exchange with the control plane, and the two steps of the
  background loop.  The two shared cells, the identifier of the node and its own credential, are
  fields of a state; their locks are never poisoned here.  The clock of the loop is left out:
  one round of it is \<open>heartbeat_tick\<close>.
\<close>

record 'w Node =
  nd_id :: string
  nd_token :: string
  nd_world :: 'w

subsection \<open>Credentials\<close>

definition outbound_token :: "'w Node \<Rightarrow> string \<Rightarrow> string" where
  "outbound_token nd shared = (if nd_token nd = [] then shared else nd_token nd)"

definition adopt_node_token :: "'w nodeos \<Rightarrow> string \<Rightarrow> string \<Rightarrow> ('w Node, unit) step" where
  "adopt_node_token no data_dir raw nd
     = (let issued = trim raw in
        if nd_token nd = issued then (Inr (), nd)
        else
          case validate_token issued of
            Inl e \<Rightarrow> (Inl (''feluccad issued an unusable node token: '' @ e), nd)
          | Inr _ \<Rightarrow>
              let (persisted, w) = save_node_token no data_dir issued (nd_world nd)
              in map_err (\<lambda>e. ''node token not persisted ('' @ e @ '') '' @ emdash
                              @ '' it is lost on restart; re-enroll this node'')
                   (persisted, nd\<lparr>nd_token := issued, nd_world := w\<rparr>))"

subsection \<open>The host\<close>

text \<open>\<open>str::lines\<close>: an end of line is a line feed with an optional carriage return before it.\<close>

definition strip_cr :: "string \<Rightarrow> string" where
  "strip_cr l = (case strip_suffix [CHR 0x0D] l of Some s \<Rightarrow> s | None \<Rightarrow> l)"

definition lines_of :: "string \<Rightarrow> string list" where
  "lines_of s
     = (let ls = split_on (CHR 0x0A) s;
            terminated = butlast ls
        in map strip_cr terminated @ (if last ls = [] then [] else [last ls]))"

definition text_or_empty :: "'w nodeos \<Rightarrow> string \<Rightarrow> 'w \<Rightarrow> string" where
  "text_or_empty no path w = (case read_text no path w of Contents t \<Rightarrow> t | _ \<Rightarrow> [])"

definition read_hostname :: "'w nodeos \<Rightarrow> 'w \<Rightarrow> string" where
  "read_hostname no w
     = (case read_text no ''/etc/hostname'' w of
          Contents s \<Rightarrow> (let t = trim s in if t = [] then ''unknown'' else t)
        | _ \<Rightarrow> ''unknown'')"

definition read_cpus :: "'w nodeos \<Rightarrow> 'w \<Rightarrow> u32" where
  "read_cpus no w
     = (let data = text_or_empty no ''/proc/cpuinfo'' w;
            count = of_nat (length (filter (starts_with ''processor'') (lines_of data))) :: u32
        in if count = 0 then 1 else count)"

definition read_meminfo_key :: "'w nodeos \<Rightarrow> string \<Rightarrow> 'w \<Rightarrow> u64" where
  "read_meminfo_key no key w
     = (case List.find (starts_with key) (lines_of (text_or_empty no ''/proc/meminfo'' w)) of
          None \<Rightarrow> 0
        | Some line \<Rightarrow>
            (case parse_uint (2 ^ 64)
                    (case first_word (trim (drop (length key) line)) of Some n \<Rightarrow> n | None \<Rightarrow> []) of
               Some n \<Rightarrow> of_nat n
             | None \<Rightarrow> 0))"

definition read_mem_total_mib :: "'w nodeos \<Rightarrow> 'w \<Rightarrow> u64" where
  "read_mem_total_mib no w = read_meminfo_key no ''MemTotal:'' w div 1024"

definition read_mem_available_mib :: "'w nodeos \<Rightarrow> 'w \<Rightarrow> u64" where
  "read_mem_available_mib no w = read_meminfo_key no ''MemAvailable:'' w div 1024"

subsection \<open>The HTTP exchange\<close>

record Response =
  rs_status :: u16
  rs_body :: string

text \<open>Splitting at the first occurrence of a string.\<close>

fun split_str :: "string \<Rightarrow> string \<Rightarrow> (string \<times> string) option" where
  "split_str d [] = (if d = [] then Some ([], []) else None)"
| "split_str d (c # cs)
     = (case strip_prefix d (c # cs) of
          Some r \<Rightarrow> Some ([], r)
        | None \<Rightarrow> map_option (\<lambda>(a, b). (c # a, b)) (split_str d cs))"

definition crlf :: string where
  "crlf = [CHR 0x0D, CHR 0x0A]"

definition parse_http_response :: "string \<Rightarrow> Response" where
  "parse_http_response raw
     = (let (headers_part, body) = (case split_str (crlf @ crlf) raw of Some p \<Rightarrow> p | None \<Rightarrow> (raw, []));
            status_line = (case lines_of headers_part of [] \<Rightarrow> [] | l # _ \<Rightarrow> l);
            code_str = (case split_once (CHR '' '') status_line of
                          None \<Rightarrow> ''0''
                        | Some (_, r) \<Rightarrow> (case split_once (CHR '' '') r of None \<Rightarrow> r | Some (a, _) \<Rightarrow> a))
        in \<lparr>rs_status = set_num code_str 0, rs_body = body\<rparr>)"

definition http_request :: "string \<Rightarrow> u16 \<Rightarrow> string \<Rightarrow> string \<Rightarrow> string \<Rightarrow> string \<Rightarrow> string" where
  "http_request host port mth path body token
     = (let auth_hdr = (if token \<noteq> [] then ''Authorization: Bearer '' @ token @ crlf else [])
        in mth @ '' '' @ path @ '' HTTP/1.1'' @ crlf @ ''Host: '' @ host @ '':'' @ show_nat (unat port) @ crlf
           @ auth_hdr @ ''Connection: close'' @ crlf @ ''Content-Type: application/json'' @ crlf
           @ ''Content-Length: '' @ show_nat (length body) @ crlf @ crlf @ body)"

definition tcp_request ::
    "'w nodeos \<Rightarrow> string \<Rightarrow> u16 \<Rightarrow> string \<Rightarrow> string \<Rightarrow> string \<Rightarrow> string \<Rightarrow> ('w, Response) step" where
  "tcp_request no host port mth path body token w
     = (let addr = host @ '':'' @ show_nat (unat port);
            (r, w1) = no_tcp no addr (http_request host port mth path body token) w
        in (case r of
              ConnectFailed e \<Rightarrow> Inl (''connect '' @ addr @ '': '' @ e)
            | WriteFailed e \<Rightarrow> Inl (''write: '' @ e)
            | FlushFailed e \<Rightarrow> Inl (''flush: '' @ e)
            | ReadFailed e \<Rightarrow> Inl (''read: '' @ e)
            | Received buf \<Rightarrow> Inr (parse_http_response (from_utf8_lossy buf)), w1))"

definition detect_advertise_addr :: "'w nodeos \<Rightarrow> string \<Rightarrow> 'w \<Rightarrow> string option" where
  "detect_advertise_addr no control_plane w
     = (let (host, port) = split_host_port control_plane
        in no_local_addr no (host @ '':'' @ show_nat (unat port)) w)"

subsection \<open>JSON by hand\<close>

definition reg_escape :: "char \<Rightarrow> string" where
  "reg_escape c
     = (if c = CHR 0x22 then [CHR 0x5C, CHR 0x22]
        else if c = CHR 0x5C then [CHR 0x5C, CHR 0x5C]
        else if byte c < 0x20 then [CHR 0x5C, CHR ''u'', CHR ''0'', CHR ''0''] @ hex2 (byte c)
        else [c])"

definition reg_json_str :: "string \<Rightarrow> string" where
  "reg_json_str s = [CHR 0x22] @ concat (map reg_escape s) @ [CHR 0x22]"

fun extract_value :: "string \<Rightarrow> bool \<Rightarrow> string \<Rightarrow> string" where
  "extract_value val escaped [] = val"
| "extract_value val escaped (c # cs)
     = (if escaped then extract_value (val @ [c]) False cs
        else if c = CHR 0x5C then extract_value val True cs
        else if c = CHR 0x22 then val
        else extract_value (val @ [c]) False cs)"

definition extract_json_str :: "string \<Rightarrow> string \<Rightarrow> string option" where
  "extract_json_str json key
     = (case split_str ([CHR 0x22] @ key @ [CHR 0x22, CHR '':'']) json of
          None \<Rightarrow> None
        | Some (_, after) \<Rightarrow>
            (case trim_start after of
               c # rest \<Rightarrow> if c = CHR 0x22 then Some (extract_value [] False rest) else None
             | [] \<Rightarrow> None))"

subsection \<open>Registering\<close>

definition register_body :: "string \<Rightarrow> string \<Rightarrow> u32 \<Rightarrow> u64 \<Rightarrow> string" where
  "register_body hostname addr cpus mem_total
     = ''{'' @ jkey ''hostname'' @ reg_json_str hostname @ '','' @ jkey ''addr'' @ reg_json_str addr @ '',''
       @ jkey ''cpus'' @ show_nat (unat cpus) @ '','' @ jkey ''mem_total_mib'' @ show_nat (unat mem_total) @ ''}''"

definition register_once ::
    "'w nodeos \<Rightarrow> string \<Rightarrow> string \<Rightarrow> u16 \<Rightarrow> string \<Rightarrow> string \<Rightarrow> ('w Node, unit) step" where
  "register_once no control_plane advertise_addr port shared data_dir nd
     = (let w = nd_world nd;
            addr = advertise_addr @ '':'' @ show_nat (unat port);
            body = register_body (read_hostname no w) addr (read_cpus no w) (read_mem_total_mib no w);
            (host, cp_port) = split_host_port control_plane;
            (r, w1) = tcp_request no host cp_port ''POST'' ''/api/v1/agents/register'' body (outbound_token nd shared) w;
            nd1 = nd\<lparr>nd_world := w1\<rparr>
        in case r of
             Inl e \<Rightarrow> (Inl (''register request failed: '' @ e), nd1)
           | Inr resp \<Rightarrow>
               if 300 \<le> rs_status resp then (Inl (''register rejected: '' @ show_nat (unat (rs_status resp))), nd1)
               else
                 let nd2 = (case extract_json_str (rs_body resp) ''agent_token'' of
                              Some issued \<Rightarrow>
                                if trim issued \<noteq> [] then snd (adopt_node_token no data_dir issued nd1) else nd1
                            | None \<Rightarrow> nd1)
                 in case extract_json_str (rs_body resp) ''id'' of
                      None \<Rightarrow> (Inl ''no id in register response'', nd2)
                    | Some i \<Rightarrow> (Inr (), nd2\<lparr>nd_id := i\<rparr>))"

text \<open>
  \<open>register_with_retry\<close> goes on until the control plane accepts; the number of attempts is a
  parameter, and the result says whether one of them was accepted.
\<close>

fun register_with_retry ::
    "'w nodeos \<Rightarrow> nat \<Rightarrow> string \<Rightarrow> string \<Rightarrow> u16 \<Rightarrow> string \<Rightarrow> string \<Rightarrow> 'w Node \<Rightarrow> bool \<times> 'w Node" where
  "register_with_retry no 0 control_plane advertise_addr port shared data_dir nd = (False, nd)"
| "register_with_retry no (Suc n) control_plane advertise_addr port shared data_dir nd
     = (case register_once no control_plane advertise_addr port shared data_dir nd of
          (Inr _, nd1) \<Rightarrow> (True, nd1)
        | (Inl _, nd1) \<Rightarrow>
            register_with_retry no n control_plane advertise_addr port shared data_dir
              (nd1\<lparr>nd_world := os_sleep (no_os no) 5000 (nd_world nd1)\<rparr>))"

subsection \<open>Heartbeat\<close>

datatype HeartbeatError = Unregistered | Failed string

definition heartbeat_outcome :: "u16 \<Rightarrow> HeartbeatError + unit" where
  "heartbeat_outcome status
     = (if status = 404 then Inl Unregistered
        else if 300 \<le> status then Inl (Failed (''heartbeat rejected: '' @ show_nat (unat status)))
        else Inr ())"

definition heartbeat_body :: "string \<Rightarrow> u64 \<Rightarrow> u32 \<Rightarrow> u32 \<Rightarrow> bool \<Rightarrow> string" where
  "heartbeat_body i mem_free vm_count pool_size isolation
     = ''{'' @ jkey ''id'' @ reg_json_str i @ '','' @ jkey ''mem_free_mib'' @ show_nat (unat mem_free) @ '',''
       @ jkey ''vm_count'' @ show_nat (unat vm_count) @ '','' @ jkey ''pool_size'' @ show_nat (unat pool_size) @ '',''
       @ jkey ''isolation_ok'' @ show_bool isolation @ ''}''"

definition heartbeat_once ::
    "'w nodeos \<Rightarrow> 'm Manager \<Rightarrow> string \<Rightarrow> string \<Rightarrow> 'w Node \<Rightarrow> (HeartbeatError + unit) \<times> 'w Node" where
  "heartbeat_once no mg control_plane shared nd
     = (if nd_id nd = [] then (Inl Unregistered, nd)
        else
          let w = nd_world nd;
              body = heartbeat_body (nd_id nd) (read_mem_available_mib no w) (live_count (mg_vms mg))
                       (pool_count (mg_vms mg)) (isolation_ok mg);
              (host, port) = split_host_port control_plane;
              (r, w1) = tcp_request no host port ''POST'' ''/api/v1/agents/heartbeat'' body (outbound_token nd shared) w;
              nd1 = nd\<lparr>nd_world := w1\<rparr>
          in case r of
               Inl e \<Rightarrow> (Inl (Failed (''heartbeat request: '' @ e)), nd1)
             | Inr resp \<Rightarrow> (heartbeat_outcome (rs_status resp), nd1))"

text \<open>One round of the loop: an unknown node enrols again, every other failure waits for the next round.\<close>

definition heartbeat_tick ::
    "'w nodeos \<Rightarrow> nat \<Rightarrow> 'm Manager \<Rightarrow> string \<Rightarrow> string \<Rightarrow> u16 \<Rightarrow> string \<Rightarrow> string \<Rightarrow> 'w Node \<Rightarrow> bool \<times> 'w Node" where
  "heartbeat_tick no n mg control_plane advertise_addr port shared data_dir nd
     = (let (r, nd1) = heartbeat_once no mg control_plane shared nd
        in if r = Inl Unregistered
           then register_with_retry no n control_plane advertise_addr port shared data_dir (nd1\<lparr>nd_id := []\<rparr>)
           else (True, nd1))"

subsection \<open>Properties\<close>

lemma validate_token_nonempty: "validate_token t = Inr () \<Longrightarrow> t \<noteq> []"
  by (auto simp: validate_token_def)

lemma adopt_node_token_kept: "nd_token nd \<noteq> [] \<Longrightarrow> nd_token (snd (adopt_node_token no d issued nd)) \<noteq> []"
  using validate_token_nonempty [of "trim issued"]
  by (auto simp: adopt_node_token_def Let_def case_prod_beta map_err_def split: sum.splits)

lemma outbound_enrolled: "nd_token nd \<noteq> [] \<Longrightarrow> outbound_token nd shared = nd_token nd"
  by (simp add: outbound_token_def)

lemma register_once_enrolled:
  assumes "nd_token nd \<noteq> []"
  shows "register_once no cp aa port shared d nd = register_once no cp aa port shared' d nd"
    "nd_token (snd (register_once no cp aa port shared d nd)) \<noteq> []"
  unfolding register_once_def Let_def case_prod_beta outbound_enrolled [OF assms]
  using assms by (auto simp: adopt_node_token_kept split: sum.splits option.splits)

lemma register_with_retry_enrolled:
  "nd_token nd \<noteq> [] \<Longrightarrow>
     register_with_retry no n cp aa port shared d nd = register_with_retry no n cp aa port shared' d nd
     \<and> nd_token (snd (register_with_retry no n cp aa port shared d nd)) \<noteq> []"
proof (induction n arbitrary: nd)
  case (Suc n)
  obtain r nd1 where r: "register_once no cp aa port shared' d nd = (r, nd1)" by (rule prod.exhaust)
  have eq: "register_once no cp aa port shared d nd = (r, nd1)"
    using register_once_enrolled(1) [OF Suc.prems, of no cp aa port shared d shared'] r by simp
  have t: "nd_token nd1 \<noteq> []" using register_once_enrolled(2) [OF Suc.prems, of no cp aa port shared' d] r by simp
  show ?case
    using Suc.IH [of "nd1\<lparr>nd_world := os_sleep (no_os no) 5000 (nd_world nd1)\<rparr>"] t by (cases r) (auto simp: r eq)
qed simp

text \<open>
  C20. A node that has its own credential never shows the one it shares with the fleet.  Once the
  credential of the node is not empty, a round of the background loop does the same whatever
  the shared token is: every request it sends, its result and the state after it do not depend
  on the shared token.  The node keeps a credential of its own, also when the control plane
  answers with an error, forgets the node or issues an unusable credential.
\<close>

theorem shared_token_withheld:
  assumes "nd_token nd \<noteq> []"
  shows "heartbeat_tick no n mg cp aa port shared d nd = heartbeat_tick no n mg cp aa port shared' d nd
         \<and> nd_token (snd (heartbeat_tick no n mg cp aa port shared d nd)) \<noteq> []"
proof -
  obtain r nd1 where h: "heartbeat_once no mg cp shared' nd = (r, nd1)" by (rule prod.exhaust)
  have eq: "heartbeat_once no mg cp shared nd = (r, nd1)"
    using h unfolding heartbeat_once_def outbound_enrolled [OF assms] .
  have t: "nd_token nd1 = nd_token nd"
    using h by (auto simp: heartbeat_once_def Let_def case_prod_beta split: if_splits sum.splits)
  show ?thesis
    unfolding heartbeat_tick_def eq h Let_def prod.case
    using register_with_retry_enrolled [of "nd1\<lparr>nd_id := []\<rparr>" no n cp aa port shared d shared'] t assms by auto
qed

definition off_manager :: "unit Manager" where
  "off_manager = manager_new ''/d'' False \<lparr>cidr_base = 0x0AE70000, cidr_prefix = 24\<rparr> 0 ''http://cp:8080'' ''s''
     \<lparr>h_world = (), h_guest_cidr = None, h_isolation_ok = False, h_filter_ok = False, h_agent_port = 0\<rparr>"

theorem shared_token_withheld_witness:
  "let nd = \<lparr>nd_id = ''n1'', nd_token = ''felucca_nt_0123456789'', nd_world = Map.empty\<rparr>
   in heartbeat_tick file_node 1 off_manager ''http://cp:8080'' ''10.0.0.2'' 9090 ''fleet-secret-one'' ''/d'' nd
      = heartbeat_tick file_node 1 off_manager ''http://cp:8080'' ''10.0.0.2'' 9090 ''fleet-secret-two'' ''/d'' nd"
  unfolding Let_def by (rule shared_token_withheld [THEN conjunct1]) simp

lemma extract_value_plain:
  "list_all (\<lambda>c. \<not> byte c < 0x20) s \<Longrightarrow>
     extract_value val False (concat (map json_escape_char s) @ CHR 0x22 # r) = val @ s"
proof (induction s arbitrary: val)
  case (Cons c s)
  have e: "json_escape_char c = (if c = CHR 0x22 then [CHR 0x5C, CHR 0x22] else if c = CHR 0x5C then [CHR 0x5C, CHR 0x5C] else [c])"
    using Cons.prems by (auto simp: json_escape_char_def)
  show ?case using Cons by (simp add: e)
qed simp

lemma trim_start_quote: "trim_start (CHR 0x22 # s) = CHR 0x22 # s"
proof -
  have "strip_prefix w (CHR 0x22 # s) = None" if "w \<in> set whitespace" for w
  proof -
    have "list_all (\<lambda>w. w \<noteq> [] \<and> hd w \<noteq> CHR 0x22) whitespace" by code_simp
    then have "w \<noteq> []" "hd w \<noteq> CHR 0x22" using that by (auto simp: list_all_iff)
    then show ?thesis by (cases w) simp_all
  qed
  then have "List.map_filter (\<lambda>w. strip_prefix w (CHR 0x22 # s)) whitespace = []"
    by (simp add: List.map_filter_def)
  then show ?thesis by (simp add: trim_start_def)
qed

text \<open>
  The identifier in the answer to a registration is read back as it was written: for an
  object that starts with the field, whatever follows, the lenient reader returns the value
  that a JSON printer put there, if that has no control characters.
\<close>

theorem register_id_read_back:
  assumes "list_all (\<lambda>c. \<not> byte c < 0x20) i"
  shows "extract_json_str (''{'' @ jkey ''id'' @ json_str i @ r) ''id'' = Some i"
proof -
  have "strip_prefix [CHR 0x22, CHR ''i'', CHR ''d'', CHR 0x22, CHR '':''] (jkey ''id'' @ s) = Some s" for s
    by (simp add: jkey_def)
  then have "split_str ([CHR 0x22] @ ''id'' @ [CHR 0x22, CHR '':'']) (''{'' @ jkey ''id'' @ json_str i @ r)
      = Some (''{'', json_str i @ r)"
    by (simp add: jkey_def)
  moreover have "trim_start (json_str i @ r) = CHR 0x22 # concat (map json_escape_char i) @ CHR 0x22 # r"
    by (simp add: json_str_def trim_start_quote)
  ultimately show ?thesis using extract_value_plain [OF assms, of "[]" r] by (simp add: extract_json_str_def)
qed



end
