(* ===== verification/Wg.thy ===== *)
theory Wg
  imports Registration
begin

text \<open>
  The overlay (\<open>agent/src/wg.rs\<close>): the key pair on disk, the one-shot enrolment over either of its
  two transports, the checks on what the hub granted, the tunnel interface, and the persisted
  grant.  \<open>wg\<close>, \<open>ip\<close> and \<open>curl\<close> are commands of the system.
\<close>

definition WG_IFACE :: string where
  "WG_IFACE = ''wg-felucca''"

record JoinInfo =
  overlay_ip :: string
  overlay_prefix :: u8
  server_overlay_ip :: string
  server_pubkey :: string
  server_endpoint :: string
  keepalive_s :: u32
  api_port :: u16
  agent_token :: string

definition default_api_port :: nat where
  "default_api_port = 8080"

definition JOIN_KEYS :: "string list" where
  "JOIN_KEYS = [''overlay_ip'', ''overlay_prefix'', ''server_overlay_ip'', ''server_pubkey'', ''server_endpoint'',
                ''keepalive_s'', ''api_port'', ''agent_token'']"

definition de_join_info :: "json \<Rightarrow> JoinInfo option" where
  "de_join_info v
     = (case v of
          JObj kvs \<Rightarrow>
            if \<not> fields_once JOIN_KEYS kvs then None
            else do {
              ip \<leftarrow> de_req de_str (jfield kvs ''overlay_ip'');
              pfx \<leftarrow> de_req (de_uint 8) (jfield kvs ''overlay_prefix'');
              sip \<leftarrow> de_req de_str (jfield kvs ''server_overlay_ip'');
              pk \<leftarrow> de_req de_str (jfield kvs ''server_pubkey'');
              ep \<leftarrow> de_req de_str (jfield kvs ''server_endpoint'');
              ka \<leftarrow> de_req (de_uint 32) (jfield kvs ''keepalive_s'');
              port \<leftarrow> de_default default_api_port (de_uint 16) (jfield kvs ''api_port'');
              tok \<leftarrow> de_default [] de_str (jfield kvs ''agent_token'');
              Some \<lparr>overlay_ip = ip, overlay_prefix = word_of_nat pfx, server_overlay_ip = sip, server_pubkey = pk,
                    server_endpoint = ep, keepalive_s = word_of_nat ka, api_port = word_of_nat port, agent_token = tok\<rparr>
            }
        | _ \<Rightarrow> None)"

text \<open>\<open>agent_token\<close> is skipped when the grant is serialised.\<close>

definition join_info_json :: "JoinInfo \<Rightarrow> json" where
  "join_info_json info
     = JObj [(''overlay_ip'', JStr (overlay_ip info)), (''overlay_prefix'', jword (overlay_prefix info)),
             (''server_overlay_ip'', JStr (server_overlay_ip info)), (''server_pubkey'', JStr (server_pubkey info)),
             (''server_endpoint'', JStr (server_endpoint info)), (''keepalive_s'', jword (keepalive_s info)),
             (''api_port'', jword (api_port info))]"

subsection \<open>Keys\<close>

text \<open>\<open>Path::parent\<close> of a path that ends in an ordinary name.\<close>

fun trim_tail :: "string \<Rightarrow> string" where
  "trim_tail (c # d # cs)
     = (if c = CHR ''/'' then trim_tail (d # cs)
        else if c = CHR ''.'' \<and> d = CHR ''/'' then trim_tail (d # cs)
        else c # d # cs)"
| "trim_tail cs = (if cs = ''/'' then [] else cs)"

definition parent_dir :: "string \<Rightarrow> string" where
  "parent_dir path
     = (case rsplit_once (CHR ''/'') path of
          None \<Rightarrow> []
        | Some (d, _) \<Rightarrow> let r = rev (trim_tail (rev d)) in if r = [] then ''/'' else r)"

definition generate_key :: "'w nodeos \<Rightarrow> string \<Rightarrow> ('w, string) step" where
  "generate_key no path w
     = (case os_exec (no_os no) [''wg'', ''genkey''] [] w of
          (Exited c st out err, w) \<Rightarrow>
            if \<not> success (Exited c st out err) then (Inl ''wg genkey failed'', w)
            else
              let key = trim (from_utf8_lossy out) in
              if key = [] then (Inl ''wg genkey produced no output'', w)
              else
                let dir = parent_dir path in
                attempt (map_err (\<lambda>e. ''create '' @ dir @ '': '' @ e) (os_mkdir_all (no_os no) dir 511 w)) (\<lambda>_ w.
                attempt (map_err (\<lambda>e. ''open '' @ path @ '': '' @ e) (os_open (no_os no) path True 384 w)) (\<lambda>_ w.
                attempt (map_err (\<lambda>e. ''write '' @ path @ '': '' @ e) (no_put no path key w)) (\<lambda>_ w.
                (Inr key, w))))
        | (NoSpawn e, w) \<Rightarrow> (Inl (''wg genkey: '' @ e), w)
        | (NoInput e, w) \<Rightarrow> (Inl (''wg genkey: '' @ e), w)
        | (NoWait e, w) \<Rightarrow> (Inl (''wg genkey: '' @ e), w))"

definition derive_pubkey :: "'w nodeos \<Rightarrow> string \<Rightarrow> ('w, string) step" where
  "derive_pubkey no private w
     = (case os_exec (no_os no) [''wg'', ''pubkey''] private w of
          (NoSpawn e, w) \<Rightarrow> (Inl (''wg pubkey: '' @ e), w)
        | (NoInput e, w) \<Rightarrow> (Inl (''wg pubkey stdin: '' @ e), w)
        | (NoWait e, w) \<Rightarrow> (Inl (''wg pubkey: '' @ e), w)
        | (Exited c st out err, w) \<Rightarrow>
            if \<not> success (Exited c st out err) then (Inl ''wg pubkey failed (corrupt private key?)'', w)
            else
              let pk = trim (from_utf8_lossy out) in
              if pk = [] then (Inl ''wg pubkey produced no output'', w) else (Inr pk, w))"

definition ensure_key :: "'w nodeos \<Rightarrow> string \<Rightarrow> ('w, string) step" where
  "ensure_key no path w
     = attempt
         (case read_text no path w of
            Contents s \<Rightarrow> if trim s = [] then (Inl (path @ '': existing key file is empty''), w) else (Inr (trim s), w)
          | Missing \<Rightarrow> generate_key no path w
          | Unreadable e \<Rightarrow> (Inl (path @ '': read: '' @ e), w))
         (\<lambda>private w. derive_pubkey no private w)"

subsection \<open>Checks on the grant\<close>

definition valid_pubkey :: "string \<Rightarrow> bool" where
  "valid_pubkey k
     = (length k = 44 \<and> strip_suffix ''='' k \<noteq> None
        \<and> list_all (\<lambda>b. is_ascii_alphanumeric b \<or> b = CHR ''+'' \<or> b = CHR ''/'') (take 43 k))"

definition endpoint_char :: "char \<Rightarrow> bool" where
  "endpoint_char b = (is_ascii_alphanumeric b \<or> b \<in> {CHR ''.'', CHR '':'', CHR ''-'', CHR ''['', CHR '']''})"

definition valid_endpoint :: "string \<Rightarrow> bool" where
  "valid_endpoint ep
     = (case rsplit_once (CHR '':'') ep of
          None \<Rightarrow> False
        | Some (host, port) \<Rightarrow>
            if host = [] \<or> parse_uint 65536 port = None then False else list_all endpoint_char host)"

definition validate_join_info :: "JoinInfo \<Rightarrow> string + unit" where
  "validate_join_info info
     = (if ipv4_from_str (overlay_ip info) = None then Inl (''bad overlay_ip: '' @ overlay_ip info)
        else if ipv4_from_str (server_overlay_ip info) = None
        then Inl (''bad server_overlay_ip: '' @ server_overlay_ip info)
        else if \<not> (1 \<le> overlay_prefix info \<and> overlay_prefix info \<le> 32)
        then Inl (''bad overlay_prefix: '' @ show_nat (unat (overlay_prefix info)))
        else if \<not> valid_pubkey (server_pubkey info) then Inl (''bad server_pubkey: '' @ server_pubkey info)
        else if \<not> valid_endpoint (server_endpoint info) then Inl (''bad server_endpoint: '' @ server_endpoint info)
        else if 65535 < keepalive_s info then Inl (''bad keepalive_s: '' @ show_nat (unat (keepalive_s info)))
        else Inr ())"

subsection \<open>Enrolment\<close>

definition https_api_port :: "string \<Rightarrow> u16" where
  "https_api_port join_url
     = (let a = until_slash (case strip_prefix ''https://'' join_url of Some r \<Rightarrow> r | None \<Rightarrow> join_url)
        in case rsplit_once (CHR '':'') a of Some (_, p) \<Rightarrow> set_num p 443 | None \<Rightarrow> 443)"

definition build_curl_config :: "string \<Rightarrow> string \<Rightarrow> string \<Rightarrow> string" where
  "build_curl_config join_url token body
     = (let url = trim_end_matches (CHR ''/'') join_url @ ''/api/v1/nodes/join''
        in config_line ''url'' (curl_config_escape url)
           @ config_line ''request'' ''POST''
           @ config_line ''header'' (''Authorization: Bearer '' @ curl_config_escape token)
           @ config_line ''header'' ''Content-Type: application/json''
           @ config_line ''data'' (curl_config_escape body)
           @ config_line ''write-out'' ([CHR 0x5C] @ ''n%{http_code}'')
           @ ''max-time = 30'' @ [CHR 0x0A])"

definition curl_join :: "'w nodeos \<Rightarrow> string \<Rightarrow> string \<Rightarrow> string \<Rightarrow> ('w, u16 \<times> string) step" where
  "curl_join no join_url token body w
     = (case os_exec (no_os no) [''curl'', ''-sS'', ''--config'', ''-''] (build_curl_config join_url token body) w of
          (NoSpawn e, w) \<Rightarrow> (Inl (''curl spawn: '' @ e), w)
        | (NoInput e, w) \<Rightarrow> (Inl (''curl stdin: '' @ e), w)
        | (NoWait e, w) \<Rightarrow> (Inl (''curl: '' @ e), w)
        | (Exited c st out err, w) \<Rightarrow>
            if \<not> success (Exited c st out err)
            then (Inl (''curl join failed ('' @ st @ ''): '' @ trim (from_utf8_lossy err)), w)
            else
              let stdout = from_utf8_lossy out in
              (case rsplit_once (CHR 0x0A) stdout of
                 None \<Rightarrow> (Inl (''curl join: malformed output: '' @ trim stdout), w)
               | Some (resp, code_text) \<Rightarrow>
                   (case parse_uint 65536 (trim code_text) of
                      None \<Rightarrow> (Inl (''curl join: bad http code '' @ os_debug (no_os no) (trim code_text)), w)
                    | Some n \<Rightarrow> (Inr (word_of_nat n, resp), w))))"

text \<open>A map of \<open>serde_json\<close> prints its keys in order.\<close>

definition join_body :: "'w nodeos \<Rightarrow> string \<Rightarrow> string \<Rightarrow> string" where
  "join_body no pubkey hostname
     = os_show_json (no_os no) (JObj [(''hostname'', JStr hostname), (''pubkey'', JStr pubkey)])"

definition join :: "'w nodeos \<Rightarrow> string \<Rightarrow> string \<Rightarrow> string \<Rightarrow> string \<Rightarrow> ('w, JoinInfo) step" where
  "join no join_url token pubkey hostname w
     = (let body = join_body no pubkey hostname in
        attempt
          (if starts_with ''https://'' join_url then
             attempt (curl_join no join_url token body w) (\<lambda>(status, resp_body) w.
             (Inr (status, resp_body, https_api_port join_url), w))
           else if starts_with ''http://'' join_url then
             let (host, port) = split_host_port join_url in
             attempt (map_err (\<lambda>e. ''join request failed: '' @ e)
                        (tcp_request no host port ''POST'' ''/api/v1/nodes/join'' body token w)) (\<lambda>resp w.
             (Inr (rs_status resp, rs_body resp, port), w))
           else (Inl (''join_url must start with http:// or https://: '' @ join_url), w))
          (\<lambda>(status, resp_body, port) w.
             if status \<noteq> 200
             then (Inl (''join rejected: status '' @ show_nat (unat status) @ '' body '' @ trim resp_body), w)
             else
               case os_json (no_os no) resp_body of
                 Inl e \<Rightarrow> (Inl (''join response parse: '' @ e), w)
               | Inr v \<Rightarrow>
                   (case de_join_info v of
                      None \<Rightarrow> (Inl (''join response parse: '' @ no_shape_error no resp_body), w)
                    | Some info \<Rightarrow>
                        let info = info\<lparr>api_port := port\<rparr> in
                        attempt (validate_join_info info, w) (\<lambda>_ w. (Inr info, w)))))"

subsection \<open>The interface\<close>

definition allowed_ips :: "JoinInfo \<Rightarrow> string" where
  "allowed_ips info
     = (let ip = (case ipv4_from_str (server_overlay_ip info) of Some a \<Rightarrow> a | None \<Rightarrow> 0);
            prefix = min (overlay_prefix info) 32;
            msk = (if prefix = 0 then 0 else shl32 (NOT 0) (32 - ucast prefix))
        in fmt_ip (ip AND msk) @ ''/'' @ show_nat (unat prefix))"

definition wg_set_command :: "JoinInfo \<Rightarrow> string \<Rightarrow> string list" where
  "wg_set_command info key_file
     = [''wg'', ''set'', WG_IFACE, ''private-key'', key_file, ''peer'', server_pubkey info,
        ''endpoint'', server_endpoint info, ''allowed-ips'', allowed_ips info,
        ''persistent-keepalive'', show_nat (unat (keepalive_s info))]"

definition ensure_interface :: "'w nodeos \<Rightarrow> JoinInfo \<Rightarrow> string \<Rightarrow> ('w host, unit) step" where
  "ensure_interface no info key_file st
     = (let sys = os_net (no_os no) in
        case no_openable no key_file (h_world st) of
          Some e \<Rightarrow>
            (Inl (''wg key '' @ key_file @ '' unreadable: '' @ e @ '' '' @ emdash
                  @ '' fix the file'' @ [CHR 0x27] @ ''s owner/permissions''), st)
        | None \<Rightarrow>
            let st = snd (run sys [''ip'', ''link'', ''add'', WG_IFACE, ''type'', ''wireguard''] st);
                (ok, st) = run sys (wg_set_command info key_file) st in
            if \<not> ok then
              (Inl (''wg set '' @ WG_IFACE @ '' failed (missing wireguard kernel module / interface not created / sudo -n denied?)''), st)
            else
              let addr = overlay_ip info @ ''/'' @ show_nat (unat (overlay_prefix info));
                  (ok, st) = run sys [''ip'', ''addr'', ''replace'', addr, ''dev'', WG_IFACE] st in
              if \<not> ok then (Inl (''ip addr replace '' @ addr @ '' on '' @ WG_IFACE @ '' failed''), st)
              else
                let (ok, st) = run sys [''ip'', ''link'', ''set'', WG_IFACE, ''up''] st in
                if \<not> ok then (Inl (''ip link set '' @ WG_IFACE @ '' up failed''), st) else (Inr (), st))"

subsection \<open>The persisted grant\<close>

definition state_path :: "string \<Rightarrow> string" where
  "state_path data_dir = data_dir @ ''/wg.json''"

definition key_path :: "string \<Rightarrow> string" where
  "key_path data_dir = data_dir @ ''/wg.key''"

definition save_state :: "'w nodeos \<Rightarrow> string \<Rightarrow> JoinInfo \<Rightarrow> ('w, unit) step" where
  "save_state no data_dir info w
     = attempt (map_err (\<lambda>e. ''create '' @ data_dir @ '': '' @ e) (os_mkdir_all (no_os no) data_dir 511 w)) (\<lambda>_ w.
       let json = no_pretty no (join_info_json info);
           path = state_path data_dir; tmp = path @ ''.tmp'' in
       attempt (map_err (\<lambda>e. ''open '' @ tmp @ '': '' @ e) (os_open (no_os no) tmp True 384 w)) (\<lambda>_ w.
       attempt (map_err (\<lambda>e. ''write '' @ tmp @ '': '' @ e) (no_put no tmp json w)) (\<lambda>_ w.
       map_err (\<lambda>e. ''rename '' @ path @ '': '' @ e) (os_rename (no_os no) tmp path w))))"

definition load_state :: "'w nodeos \<Rightarrow> string \<Rightarrow> 'w \<Rightarrow> string + JoinInfo option" where
  "load_state no data_dir w
     = (let path = state_path data_dir;
            corrupt = (\<lambda>e. path @ '': corrupt wg state ('' @ e @ ''); refusing to start un-enrolled '' @ emdash
                            @ '' restore the file, or delete it and re-join with a fresh token (the hub re-issues the ''
                            @ ''same overlay IP for an unchanged key)'')
        in case read_text no path w of
             Missing \<Rightarrow> Inr None
           | Unreadable e \<Rightarrow>
               Inl (path @ '': unreadable wg state ('' @ e @ ''); refusing to guess enrollment status '' @ emdash
                    @ '' fix the file'' @ [CHR 0x27] @ ''s owner/permissions (or restore it from backup)'')
           | Contents data \<Rightarrow>
               (case os_json (no_os no) data of
                  Inl e \<Rightarrow> Inl (corrupt e)
                | Inr v \<Rightarrow>
                    (case de_join_info v of
                       None \<Rightarrow> Inl (corrupt (no_shape_error no data))
                     | Some info \<Rightarrow> Inr (Some info))))"

subsection \<open>The network behind the hub\<close>

lemma prefix_cidr:
  assumes "1 \<le> pfx" "pfx \<le> (32 :: u8)"
  shows "Cidr_parse (fmt_ip a @ ''/'' @ show_nat (unat pfx)) = Some \<lparr>cidr_base = a, cidr_prefix = pfx\<rparr>"
proof -
  have n: "unat pfx \<le> 32" using assms(2) by (simp add: word_le_nat_alt)
  have "split_once (CHR ''/'') (fmt_ip a @ ''/'' @ show_nat (unat pfx)) = Some (fmt_ip a, show_nat (unat pfx))"
    using split_once_append [of "CHR ''/''" "fmt_ip a" "show_nat (unat pfx)"] by simp
  then show ?thesis using n by (simp add: Cidr_parse_def parse_fmt_ip)
qed

lemma validate_join_infoD:
  assumes "validate_join_info info = Inr ()"
  obtains a h where "ipv4_from_str (overlay_ip info) = Some a" "ipv4_from_str (server_overlay_ip info) = Some h"
    "1 \<le> overlay_prefix info" "overlay_prefix info \<le> 32" "valid_pubkey (server_pubkey info)"
    "valid_endpoint (server_endpoint info)" "keepalive_s info \<le> 65535"
  using assms by (auto simp: validate_join_info_def split: if_splits)

lemma allowed_ips_cidr:
  assumes "validate_join_info info = Inr ()" "ipv4_from_str (server_overlay_ip info) = Some hub"
  defines "c \<equiv> \<lparr>cidr_base = hub, cidr_prefix = overlay_prefix info\<rparr>"
  shows "allowed_ips info = fmt_ip (net_base c) @ ''/'' @ show_nat (unat (overlay_prefix info))"
proof -
  have "overlay_prefix info \<le> 32" "overlay_prefix info \<noteq> 0"
    using assms(1) by (auto elim!: validate_join_infoD)
  then show ?thesis
    using assms(2) by (simp add: allowed_ips_def c_def net_base_def cidr_mask_def min_def Let_def)
qed

subsection \<open>Plain words\<close>

definition word_char :: "char \<Rightarrow> bool" where
  "word_char c = (is_ascii_alphanumeric c \<or> c \<in> set ''.:/+=[]-'')"

definition plain_word :: "string \<Rightarrow> bool" where
  "plain_word s = (s \<noteq> [] \<and> list_all word_char s)"

lemma parse_digits_chars: "parse_digits a s = Some n \<Longrightarrow> list_all is_ascii_digit s"
  by (induction a s rule: parse_digits.induct) (auto split: if_splits)

lemma digits_word: "list_all is_ascii_digit s \<Longrightarrow> list_all word_char s"
  by (auto simp: list_all_iff word_char_def is_ascii_alphanumeric_def)

lemma parse_uint_word:
  assumes "parse_uint b s = Some n"
  shows "plain_word s"
proof -
  define ds where "ds = (case s of [] \<Rightarrow> [] | c # cs \<Rightarrow> if c = CHR ''+'' then cs else s)"
  obtain m where "ds \<noteq> []" "parse_digits 0 ds = Some m"
    using assms by (auto simp: parse_uint_def ds_def [symmetric] Let_def split: if_splits option.splits)
  then have "ds \<noteq> []" "list_all word_char ds" using digits_word [OF parse_digits_chars] by auto
  then show ?thesis
    by (cases s) (auto simp: ds_def plain_word_def word_char_def split: if_splits)
qed

lemma show_nat_word: "plain_word (show_nat n)"
  using parse_uint_word [of "Suc n" "show_nat n" n] by simp

lemma ipv4_octet_word: "ipv4_octet w = Some n \<Longrightarrow> list_all word_char w"
  using parse_digits_chars [of 0 w] digits_word [of w]
  by (auto simp: ipv4_octet_def split: if_splits option.splits)

lemma ipv4_word:
  assumes "ipv4_from_str s = Some a"
  shows "plain_word s"
proof -
  obtain p q r t where "map ipv4_octet (split_on (CHR ''.'') s) = [Some p, Some q, Some r, Some t]"
    using assms by (auto simp: ipv4_from_str_def split: list.splits option.splits)
  then have w: "list_all word_char x" if "x \<in> set (split_on (CHR ''.'') s)" for x
    using that ipv4_octet_word by (auto simp: map_eq_Cons_conv)
  have "word_char c" if "c \<in> set s" for c
    using split_on_cover [OF that, of "CHR ''.''"] w by (auto simp: list_all_iff word_char_def)
  moreover have "s \<noteq> []" using assms by (auto simp: ipv4_from_str_def ipv4_octet_def)
  ultimately show ?thesis by (simp add: plain_word_def list_all_iff)
qed

lemma plain_word_append: "plain_word a \<Longrightarrow> list_all word_char b \<Longrightarrow> plain_word (a @ b)"
  by (simp add: plain_word_def)

lemma plain_word_slash: "plain_word a \<Longrightarrow> plain_word b \<Longrightarrow> plain_word (a @ ''/'' @ b)"
  by (simp add: plain_word_def word_char_def)

lemma pubkey_word:
  assumes "valid_pubkey k"
  shows "plain_word k"
proof -
  obtain p where k: "k = p @ ''=''" and n: "length p = 43"
    using assms by (auto simp: valid_pubkey_def strip_suffix_Some)
  have "take 43 k = p" using n k by simp
  then have "list_all word_char p"
    using assms by (auto simp: valid_pubkey_def list_all_iff word_char_def)
  then show ?thesis using k by (simp add: plain_word_def word_char_def)
qed

lemma endpoint_word:
  assumes "valid_endpoint ep"
  shows "plain_word ep"
proof -
  obtain host port n where ep: "ep = host @ CHR '':'' # port"
    and h: "list_all endpoint_char host" and p: "parse_uint 65536 port = Some n"
    using assms rsplit_once_Some [of "CHR '':''" ep]
    by (auto simp: valid_endpoint_def split: option.splits if_splits)
  have "list_all word_char host"
    using h by (auto simp: list_all_iff endpoint_char_def word_char_def)
  then show ?thesis using ep parse_uint_word [OF p] by (simp add: plain_word_def word_char_def)
qed

lemma fmt_ip_word: "plain_word (fmt_ip a)"
  by (rule ipv4_word [OF ipv4_from_str_fmt_ip])

definition interface_commands :: "JoinInfo \<Rightarrow> string \<Rightarrow> string list list" where
  "interface_commands info key_file
     = [[''ip'', ''link'', ''add'', WG_IFACE, ''type'', ''wireguard''], wg_set_command info key_file,
        [''ip'', ''addr'', ''replace'', overlay_ip info @ ''/'' @ show_nat (unat (overlay_prefix info)), ''dev'', WG_IFACE],
        [''ip'', ''link'', ''set'', WG_IFACE, ''up'']]"

lemma interface_words:
  assumes "validate_join_info info = Inr ()"
  shows "\<forall>argv\<in>set (interface_commands info key_file). \<forall>x\<in>set argv. plain_word x \<or> x = key_file"
proof -
  obtain a h where v: "ipv4_from_str (overlay_ip info) = Some a" "ipv4_from_str (server_overlay_ip info) = Some h"
      "valid_pubkey (server_pubkey info)" "valid_endpoint (server_endpoint info)"
    using assms by (rule validate_join_infoD)
  note w = ipv4_word [OF v(1)] pubkey_word [OF v(3)] endpoint_word [OF v(4)] show_nat_word
    plain_word_slash [OF ipv4_word [OF v(1)] show_nat_word] plain_word_slash [OF fmt_ip_word show_nat_word]
  have "plain_word (allowed_ips info)" using allowed_ips_cidr [OF assms v(2)] w(6) by simp
  then show ?thesis
    using w by (simp add: interface_commands_def wg_set_command_def WG_IFACE_def)
      (simp add: plain_word_def word_char_def ascii_defs)
qed

subsection \<open>What reaches the command line\<close>

definition sudo :: "string list \<Rightarrow> string list" where
  "sudo argv = ''sudo'' # ''-n'' # argv"

text \<open>The command of an event without the prefix of the second attempt.\<close>

fun bare_command :: "event \<Rightarrow> string list" where
  "bare_command (EvCmd argv ok) = (if take 2 argv = [''sudo'', ''-n''] then drop 2 argv else argv)"
| "bare_command _ = []"

text \<open>One call of \<open>run\<close>: the command, and after a failure the same with \<open>sudo\<close>.\<close>

definition run_trace :: "string list \<Rightarrow> bool \<Rightarrow> event list \<Rightarrow> bool" where
  "run_trace argv ok evs
     = (evs = (if ok then [EvCmd argv True] else [EvCmd argv False, EvCmd (sudo argv) False])
        \<or> ok \<and> evs = [EvCmd argv False, EvCmd (sudo argv) True])"

lemma run_logged:
  assumes "run (logged_sys sys) argv st = (ok, st')" "argv \<noteq> []"
  obtains evs where "snd (h_world st') = snd (h_world st) @ evs" "run_trace argv ok evs"
proof -
  obtain w l where w: "h_world st = (w, l)" by (cases "h_world st")
  obtain ok1 w1 where c1: "sys_cmd sys argv w = (ok1, w1)" by (cases "sys_cmd sys argv w")
  obtain ok2 w2 where c2: "sys_cmd sys (sudo argv) w1 = (ok2, w2)" by (cases "sys_cmd sys (sudo argv) w1")
  show ?thesis
  proof (cases ok1)
    case True
    then have "ok" "snd (h_world st') = l @ [EvCmd argv True]"
      using assms w c1 by (auto simp: run_def run_once_def logged_sys_def log_step_def)
    then show ?thesis using that [of "[EvCmd argv True]"] w by (simp add: run_trace_def)
  next
    case False
    then have "ok = ok2" "snd (h_world st') = l @ [EvCmd argv False, EvCmd (sudo argv) ok2]"
      using assms w c1 c2 by (auto simp: run_def run_once_def logged_sys_def log_step_def sudo_def)
    then show ?thesis
      using that [of "[EvCmd argv False, EvCmd (sudo argv) ok2]"] w by (cases ok2) (simp_all add: run_trace_def)
  qed
qed

lemma run_trace_bare:
  assumes "run_trace argv ok evs" "hd argv \<noteq> ''sudo''" "argv \<noteq> []"
  shows "remdups_adj (map bare_command evs) = [argv]" "evs \<noteq> []" "set (map bare_command evs) = {argv}"
    "ok \<Longrightarrow> EvCmd argv True \<in> set evs \<or> EvCmd (sudo argv) True \<in> set evs"
proof -
  have "take 2 argv \<noteq> [''sudo'', ''-n'']" using assms(2,3) by (cases argv) auto
  then show "remdups_adj (map bare_command evs) = [argv]" "evs \<noteq> []" "set (map bare_command evs) = {argv}"
      "ok \<Longrightarrow> EvCmd argv True \<in> set evs \<or> EvCmd (sudo argv) True \<in> set evs"
    using assms(1) by (auto simp: run_trace_def sudo_def split: if_splits)
qed

lemma remdups_adj_disjoint:
  "set xs \<inter> set ys = {} \<Longrightarrow> remdups_adj (xs @ ys) = remdups_adj xs @ remdups_adj ys"
proof (induction xs rule: remdups_adj.induct)
  case (2 x)
  then show ?case by (cases ys) auto
qed auto

text \<open>A trace of the first commands of a list, in their order.\<close>

inductive ran :: "string list list \<Rightarrow> event list \<Rightarrow> bool" where
  ran_none: "ran [] []"
| ran_more: "ran cs evs \<Longrightarrow> run_trace c ok es \<Longrightarrow> ran (cs @ [c]) (evs @ es)"

lemma ran_bare:
  assumes "ran cs evs" "distinct cs" "\<forall>c\<in>set cs. c \<noteq> [] \<and> hd c \<noteq> ''sudo''"
  shows "remdups_adj (map bare_command evs) = cs \<and> set (map bare_command evs) = set cs"
  using assms
proof (induction rule: ran.induct)
  case (ran_more cs evs c ok es)
  note t = run_trace_bare [OF ran_more.hyps(2)]
  have "set (map bare_command evs) \<inter> set (map bare_command es) = {}"
    using ran_more.IH ran_more.prems t(3) by auto
  then show ?case
    using ran_more.IH ran_more.prems t remdups_adj_disjoint [of "map bare_command evs" "map bare_command es"]
    by auto
qed simp

definition accepted_in :: "event list \<Rightarrow> string list \<Rightarrow> bool" where
  "accepted_in evs argv = (EvCmd argv True \<in> set evs \<or> EvCmd (sudo argv) True \<in> set evs)"

lemma run_chain:
  assumes "run (logged_sys sys) c st = (ok, st')" "c \<noteq> []" "hd c \<noteq> ''sudo''"
    and "ran cs evs" "snd (h_world st) = l @ evs"
  obtains evs' where "ran (cs @ [c]) evs'" "snd (h_world st') = l @ evs'" "ok \<Longrightarrow> accepted_in evs' c"
    "\<And>d. accepted_in evs d \<Longrightarrow> accepted_in evs' d"
proof -
  obtain es where es: "snd (h_world st') = snd (h_world st) @ es" "run_trace c ok es"
    using run_logged [OF assms(1,2)] .
  show ?thesis
  proof (rule that [of "evs @ es"])
    show "ran (cs @ [c]) (evs @ es)" using ran_more [OF assms(4) es(2)] .
    show "ok \<Longrightarrow> accepted_in (evs @ es) c"
      using run_trace_bare(4) [OF es(2) assms(3,2)] by (auto simp: accepted_in_def)
  qed (use es(1) assms(5) in \<open>auto simp: accepted_in_def\<close>)
qed

lemma ensure_interface_trace:
  assumes "os_net (no_os no) = logged_sys sys" "ensure_interface no info kf st = (r, st')"
  defines "cs \<equiv> interface_commands info kf"
  shows "\<exists>n evs. n \<le> 4 \<and> ran (take n cs) evs \<and> snd (h_world st') = snd (h_world st) @ evs
           \<and> (r = Inr () \<longrightarrow> n = 4 \<and> (\<forall>c\<in>set (tl cs). accepted_in evs c))"
proof (cases "no_openable no kf (h_world st)")
  case (Some e)
  then have "ran (take 0 cs) [] \<and> snd (h_world st') = snd (h_world st) @ [] \<and> r \<noteq> Inr ()"
    using assms(2) ran_none by (auto simp: ensure_interface_def)
  then show ?thesis by (metis le0)
next
  case None
  define c1 c2 c3 c4 where "c1 = cs ! 0" "c2 = cs ! 1" "c3 = cs ! 2" "c4 = cs ! 3"
  have cs: "cs = [c1, c2, c3, c4]"
    and c: "c1 = [''ip'', ''link'', ''add'', WG_IFACE, ''type'', ''wireguard'']" "c2 = wg_set_command info kf"
      "c3 = [''ip'', ''addr'', ''replace'', overlay_ip info @ ''/'' @ show_nat (unat (overlay_prefix info)), ''dev'', WG_IFACE]"
      "c4 = [''ip'', ''link'', ''set'', WG_IFACE, ''up'']"
    by (simp_all add: c1_c2_c3_c4_def cs_def interface_commands_def)
  have h: "c1 \<noteq> []" "hd c1 \<noteq> ''sudo''" "c2 \<noteq> []" "hd c2 \<noteq> ''sudo''" "c3 \<noteq> []" "hd c3 \<noteq> ''sudo''"
      "c4 \<noteq> []" "hd c4 \<noteq> ''sudo''"
    by (simp_all add: c wg_set_command_def)
  let ?l = "snd (h_world st)" and ?run = "run (logged_sys sys)"
  obtain ok1 st1 where r1: "?run c1 st = (ok1, st1)" by (cases "?run c1 st")
  obtain ok2 st2 where r2: "?run c2 st1 = (ok2, st2)" by (cases "?run c2 st1")
  obtain ok3 st3 where r3: "?run c3 st2 = (ok3, st3)" by (cases "?run c3 st2")
  obtain ok4 st4 where r4: "?run c4 st3 = (ok4, st4)" by (cases "?run c4 st3")
  obtain e1 where e1: "ran ([] @ [c1]) e1" "snd (h_world st1) = ?l @ e1"
    using run_chain [OF r1 h(1,2) ran_none, of ?l] by auto
  obtain e2 where e2: "ran (([] @ [c1]) @ [c2]) e2" "snd (h_world st2) = ?l @ e2" "ok2 \<Longrightarrow> accepted_in e2 c2"
    using run_chain [OF r2 h(3,4) e1] by metis
  obtain e3 where e3: "ran ((([] @ [c1]) @ [c2]) @ [c3]) e3" "snd (h_world st3) = ?l @ e3" "ok3 \<Longrightarrow> accepted_in e3 c3"
      "accepted_in e2 c2 \<Longrightarrow> accepted_in e3 c2"
    using run_chain [OF r3 h(5,6) e2(1,2)] by metis
  obtain e4 where e4: "ran (((([] @ [c1]) @ [c2]) @ [c3]) @ [c4]) e4" "snd (h_world st4) = ?l @ e4"
      "ok4 \<Longrightarrow> accepted_in e4 c4" "accepted_in e3 c3 \<Longrightarrow> accepted_in e4 c3" "accepted_in e3 c2 \<Longrightarrow> accepted_in e4 c2"
    using run_chain [OF r4 h(7,8) e3(1,2)] by metis
  have res: "(st' = st2 \<and> r \<noteq> Inr ()) \<or> (st' = st3 \<and> r \<noteq> Inr ()) \<or> (st' = st4 \<and> (r = Inr () \<longrightarrow> ok2 \<and> ok3 \<and> ok4))"
    using assms(2) None r1 r2 r3 r4 unfolding c ensure_interface_def assms(1) Let_def
    by (auto split: if_splits)
  then show ?thesis
  proof (elim disjE conjE)
    assume "st' = st2" "r \<noteq> Inr ()"
    then show ?thesis using e2 cs by (intro exI [of _ 2] exI [of _ e2]) simp
  next
    assume "st' = st3" "r \<noteq> Inr ()"
    then show ?thesis using e3 cs by (intro exI [of _ 3] exI [of _ e3]) simp
  next
    assume "st' = st4" "r = Inr () \<longrightarrow> ok2 \<and> ok3 \<and> ok4"
    then show ?thesis using e2 e3 e4 cs by (intro exI [of _ 4] exI [of _ e4]) auto
  qed
qed

text \<open>
  C23. Only plain words of an accepted grant reach the command line.  With a grant that passes the
  checks, configuring the tunnel runs a prefix of four fixed commands in their order, each
  bare and then, after a failure, with sudo; every word of them is the key file or a nonempty
  word of letters, digits and a few punctuation marks; and success means that the kernel accepted
  the last three.
\<close>

theorem interface_commands_plain:
  assumes "validate_join_info info = Inr ()"
    and "os_net (no_os no) = logged_sys sys" "ensure_interface no info key_file st = (r, st')"
  shows "\<exists>n evs. snd (h_world st') = snd (h_world st) @ evs
           \<and> remdups_adj (map bare_command evs) = take n (interface_commands info key_file)
           \<and> (\<forall>ev\<in>set evs. \<forall>x\<in>set (bare_command ev). plain_word x \<or> x = key_file)
           \<and> (r = Inr () \<longrightarrow> n = 4 \<and> (\<forall>c\<in>set (tl (interface_commands info key_file)). accepted_in evs c))"
proof -
  let ?cs = "interface_commands info key_file"
  have cs: "distinct ?cs" "\<forall>c\<in>set ?cs. c \<noteq> [] \<and> hd c \<noteq> ''sudo''"
    by (simp_all add: interface_commands_def wg_set_command_def)
  obtain n evs where e: "ran (take n ?cs) evs" "snd (h_world st') = snd (h_world st) @ evs"
      "r = Inr () \<longrightarrow> n = 4 \<and> (\<forall>c\<in>set (tl ?cs). accepted_in evs c)"
    using ensure_interface_trace [OF assms(2,3)] by (elim exE conjE)
  have b: "remdups_adj (map bare_command evs) = take n ?cs \<and> set (map bare_command evs) = set (take n ?cs)"
  proof (rule ran_bare [OF e(1)])
    show "distinct (take n ?cs)" by (rule distinct_take [OF cs(1)])
    show "\<forall>c\<in>set (take n ?cs). c \<noteq> [] \<and> hd c \<noteq> ''sudo''" using cs(2) by (auto dest: in_set_takeD)
  qed
  have "plain_word x \<or> x = key_file" if "ev \<in> set evs" "x \<in> set (bare_command ev)" for ev x
  proof -
    have "bare_command ev \<in> set (map bare_command evs)" using that(1) by simp
    then have "bare_command ev \<in> set ?cs" using b in_set_takeD by metis
    then show ?thesis using interface_words [OF assms(1), of key_file, rule_format] that(2) by simp
  qed
  then have w: "\<forall>ev\<in>set evs. \<forall>x\<in>set (bare_command ev). plain_word x \<or> x = key_file" by simp
  show ?thesis
    by (rule exI [of _ n], rule exI [of _ evs]) (intro conjI e(2,3) b [THEN conjunct1] w)
qed

text \<open>A node whose effects on the system below it are recorded.\<close>

definition logged_node :: "'w nodeos \<Rightarrow> ('w \<times> event list) nodeos" where
  "logged_node no
     = \<lparr>no_os = logged (no_os no), no_lstat = (\<lambda>p (w, l). no_lstat no p w), no_read = (\<lambda>p (w, l). no_read no p w),
        no_put = (\<lambda>p c. silent_step (no_put no p c)), no_sync = (\<lambda>p. silent_step (no_sync no p)),
        no_openable = (\<lambda>p (w, l). no_openable no p w), no_tcp = (\<lambda>a q. silent_step (no_tcp no a q)),
        no_shape_error = no_shape_error no, no_pretty = no_pretty no,
        no_local_addr = (\<lambda>a (w, l). no_local_addr no a w), no_listen = (\<lambda>a. silent_step (no_listen no a))\<rparr>"

definition demo_grant :: JoinInfo where
  "demo_grant
     = \<lparr>overlay_ip = ''10.100.0.2'', overlay_prefix = 24, server_overlay_ip = ''10.100.0.1'',
        server_pubkey = replicate 43 (CHR ''A'') @ ''='', server_endpoint = ''hub.example:51820'', keepalive_s = 25,
        api_port = 8080, agent_token = []\<rparr>"

lemma demo_grant_valid: "validate_join_info demo_grant = Inr ()"
proof -
  have "ipv4_from_str ''10.100.0.2'' \<noteq> None" "ipv4_from_str ''10.100.0.1'' \<noteq> None"
    by (simp_all add: ipv4_from_str_def ipv4_octet_def is_ascii_digit_def digit_val_def)
  moreover have "valid_pubkey (replicate 43 (CHR ''A'') @ ''='')"
    by (simp add: valid_pubkey_def strip_suffix_Some list_all_iff ascii_defs)
  moreover have "rsplit_once (CHR '':'') ''hub.example:51820'' = Some (''hub.example'', ''51820'')"
    using rsplit_once_append [of "CHR '':''" "''51820''" "''hub.example''"] by simp
  then have "valid_endpoint ''hub.example:51820''"
    by (simp add: valid_endpoint_def endpoint_char_def ascii_defs parse_uint_def digit_val_def)
  ultimately show ?thesis by (simp add: validate_join_info_def demo_grant_def)
qed

definition demo_host :: "'w \<Rightarrow> 'w host" where
  "demo_host w = \<lparr>h_world = w, h_guest_cidr = None, h_isolation_ok = False, h_filter_ok = False, h_agent_port = 0\<rparr>"

lemma demo_interface:
  assumes "w kf = Some (b, md)" "st = demo_host (w, [])"
  shows "fst (ensure_interface (logged_node file_node) info kf st) = Inr ()"
  using assms
  by (simp add: ensure_interface_def logged_node_def logged_def logged_sys_def file_node_def demo_host_def run_def
      run_once_def log_step_def Let_def wg_set_command_def)

theorem interface_commands_plain_witness:
  "\<exists>st' evs. ensure_interface (logged_node file_node) demo_grant ''/d/wg.key''
         (demo_host (Map.empty(''/d/wg.key'' \<mapsto> (''k'', 384)), [])) = (Inr (), st')
     \<and> snd (h_world st') = evs
     \<and> remdups_adj (map bare_command evs) = interface_commands demo_grant ''/d/wg.key''"
proof -
  let ?st = "demo_host (Map.empty(''/d/wg.key'' \<mapsto> (''k'', 384 :: nat)), [] :: event list)"
  have "fst (ensure_interface (logged_node file_node) demo_grant ''/d/wg.key'' ?st) = Inr ()"
    by (rule demo_interface [OF _ refl]) simp
  then obtain st' where st': "ensure_interface (logged_node file_node) demo_grant ''/d/wg.key'' ?st = (Inr (), st')"
    by (rule fst_eqE)
  have "os_net (no_os (logged_node file_node)) = logged_sys (os_net (no_os file_node))"
    by (simp add: logged_node_def logged_def)
  from interface_commands_plain [OF demo_grant_valid this st']
  obtain n evs where e: "snd (h_world st') = snd (h_world ?st) @ evs" "n = 4"
      "remdups_adj (map bare_command evs) = take n (interface_commands demo_grant ''/d/wg.key'')"
    by auto
  then have "remdups_adj (map bare_command evs) = interface_commands demo_grant ''/d/wg.key''"
    by (simp add: interface_commands_def)
  then show ?thesis using st' e(1) by (intro exI [of _ st'] exI [of _ evs]) (simp add: demo_host_def)
qed

subsection \<open>The key\<close>

text \<open>
  A key that exists is never replaced: whatever the contents of the key file, and whether
  the call succeeds or not, asking for the key leaves the file as it is, provided that running
  a command does not write to it; and nothing is generated unless the file is missing.
\<close>

theorem existing_key_kept:
  assumes "node_files no fs" "fs w path = Some (key, md)"
    and "\<And>argv inp w1. fs (snd (os_exec (no_os no) argv inp w1)) path = fs w1 path"
  shows "fs (snd (ensure_key no path w)) path = Some (key, md)"
proof -
  have r: "no_read no path w = Contents key" using node_filesD(2) [OF assms(1), of path w] assms(2) by simp
  have d: "fs (snd (derive_pubkey no p w)) path = fs w path" for p
    using assms(3) [of "[''wg'', ''pubkey'']" p w]
    by (cases "os_exec (no_os no) [''wg'', ''pubkey''] p w")
      (auto simp: derive_pubkey_def Let_def split: proc_result.splits)
  have "snd (ensure_key no path w) = w \<or> (\<exists>p. snd (ensure_key no path w) = snd (derive_pubkey no p w))"
    using r by (auto simp: ensure_key_def read_text_def attempt_def)
  then show ?thesis using d assms(2) by auto
qed

subsection \<open>The grant survives a restart\<close>

lemma de_join_info_json: "de_join_info (join_info_json info) = Some (info\<lparr>agent_token := []\<rparr>)"
proof -
  have "fields_once JOIN_KEYS [(''overlay_ip'', JStr (overlay_ip info)), (''overlay_prefix'', jword (overlay_prefix info)),
             (''server_overlay_ip'', JStr (server_overlay_ip info)), (''server_pubkey'', JStr (server_pubkey info)),
             (''server_endpoint'', JStr (server_endpoint info)), (''keepalive_s'', jword (keepalive_s info)),
             (''api_port'', jword (api_port info))]"
    by (simp add: fields_once_def JOIN_KEYS_def)
  moreover have "de_uint 8 (jword (overlay_prefix info)) = Some (unat (overlay_prefix info))"
    by (rule de_uint_jword) simp
  ultimately show ?thesis
    by (cases info) (simp add: de_join_info_def join_info_json_def jfield_def de_req_def de_default_def de_str_def)
qed

lemma save_state_files:
  assumes "node_files no fs" "save_state no d info w = (r, w')"
  shows "if r = Inr () then \<exists>md. fs w' (state_path d) = Some (no_pretty no (join_info_json info), md)
         else fs w' (state_path d) = fs w (state_path d)"
proof -
  let ?p = "state_path d" and ?t = "state_path d @ ''.tmp''"
  have n: "?p \<noteq> ?t" by simp
  note D = node_filesD [OF assms(1)]
  from assms(2) show ?thesis
    unfolding save_state_def Let_def
  proof (cases rule: attempt_errE)
    case (err e)
    then show ?thesis using D(3) [OF err(1)] by simp
  next
    case (ok u w1)
    have f1: "fs w1 = fs w" using D(3) [OF ok(1)] .
    from ok(2) show ?thesis
    proof (cases rule: attempt_errE)
      case (err e)
      then show ?thesis using D(4) [OF err(1)] f1 n by simp
    next
      case (ok u w2)
      obtain md where f2: "fs w2 ?p = fs w ?p" "fs w2 ?t = Some ([], md)" using D(4) [OF ok(1)] f1 n by auto
      from ok(2) show ?thesis
      proof (cases rule: attempt_errE)
        case (err e)
        then show ?thesis using D(6) [OF err(1)] f2 n by simp
      next
        case (ok u w3)
        have f3: "fs w3 ?p = fs w ?p" "fs w3 ?t = Some (no_pretty no (join_info_json info), md)"
          using D(6) [OF ok(1)] f2 n by auto
        obtain r1 where r1: "os_rename (no_os no) ?t ?p w3 = (r1, w')" "r = Inr () \<longleftrightarrow> r1 = Inr ()"
          using ok(2) by (cases "os_rename (no_os no) ?t ?p w3") (auto simp: map_err_def split: sum.splits)
        then show ?thesis using D(8) [OF r1(1)] f3 n by auto
      qed
    qed
  qed
qed

text \<open>
  C22. An enrolment survives a restart, or nothing of it is seen.  After saving a grant, loading
  gives the grant without its credential, which is kept in its own file; and when any step
  of the save failed, loading gives what it gave before.
\<close>

theorem enrolment_saved_or_unchanged:
  assumes "node_files no fs" "save_state no d info w = (r, w')"
    and "os_json (no_os no) (no_pretty no (join_info_json info)) = Inr (join_info_json info)"
    and "valid_utf8 (no_pretty no (join_info_json info))"
  shows "load_state no d w' = (if r = Inr () then Inr (Some (info\<lparr>agent_token := []\<rparr>)) else load_state no d w)"
proof (cases "r = Inr ()")
  case True
  then obtain md where "fs w' (state_path d) = Some (no_pretty no (join_info_json info), md)"
    using save_state_files [OF assms(1,2)] by auto
  then have "read_text no (state_path d) w' = Contents (no_pretty no (join_info_json info))"
    using node_filesD(2) [OF assms(1), of "state_path d" w'] assms(4) by (simp add: read_text_def)
  then show ?thesis using True assms(3) by (simp add: load_state_def Let_def de_join_info_json)
next
  case False
  then have "fs w' (state_path d) = fs w (state_path d)" using save_state_files [OF assms(1,2)] by simp
  then have "read_text no (state_path d) w' = read_text no (state_path d) w"
    unfolding read_text_def node_filesD(2) [OF assms(1)] by (rule arg_cong)
  then show ?thesis using False unfolding load_state_def Let_def by simp
qed

lemma json_str_ascii: "list_all (\<lambda>c. byte c < 128) s \<Longrightarrow> list_all (\<lambda>c. byte c < 128) (json_str s)"
proof -
  have hx: "byte (hex_digit n) < 128" if "n < 16" for n using that by (auto simp: hex_digit_def)
  have "byte c < 128 \<Longrightarrow> list_all (\<lambda>c. byte c < 128) (json_escape_char c)" for c
    using hx by (auto simp: json_escape_char_def hex2_def)
  then show "list_all (\<lambda>c. byte c < 128) s \<Longrightarrow> list_all (\<lambda>c. byte c < 128) (json_str s)"
    by (induction s) (auto simp: json_str_def)
qed

lemma word_char_ascii: "list_all word_char s \<Longrightarrow> list_all (\<lambda>c. byte c < 128) s"
  by (auto simp: list_all_iff word_char_def ascii_defs)

lemma demo_grant_text: "valid_utf8 (print_json (join_info_json demo_grant))"
proof (rule ascii_utf8)
  have n: "list_all (\<lambda>c. byte c < 128) (show_nat k)" for k
    using word_char_ascii show_nat_word [of k] by (simp add: plain_word_def)
  have p: "list_all (\<lambda>c. byte c < 128) (replicate 43 (CHR ''A'') @ ''='')" by (simp add: list_all_iff)
  show "list_all (\<lambda>c. byte c < 128) (print_json (join_info_json demo_grant))"
    by (simp add: join_info_json_def demo_grant_def json_str_ascii n json_str_ascii [OF p] show_int_def)
qed

theorem enrolment_saved_or_unchanged_witness:
  "\<exists>w'. save_state file_node ''/d'' demo_grant Map.empty = (Inr (), w')
        \<and> load_state file_node ''/d'' w' = Inr (Some demo_grant)"
proof -
  have j: "no_pretty file_node = print_json" "os_json (no_os file_node) (print_json v) = Inr v" for v
    by (simp_all add: file_node_def parse_print_json)
  have "fst (save_state file_node ''/d'' demo_grant Map.empty) = Inr ()"
    by (simp only: save_state_def file_node_ops Let_def attempt_simps map_err_simps fst_conv)
  then obtain w' where s: "save_state file_node ''/d'' demo_grant Map.empty = (Inr (), w')" by (rule fst_eqE)
  have "load_state file_node ''/d'' w' = Inr (Some (demo_grant\<lparr>agent_token := []\<rparr>))"
    using enrolment_saved_or_unchanged [OF file_node_files s] by (simp add: j demo_grant_text)
  with s show ?thesis by (intro exI [of _ w']) (simp add: demo_grant_def)
qed

end
