(* ===== verification/Server.thy ===== *)
theory Server
  imports Agent_Config Vm_Demo
begin

text \<open>
  The control API (\<open>agent/src/server.rs\<close>): the gate, every handler with its checks and status
  codes, the routes, and the two wrapped streams.  The web framework hands over the method, the
  raw segments of the path, the Authorization header and the body; \<open>capture\<close> is its percent
  decoding of a captured segment.  A create or fork runs to its end before the answer is
  given, a background prefetch runs at once.
\<close>

record request =
  rq_method :: string
  rq_path :: "string list"
  rq_authorization :: "string option"
  rq_body :: "string option"

text \<open>
  The header is \<open>None\<close> when it is missing or not text, the body when its transfer failed.  A body
  is sent whole, or relayed from the guest connection, or read from the file of an instance.
\<close>

datatype Body = Sized string | GuestStream nat nat nat | FileStream string string u64

record reply =
  rp_status :: nat
  rp_type :: "string option"
  rp_content :: Body

record 'w AppState =
  ap_mgr :: "'w Manager"
  ap_token :: string
  ap_node_token :: string

subsection \<open>Answers\<close>

definition json_response :: "nat \<Rightarrow> string \<Rightarrow> reply" where
  "json_response status body = \<lparr>rp_status = status, rp_type = Some ''application/json'', rp_content = Sized body\<rparr>"

definition error_text :: "string \<Rightarrow> string" where
  "error_text msg = ''{'' @ jkey ''error'' @ [CHR 0x22] @ msg @ [CHR 0x22] @ ''}''"

definition error_response :: "'w nodeos \<Rightarrow> nat \<Rightarrow> string \<Rightarrow> reply" where
  "error_response no status msg = json_response status (os_show_json (no_os no) (JObj [(''error'', JStr msg)]))"

definition empty_response :: "nat \<Rightarrow> reply" where
  "empty_response status = \<lparr>rp_status = status, rp_type = None, rp_content = Sized []\<rparr>"

definition ok_text :: string where
  "ok_text = ''{'' @ jkey ''ok'' @ ''true}''"

definition ok_with :: "string \<Rightarrow> string \<Rightarrow> string" where
  "ok_with key val = ''{'' @ jkey ''ok'' @ ''true,'' @ jkey key @ val @ ''}''"

definition bad_request :: "string \<Rightarrow> reply" where
  "bad_request msg = json_response 400 (error_text msg)"

subsection \<open>The gate\<close>

definition check_auth :: "'w AppState \<Rightarrow> request \<Rightarrow> bool" where
  "check_auth app req = authorized_either (ap_token app) (ap_node_token app) (rq_authorization req)"

definition reject_bad_id :: "string \<Rightarrow> reply option" where
  "reject_bad_id vid = (if valid_vm_id vid then None else Some (bad_request ''invalid id''))"

definition unauthorized :: reply where
  "unauthorized = json_response 401 (error_text ''unauthorized'')"

text \<open>The first lines of every handler: the gate, and the check of a captured identifier.\<close>

definition authed :: "'w AppState \<Rightarrow> request \<Rightarrow> ('w AppState \<Rightarrow> reply \<times> 'w AppState) \<Rightarrow> reply \<times> 'w AppState" where
  "authed app req k = (if \<not> check_auth app req then (unauthorized, app) else k app)"

definition with_id ::
    "'w AppState \<Rightarrow> request \<Rightarrow> string \<Rightarrow> ('w AppState \<Rightarrow> reply \<times> 'w AppState) \<Rightarrow> reply \<times> 'w AppState" where
  "with_id app req vid k
     = authed app req (\<lambda>app. case reject_bad_id vid of Some resp \<Rightarrow> (resp, app) | None \<Rightarrow> k app)"

text \<open>An operation of the manager inside the shared state.\<close>

definition on_mgr :: "('w Manager \<Rightarrow> 'a \<times> 'w Manager) \<Rightarrow> ('a \<Rightarrow> reply) \<Rightarrow> 'w AppState \<Rightarrow> reply \<times> 'w AppState" where
  "on_mgr f answer app = (let (r, mg) = f (ap_mgr app) in (answer r, app\<lparr>ap_mgr := mg\<rparr>))"

subsection \<open>Reading a body\<close>

definition BODY_LIMIT :: nat where
  "BODY_LIMIT = 2 ^ 20"

definition to_bytes :: "request \<Rightarrow> string option" where
  "to_bytes req = (case rq_body req of Some b \<Rightarrow> if length b \<le> BODY_LIMIT then Some b else None | None \<Rightarrow> None)"

text \<open>\<open>to_bytes\<close>, \<open>from_utf8\<close> and \<open>serde_json::from_str\<close>; the left result is the ready answer.\<close>

definition json_body :: "'w nodeos \<Rightarrow> request \<Rightarrow> reply + json" where
  "json_body no req
     = (case to_bytes req of
          None \<Rightarrow> Inl (bad_request ''bad request'')
        | Some b \<Rightarrow>
            if \<not> valid_utf8 b then Inl (bad_request ''bad request'')
            else (case os_json (no_os no) b of Inl _ \<Rightarrow> Inl (bad_request ''bad json'') | Inr v \<Rightarrow> Inr v))"

text \<open>\<open>serde_json::from_slice\<close>, which reads the bytes as they are.\<close>

definition json_slice :: "'w nodeos \<Rightarrow> request \<Rightarrow> reply + json" where
  "json_slice no req
     = (case to_bytes req of
          None \<Rightarrow> Inl (bad_request ''bad request'')
        | Some b \<Rightarrow> (case os_json (no_os no) b of Inl _ \<Rightarrow> Inl (bad_request ''bad json'') | Inr v \<Rightarrow> Inr v))"

text \<open>\<open>Value::get\<close> and the conversions: the last of two equal keys is the one a map keeps.\<close>

definition jget :: "json \<Rightarrow> string \<Rightarrow> json option" where
  "jget v key = (case v of JObj kvs \<Rightarrow> map_of (rev kvs) key | _ \<Rightarrow> None)"

definition get_str :: "json \<Rightarrow> string \<Rightarrow> string option" where
  "get_str v key = Option.bind (jget v key) de_str"

definition get_u64 :: "json \<Rightarrow> string \<Rightarrow> nat option" where
  "get_u64 v key = Option.bind (jget v key) (de_uint 64)"

definition unwrap_or :: "'a option \<Rightarrow> 'a \<Rightarrow> 'a" where
  "unwrap_or x d = (case x of Some a \<Rightarrow> a | None \<Rightarrow> d)"

subsection \<open>Handlers\<close>

definition healthz :: "'w AppState \<Rightarrow> reply \<times> 'w AppState" where
  "healthz app = (json_response 200 (ok_with ''isolation'' (show_bool (isolation_ok (ap_mgr app)))), app)"

definition list_vms :: "'w AppState \<Rightarrow> request \<Rightarrow> reply \<times> 'w AppState" where
  "list_vms app req = authed app req (\<lambda>app. (json_response 200 (list_json (mg_vms (ap_mgr app))), app))"

definition create_sha :: "json \<Rightarrow> reply + string option" where
  "create_sha v
     = (case jget v ''image_sha256'' of
          None \<Rightarrow> Inr None
        | Some JNull \<Rightarrow> Inr None
        | Some (JStr s) \<Rightarrow> if valid_sha256 s then Inr (Some s) else Inl (bad_request ''invalid image_sha256'')
        | Some _ \<Rightarrow> Inl (bad_request ''invalid image_sha256''))"

definition create_spec :: "json \<Rightarrow> reply + CreateSpec" where
  "create_spec v
     = (case get_str v ''id'' of
          None \<Rightarrow> Inl (bad_request ''id required'')
        | Some vid \<Rightarrow>
            (case reject_bad_id vid of
               Some resp \<Rightarrow> Inl resp
             | None \<Rightarrow>
                 let image_name = unwrap_or (get_str v ''image'') DEFAULT_IMAGE in
                 if \<not> valid_image_name image_name then Inl (bad_request ''invalid image'')
                 else
                   (case create_sha v of
                      Inl resp \<Rightarrow> Inl resp
                    | Inr sha \<Rightarrow>
                        let disk = unwrap_or (get_u64 v ''disk_gb'') 0 in
                        if 128 < disk then Inl (bad_request ''disk_gb above cap (128)'')
                        else
                          Inr \<lparr>cs_id = vid, cs_name = unwrap_or (get_str v ''name'') vid,
                               cs_vcpus = of_nat (unwrap_or (get_u64 v ''vcpus'') 1),
                               cs_mem_mib = of_nat (unwrap_or (get_u64 v ''mem_mib'') 256),
                               cs_tenant_id = get_str v ''tenant_id'', cs_image = image_name,
                               cs_image_sha256 = sha, cs_disk_gb = of_nat disk\<rparr>)))"

text \<open>The object with the keys \<open>ip\<close> and \<open>ok\<close>, which the serialiser prints in this order.\<close>

definition ip_reply :: "'w nodeos \<Rightarrow> string option \<Rightarrow> reply" where
  "ip_reply no ip = json_response 201 (os_show_json (no_os no) (JObj [(''ip'', opt_json JStr ip), (''ok'', JBool True)]))"

definition create_vm :: "'w nodeos \<Rightarrow> 'w AppState \<Rightarrow> request \<Rightarrow> reply \<times> 'w AppState" where
  "create_vm no app req
     = authed app req (\<lambda>app.
         case json_body no req of
           Inl resp \<Rightarrow> (resp, app)
         | Inr v \<Rightarrow>
             (case create_spec v of
                Inl resp \<Rightarrow> (resp, app)
              | Inr spec \<Rightarrow>
                  (case create (no_os no) spec (ap_mgr app) of
                     (Inr _, mg) \<Rightarrow> (ip_reply no (ip_of (mg_vms mg) (cs_id spec)), app\<lparr>ap_mgr := mg\<rparr>)
                   | (Inl e, mg) \<Rightarrow> (error_response no 500 e, app\<lparr>ap_mgr := mg\<rparr>))))"

text \<open>The handlers of sleep, wake and stop, and those that answer 409 to a wrong state.\<close>

definition internal :: "'w nodeos \<Rightarrow> ('a \<Rightarrow> reply) \<Rightarrow> string + 'a \<Rightarrow> reply" where
  "internal no answer r = (case r of Inr x \<Rightarrow> answer x | Inl e \<Rightarrow> error_response no 500 e)"

definition conflict_or_internal :: "'w nodeos \<Rightarrow> string + unit \<Rightarrow> reply" where
  "conflict_or_internal no r
     = (case r of
          Inr _ \<Rightarrow> empty_response 200
        | Inl e \<Rightarrow> if starts_with ''InvalidState'' e then error_response no 409 e else error_response no 500 e)"

definition sleep_vm_handler :: "'w nodeos \<Rightarrow> 'w AppState \<Rightarrow> request \<Rightarrow> string \<Rightarrow> reply \<times> 'w AppState" where
  "sleep_vm_handler no app req vid
     = with_id app req vid (on_mgr (sleep_vm (no_os no) vid) (internal no (\<lambda>_. json_response 200 ok_text)))"

definition wake_vm_handler :: "'w nodeos \<Rightarrow> 'w AppState \<Rightarrow> request \<Rightarrow> string \<Rightarrow> reply \<times> 'w AppState" where
  "wake_vm_handler no app req vid
     = with_id app req vid (on_mgr (wake_vm (no_os no) vid)
         (internal no (\<lambda>ms. json_response 200 (ok_with ''wake_ms'' (show_nat (unat ms))))))"

definition fork_vm :: "'w nodeos \<Rightarrow> 'w AppState \<Rightarrow> request \<Rightarrow> string \<Rightarrow> reply \<times> 'w AppState" where
  "fork_vm no app req parent_id
     = with_id app req parent_id (\<lambda>app.
         case json_body no req of
           Inl resp \<Rightarrow> (resp, app)
         | Inr v \<Rightarrow>
             (case get_str v ''id'' of
                None \<Rightarrow> (bad_request ''id required'', app)
              | Some child_id \<Rightarrow>
                  (case reject_bad_id child_id of
                     Some resp \<Rightarrow> (resp, app)
                   | None \<Rightarrow>
                       on_mgr (fork (no_os no) parent_id child_id (unwrap_or (get_str v ''name'') child_id))
                         (internal no (ip_reply no)) app)))"

definition exec_cmd :: "json \<Rightarrow> string list option" where
  "exec_cmd v
     = (case jget v ''cmd'' of
          Some (JArr arr) \<Rightarrow> if arr = [] then None else those (map de_str arr)
        | _ \<Rightarrow> None)"

definition exec_timeout :: "json \<Rightarrow> nat" where
  "exec_timeout v = min (unwrap_or (get_u64 v ''timeout_ms'') 30000) 300000"

definition MAX_STREAM_BYTES :: nat where
  "MAX_STREAM_BYTES = 64 * 1024 * 1024"

definition exec_reply :: "('a \<Rightarrow> reply) \<Rightarrow> 'a ExecOutcome \<Rightarrow> reply" where
  "exec_reply answer r
     = (case r of
          ExecOk x \<Rightarrow> answer x
        | ExecNotRunning \<Rightarrow> json_response 409 (error_text ''not running'')
        | ExecUnavailable \<Rightarrow> json_response 501 (error_text ''guest agent unavailable'')
        | ExecFailed _ \<Rightarrow> json_response 501 (error_text ''guest agent unavailable'')
        | ExecNotFound \<Rightarrow> json_response 500 (error_text ''NotFound''))"

definition exec_vm :: "'w nodeos \<Rightarrow> 'w AppState \<Rightarrow> request \<Rightarrow> string \<Rightarrow> reply \<times> 'w AppState" where
  "exec_vm no app req vid
     = with_id app req vid (\<lambda>app.
         case json_body no req of
           Inl resp \<Rightarrow> (resp, app)
         | Inr v \<Rightarrow>
             (case exec_cmd v of
                None \<Rightarrow> (bad_request ''cmd required'', app)
              | Some cmd \<Rightarrow>
                  let timeout_ms = exec_timeout v in
                  if jget v ''stream'' = Some (JBool True) then
                    on_mgr (mgr_exec_stream (no_os no) vid cmd (of_nat timeout_ms))
                      (exec_reply (\<lambda>guest. \<lparr>rp_status = 200, rp_type = Some ''application/x-ndjson'',
                                            rp_content = GuestStream guest (timeout_ms + 60000) MAX_STREAM_BYTES\<rparr>)) app
                  else
                    on_mgr (mgr_exec (no_os no) vid cmd (of_nat timeout_ms))
                      (exec_reply (\<lambda>out. json_response 200 (os_show_json (no_os no) out))) app))"

definition parse_guest_port :: "'w nodeos \<Rightarrow> request \<Rightarrow> reply + u16" where
  "parse_guest_port no req
     = (case json_body no req of
          Inl resp \<Rightarrow> Inl resp
        | Inr v \<Rightarrow>
            (case get_u64 v ''guest_port'' of
               Some p \<Rightarrow> if 1 \<le> p \<and> p \<le> 65535 then Inr (of_nat p) else Inl (bad_request ''guest_port required'')
             | None \<Rightarrow> Inl (bad_request ''guest_port required'')))"

definition expose_debug :: "ExposeError \<Rightarrow> string" where
  "expose_debug e = (case e of ExposeNotFound \<Rightarrow> ''NotFound'' | NoIp \<Rightarrow> ''NoIp'' | Exhausted \<Rightarrow> ''Exhausted'')"

definition port_text :: "u16 \<Rightarrow> string" where
  "port_text np = ''{'' @ jkey ''node_port'' @ show_nat (unat np) @ ''}''"

definition expose_vm :: "'w nodeos \<Rightarrow> 'w AppState \<Rightarrow> request \<Rightarrow> string \<Rightarrow> reply \<times> 'w AppState" where
  "expose_vm no app req vid
     = with_id app req vid (\<lambda>app.
         case parse_guest_port no req of
           Inl resp \<Rightarrow> (resp, app)
         | Inr gport \<Rightarrow>
             on_mgr (expose (no_os no) vid gport)
               (\<lambda>r. case r of
                  Inr np \<Rightarrow> json_response 200 (port_text np)
                | Inl ExposeNotFound \<Rightarrow> json_response 404 (error_text ''not found'')
                | Inl NoIp \<Rightarrow> json_response 409 (error_text ''no ip'')
                | Inl Exhausted \<Rightarrow> json_response 409 (error_text ''ports exhausted'')) app)"

definition unexpose_vm :: "'w nodeos \<Rightarrow> 'w AppState \<Rightarrow> request \<Rightarrow> string \<Rightarrow> reply \<times> 'w AppState" where
  "unexpose_vm no app req vid
     = with_id app req vid (\<lambda>app.
         case parse_guest_port no req of
           Inl resp \<Rightarrow> (resp, app)
         | Inr gport \<Rightarrow>
             on_mgr (unexpose (no_os no) vid gport)
               (\<lambda>r. case r of
                  Inr _ \<Rightarrow> json_response 200 ok_text
                | Inl ExposeNotFound \<Rightarrow> json_response 404 (error_text ''not found'')
                | Inl e \<Rightarrow> error_response no 500 (expose_debug e)) app)"

definition vm_pause :: "'w nodeos \<Rightarrow> 'w AppState \<Rightarrow> request \<Rightarrow> string \<Rightarrow> reply \<times> 'w AppState" where
  "vm_pause no app req vid = with_id app req vid (on_mgr (pause (no_os no) vid) (conflict_or_internal no))"

definition vm_resume :: "'w nodeos \<Rightarrow> 'w AppState \<Rightarrow> request \<Rightarrow> string \<Rightarrow> reply \<times> 'w AppState" where
  "vm_resume no app req vid = with_id app req vid (on_mgr (resume (no_os no) vid) (conflict_or_internal no))"

definition vm_stop :: "'w nodeos \<Rightarrow> 'w AppState \<Rightarrow> request \<Rightarrow> string \<Rightarrow> reply \<times> 'w AppState" where
  "vm_stop no app req vid
     = with_id app req vid (on_mgr (stop (no_os no) vid) (internal no (\<lambda>_. empty_response 200)))"

definition vm_start :: "'w nodeos \<Rightarrow> 'w AppState \<Rightarrow> request \<Rightarrow> string \<Rightarrow> reply \<times> 'w AppState" where
  "vm_start no app req vid = with_id app req vid (on_mgr (start (no_os no) vid) (conflict_or_internal no))"

definition delete_vm :: "'w nodeos \<Rightarrow> 'w AppState \<Rightarrow> request \<Rightarrow> string \<Rightarrow> reply \<times> 'w AppState" where
  "delete_vm no app req vid = with_id app req vid (on_mgr (delete (no_os no) vid) (\<lambda>_. empty_response 204))"

definition vm_rootfs :: "'w nodeos \<Rightarrow> 'w AppState \<Rightarrow> request \<Rightarrow> string \<Rightarrow> reply \<times> 'w AppState" where
  "vm_rootfs no app req vid
     = with_id app req vid (\<lambda>app.
         case begin_capture vid (ap_mgr app) of
           (Inl RootfsNotFound, mg) \<Rightarrow> (json_response 404 (error_text ''not found''), app\<lparr>ap_mgr := mg\<rparr>)
         | (Inl NotStopped, mg) \<Rightarrow> (json_response 409 (error_text ''not stopped''), app\<lparr>ap_mgr := mg\<rparr>)
         | (Inl CaptureInProgress, mg) \<Rightarrow> (json_response 409 (error_text ''capture in progress''), app\<lparr>ap_mgr := mg\<rparr>)
         | (Inr path, mg) \<Rightarrow>
             if no_openable no path (mg_world mg) \<noteq> None then
               (json_response 404 (error_text ''not found''), app\<lparr>ap_mgr := end_capture vid mg\<rparr>)
             else
               (case os_len (no_os no) path (mg_world mg) of
                  Inl _ \<Rightarrow> (json_response 500 (error_text ''stat failed''), app\<lparr>ap_mgr := end_capture vid mg\<rparr>)
                | Inr len \<Rightarrow>
                    (\<lparr>rp_status = 200, rp_type = Some ''application/octet-stream'', rp_content = FileStream vid path len\<rparr>,
                     app\<lparr>ap_mgr := mg\<rparr>)))"

text \<open>Dropping the stream of a capture, at its end or when the client goes away.\<close>

definition drop_capture :: "string \<Rightarrow> 'w AppState \<Rightarrow> 'w AppState" where
  "drop_capture vid app = app\<lparr>ap_mgr := end_capture vid (ap_mgr app)\<rparr>"

definition POOL_KEYS :: "string list" where
  "POOL_KEYS = [''image'', ''image_sha256'', ''vcpus'', ''mem_mib'', ''disk_gb'', ''count'']"

definition de_pool_spec :: "json \<Rightarrow> PoolSpec option" where
  "de_pool_spec v
     = (case v of
          JObj kvs \<Rightarrow>
            if \<not> fields_once POOL_KEYS kvs then None
            else do {
              img \<leftarrow> de_req de_str (jfield kvs ''image'');
              sha \<leftarrow> de_default [] de_str (jfield kvs ''image_sha256'');
              vcpus \<leftarrow> de_req (de_uint 32) (jfield kvs ''vcpus'');
              mem \<leftarrow> de_req (de_uint 64) (jfield kvs ''mem_mib'');
              disk \<leftarrow> de_default 0 (de_uint 32) (jfield kvs ''disk_gb'');
              cnt \<leftarrow> de_req (de_uint 32) (jfield kvs ''count'');
              Some \<lparr>ps_image = img, ps_image_sha256 = sha, ps_vcpus = of_nat vcpus, ps_mem_mib = of_nat mem,
                    ps_disk_gb = of_nat disk, ps_count = of_nat cnt\<rparr>
            }
        | _ \<Rightarrow> None)"

definition put_pools :: "'w nodeos \<Rightarrow> 'w AppState \<Rightarrow> request \<Rightarrow> reply \<times> 'w AppState" where
  "put_pools no app req
     = authed app req (\<lambda>app.
         case json_slice no req of
           Inl resp \<Rightarrow> (resp, app)
         | Inr v \<Rightarrow>
             (case (case v of JArr vs \<Rightarrow> those (map de_pool_spec vs) | _ \<Rightarrow> None) of
                None \<Rightarrow> (bad_request ''bad json'', app)
              | Some specs \<Rightarrow>
                  on_mgr (set_pools (no_os no) specs)
                    (\<lambda>r. case r of Inr _ \<Rightarrow> json_response 200 ok_text | Inl e \<Rightarrow> error_response no 400 e) app))"

definition prefetch_image :: "'w nodeos \<Rightarrow> 'w AppState \<Rightarrow> request \<Rightarrow> reply \<times> 'w AppState" where
  "prefetch_image no app req
     = authed app req (\<lambda>app.
         case json_slice no req of
           Inl resp \<Rightarrow> (resp, app)
         | Inr v \<Rightarrow>
             (case get_str v ''image'' of
                None \<Rightarrow> (bad_request ''invalid image'', app)
              | Some image_name \<Rightarrow>
                  if \<not> valid_image_name image_name then (bad_request ''invalid image'', app)
                  else
                    (case get_str v ''image_sha256'' of
                       None \<Rightarrow> (bad_request ''invalid image_sha256'', app)
                     | Some sha \<Rightarrow>
                         if \<not> valid_sha256 sha then (bad_request ''invalid image_sha256'', app)
                         else
                           on_mgr (\<lambda>mg. on_world (ensure_image (no_os no) (mg_data_dir mg) (mg_control_plane mg)
                                                   (mg_token mg) image_name (Some sha)) mg)
                             (\<lambda>_. json_response 202 ok_text) app)))"

subsection \<open>Routes\<close>

datatype route =
    Healthz | ListVms | CreateVm | PutPools | PrefetchImage | DeleteVm string
  | Rootfs string | SleepVm string | WakeVm string | ForkVm string | ExecVm string
  | ExposeVm string | UnexposeVm string | PauseVm string | ResumeVm string | StopVm string | StartVm string

text \<open>A GET route also answers HEAD.  A segment that is captured is not empty.\<close>

definition is_get :: "string \<Rightarrow> bool" where
  "is_get m = (m \<in> {''GET'', ''HEAD''})"

definition vm_route :: "string \<Rightarrow> string \<Rightarrow> string \<Rightarrow> route option" where
  "vm_route m raw action
     = (if action = ''rootfs'' \<and> is_get m then Some (Rootfs raw)
        else if action = ''expose'' \<and> m = ''DELETE'' then Some (UnexposeVm raw)
        else if m \<noteq> ''POST'' then None
        else if action = ''sleep'' then Some (SleepVm raw)
        else if action = ''wake'' then Some (WakeVm raw)
        else if action = ''fork'' then Some (ForkVm raw)
        else if action = ''exec'' then Some (ExecVm raw)
        else if action = ''expose'' then Some (ExposeVm raw)
        else if action = ''pause'' then Some (PauseVm raw)
        else if action = ''resume'' then Some (ResumeVm raw)
        else if action = ''stop'' then Some (StopVm raw)
        else if action = ''start'' then Some (StartVm raw)
        else None)"

definition build_router :: "string \<Rightarrow> string list \<Rightarrow> route option" where
  "build_router m path
     = (if path = [''healthz''] \<and> is_get m then Some Healthz
        else if path = [''v1'', ''vms''] \<and> is_get m then Some ListVms
        else if path = [''v1'', ''vms''] \<and> m = ''POST'' then Some CreateVm
        else if path = [''v1'', ''pools''] \<and> m = ''PUT'' then Some PutPools
        else if path = [''v1'', ''images'', ''prefetch''] \<and> m = ''POST'' then Some PrefetchImage
        else
          case path of
            [a, b, raw] \<Rightarrow>
              if a = ''v1'' \<and> b = ''vms'' \<and> raw \<noteq> [] \<and> m = ''DELETE'' then Some (DeleteVm raw) else None
          | [a, b, raw, action] \<Rightarrow>
              if a = ''v1'' \<and> b = ''vms'' \<and> raw \<noteq> [] then vm_route m raw action else None
          | _ \<Rightarrow> None)"

text \<open>\<open>None\<close> is an answer of the framework itself: no such route, or a segment that does not decode.\<close>

definition call_handler ::
    "'w nodeos \<Rightarrow> (string \<Rightarrow> string option) \<Rightarrow> request \<Rightarrow> 'w AppState \<Rightarrow> route \<Rightarrow> (reply \<times> 'w AppState) option" where
  "call_handler no capture req app r
     = (let captured = (\<lambda>raw handler. map_option (handler no app req) (capture raw))
        in case r of
             Healthz \<Rightarrow> Some (healthz app)
           | ListVms \<Rightarrow> Some (list_vms app req)
           | CreateVm \<Rightarrow> Some (create_vm no app req)
           | PutPools \<Rightarrow> Some (put_pools no app req)
           | PrefetchImage \<Rightarrow> Some (prefetch_image no app req)
           | DeleteVm raw \<Rightarrow> captured raw delete_vm
           | Rootfs raw \<Rightarrow> captured raw vm_rootfs
           | SleepVm raw \<Rightarrow> captured raw sleep_vm_handler
           | WakeVm raw \<Rightarrow> captured raw wake_vm_handler
           | ForkVm raw \<Rightarrow> captured raw fork_vm
           | ExecVm raw \<Rightarrow> captured raw exec_vm
           | ExposeVm raw \<Rightarrow> captured raw expose_vm
           | UnexposeVm raw \<Rightarrow> captured raw unexpose_vm
           | PauseVm raw \<Rightarrow> captured raw vm_pause
           | ResumeVm raw \<Rightarrow> captured raw vm_resume
           | StopVm raw \<Rightarrow> captured raw vm_stop
           | StartVm raw \<Rightarrow> captured raw vm_start)"

definition serve ::
    "'w nodeos \<Rightarrow> (string \<Rightarrow> string option) \<Rightarrow> request \<Rightarrow> 'w AppState \<Rightarrow> reply option \<times> 'w AppState" where
  "serve no capture req app
     = (case Option.bind (build_router (rq_method req) (rq_path req)) (call_handler no capture req app) of
          Some (resp, app1) \<Rightarrow> (Some resp, app1)
        | None \<Rightarrow> (None, app))"

subsection \<open>The relayed stream\<close>

text \<open>One poll of the wrapped stream: what the reader gives, unless the deadline or the cap is reached.\<close>

datatype poll = Pending | Item string | ReadError string | Ended

definition poll_next :: "bool \<Rightarrow> poll \<Rightarrow> nat \<Rightarrow> poll \<times> nat" where
  "poll_next expired polled remaining
     = (if expired then (Ended, remaining)
        else if remaining = 0 then (Ended, remaining)
        else case polled of Item chunk \<Rightarrow> (polled, remaining - length chunk) | _ \<Rightarrow> (polled, remaining))"

text \<open>What the client is sent over a sequence of polls; \<open>Ended\<close> and an error end the stream.\<close>

fun relay :: "nat \<Rightarrow> (bool \<times> poll) list \<Rightarrow> string list" where
  "relay remaining [] = []"
| "relay remaining ((expired, polled) # ps)
     = (case poll_next expired polled remaining of
          (Ended, _) \<Rightarrow> []
        | (ReadError _, _) \<Rightarrow> []
        | (Item chunk, rem) \<Rightarrow> chunk # relay rem ps
        | (Pending, rem) \<Rightarrow> relay rem ps)"

subsection \<open>Requests are operations of the manager\<close>

text \<open>
  What any answer leaves behind: the credentials are the same, and the state of the manager is one
  that its own operations reach.
\<close>

definition kept :: "'w os \<Rightarrow> 'w AppState \<Rightarrow> reply \<times> 'w AppState \<Rightarrow> bool" where
  "kept os app p
     = (reach os (ap_mgr app) (ap_mgr (snd p)) \<and> ap_token (snd p) = ap_token app \<and> ap_node_token (snd p) = ap_node_token app)"

named_theorems served \<open>what a handler leaves behind\<close>

lemma kept_same [served]: "kept os app (resp, app)"
  by (simp add: kept_def reach_refl)

lemma kept_op: "mg = mgr_apply os op (ap_mgr app) \<Longrightarrow> kept os app (resp, app\<lparr>ap_mgr := mg\<rparr>)"
  using reach_op [OF reach_refl, of os "ap_mgr app" op] by (simp add: kept_def)

lemma kept_on_mgr: "snd (f (ap_mgr app)) = mgr_apply os op (ap_mgr app) \<Longrightarrow> kept os app (on_mgr f answer app)"
  by (simp add: on_mgr_def case_prod_beta kept_op)

lemma kept_on_world: "kept os app (on_mgr (\<lambda>mg. on_world (f mg) mg) answer app)"
  using reach_world [OF reach_refl, of os "ap_mgr app"]
  by (simp add: kept_def on_mgr_def on_world_def case_prod_beta Let_def)

lemma kept_authed: "(check_auth app req \<Longrightarrow> kept os app (k app)) \<Longrightarrow> kept os app (authed app req k)"
  by (simp add: authed_def kept_same)

lemma kept_with_id: "(valid_vm_id vid \<Longrightarrow> kept os app (k app)) \<Longrightarrow> kept os app (with_id app req vid k)"
  unfolding with_id_def by (rule kept_authed) (simp add: reject_bad_id_def kept_same)

lemma kept_simple [served]:
  "kept (no_os no) app (healthz app)"
  "kept (no_os no) app (list_vms app req)"
  "kept (no_os no) app (sleep_vm_handler no app req vid)"
  "kept (no_os no) app (wake_vm_handler no app req vid)"
  "kept (no_os no) app (vm_pause no app req vid)"
  "kept (no_os no) app (vm_resume no app req vid)"
  "kept (no_os no) app (vm_stop no app req vid)"
  "kept (no_os no) app (vm_start no app req vid)"
  "kept (no_os no) app (delete_vm no app req vid)"
  unfolding healthz_def list_vms_def sleep_vm_handler_def wake_vm_handler_def vm_pause_def vm_resume_def vm_stop_def
    vm_start_def delete_vm_def
          apply (rule kept_same)
         apply (intro kept_authed kept_same)
        apply (intro kept_with_id kept_on_mgr [where op = "OpSleep vid"], simp)
       apply (intro kept_with_id kept_on_mgr [where op = "OpWake vid"], simp)
      apply (intro kept_with_id kept_on_mgr [where op = "OpPause vid"], simp)
     apply (intro kept_with_id kept_on_mgr [where op = "OpResume vid"], simp)
    apply (intro kept_with_id kept_on_mgr [where op = "OpStop vid"], simp)
   apply (intro kept_with_id kept_on_mgr [where op = "OpStart vid"], simp)
  apply (intro kept_with_id kept_on_mgr [where op = "OpDelete vid"], simp)
  done

lemma kept_create [served]: "kept (no_os no) app (create_vm no app req)"
  unfolding create_vm_def
proof (rule kept_authed)
  show "kept (no_os no) app
      (case json_body no req of Inl resp \<Rightarrow> (resp, app)
       | Inr v \<Rightarrow> (case create_spec v of Inl resp \<Rightarrow> (resp, app)
         | Inr spec \<Rightarrow> (case create (no_os no) spec (ap_mgr app) of
              (Inr _, mg) \<Rightarrow> (ip_reply no (ip_of (mg_vms mg) (cs_id spec)), app\<lparr>ap_mgr := mg\<rparr>)
            | (Inl e, mg) \<Rightarrow> (error_response no 500 e, app\<lparr>ap_mgr := mg\<rparr>))))"
  proof (cases "json_body no req")
    case (Inr v)
    show ?thesis
    proof (cases "create_spec v")
      case (Inr spec)
      have m: "mg = mgr_apply (no_os no) (OpCreate spec) (ap_mgr app)" if "create (no_os no) spec (ap_mgr app) = (r, mg)" for r mg
        using that by simp
      show ?thesis
        using \<open>json_body no req = Inr v\<close> Inr
        by (auto split: prod.splits sum.splits intro!: kept_op [OF m])
    qed (simp add: \<open>json_body no req = Inr v\<close> kept_same)
  qed (simp add: kept_same)
qed

lemma kept_fork [served]: "kept (no_os no) app (fork_vm no app req vid)"
  unfolding fork_vm_def
  by (rule kept_with_id)
    (auto split: sum.splits option.splits intro: kept_same kept_on_mgr [where op = "OpFork vid c n" for c n])

lemma kept_exec [served]: "kept (no_os no) app (exec_vm no app req vid)"
  unfolding exec_vm_def Let_def
  by (rule kept_with_id)
    (auto split: sum.splits option.splits intro: kept_same kept_on_mgr [where op = "OpExec vid c n" for c n]
      kept_on_mgr [where op = "OpExecStream vid c n" for c n])

lemma kept_ports [served]:
  "kept (no_os no) app (expose_vm no app req vid)" "kept (no_os no) app (unexpose_vm no app req vid)"
  unfolding expose_vm_def unexpose_vm_def
  by (rule kept_with_id; auto split: sum.splits
        intro: kept_same kept_on_mgr [where op = "OpExpose vid p" for p] kept_on_mgr [where op = "OpUnexpose vid p" for p])+

lemma kept_rootfs [served]: "kept (no_os no) app (vm_rootfs no app req vid)"
  unfolding vm_rootfs_def
proof (rule kept_with_id)
  let ?mg = "snd (begin_capture vid (ap_mgr app))"
  have b: "reach (no_os no) (ap_mgr app) ?mg" using reach_op [OF reach_refl, of "no_os no" "ap_mgr app" "OpBeginCapture vid"] by simp
  then have e: "reach (no_os no) (ap_mgr app) (end_capture vid ?mg)" using reach_op [OF b, of "OpEndCapture vid"] by simp
  obtain r mg where r: "begin_capture vid (ap_mgr app) = (r, mg)" by (rule prod.exhaust)
  then show "kept (no_os no) app
      (case begin_capture vid (ap_mgr app) of
           (Inl RootfsNotFound, mg) \<Rightarrow> (json_response 404 (error_text ''not found''), app\<lparr>ap_mgr := mg\<rparr>)
         | (Inl NotStopped, mg) \<Rightarrow> (json_response 409 (error_text ''not stopped''), app\<lparr>ap_mgr := mg\<rparr>)
         | (Inl CaptureInProgress, mg) \<Rightarrow> (json_response 409 (error_text ''capture in progress''), app\<lparr>ap_mgr := mg\<rparr>)
         | (Inr path, mg) \<Rightarrow>
             if no_openable no path (mg_world mg) \<noteq> None then
               (json_response 404 (error_text ''not found''), app\<lparr>ap_mgr := end_capture vid mg\<rparr>)
             else
               (case os_len (no_os no) path (mg_world mg) of
                  Inl _ \<Rightarrow> (json_response 500 (error_text ''stat failed''), app\<lparr>ap_mgr := end_capture vid mg\<rparr>)
                | Inr len \<Rightarrow>
                    (\<lparr>rp_status = 200, rp_type = Some ''application/octet-stream'', rp_content = FileStream vid path len\<rparr>,
                     app\<lparr>ap_mgr := mg\<rparr>)))"
    using b e by (auto simp: kept_def split: sum.splits RootfsError.splits)
qed

lemma kept_pools [served]: "kept (no_os no) app (put_pools no app req)"
  unfolding put_pools_def
  by (rule kept_authed)
    (auto split: sum.splits option.splits intro: kept_same kept_on_mgr [where op = "OpSetPools s" for s])

lemma kept_prefetch [served]: "kept (no_os no) app (prefetch_image no app req)"
  unfolding prefetch_image_def
  by (rule kept_authed) (auto split: sum.splits option.splits intro: kept_same kept_on_world)

lemma kept_call: "call_handler no capture req app r = Some p \<Longrightarrow> kept (no_os no) app p"
  by (cases r) (auto simp: call_handler_def Let_def served)

lemma kept_serve: "kept (no_os no) app (resp, snd (serve no capture req app))"
  using kept_call [of no capture req app]
  by (auto simp: serve_def kept_same split: option.splits bind_splits)
    (simp add: kept_def)

text \<open>
  A node that serves: requests, dropped streams, the background loops, processes that exit, a
  rotated credential of the node, and changes of the outside world, in any order.
\<close>

inductive serving :: "'w nodeos \<Rightarrow> (string \<Rightarrow> string option) \<Rightarrow> 'w AppState \<Rightarrow> 'w AppState \<Rightarrow> bool" for no capture app0 where
  serving_refl: "serving no capture app0 app0"
| serving_request: "serving no capture app0 app \<Longrightarrow> serving no capture app0 (snd (serve no capture req app))"
| serving_drop: "serving no capture app0 app \<Longrightarrow> serving no capture app0 (drop_capture vid app)"
| serving_background: "serving no capture app0 app \<Longrightarrow> op \<in> {OpSweepDead, OpPoolTick n, OpFcExit vid pid} \<Longrightarrow>
    serving no capture app0 (app\<lparr>ap_mgr := mgr_apply (no_os no) op (ap_mgr app)\<rparr>)"
| serving_rotate: "serving no capture app0 app \<Longrightarrow> serving no capture app0 (app\<lparr>ap_node_token := t\<rparr>)"
| serving_world: "serving no capture app0 app \<Longrightarrow>
    serving no capture app0 (app\<lparr>ap_mgr := (ap_mgr app)\<lparr>mg_host := (mg_host (ap_mgr app))\<lparr>h_world := w\<rparr>\<rparr>\<rparr>)"

lemma reach_trans: "reach os b c \<Longrightarrow> reach os a b \<Longrightarrow> reach os a c"
  by (induction rule: reach.induct) (auto intro: reach.intros)

lemma serving_reach:
  assumes "serving no capture app0 app"
  shows "reach (no_os no) (ap_mgr app0) (ap_mgr app) \<and> ap_token app = ap_token app0"
  using assms
proof (induction rule: serving.induct)
  case (serving_request app req)
  have "kept (no_os no) app (unauthorized, snd (serve no capture req app))" by (rule kept_serve)
  then show ?case using serving_request.IH reach_trans by (auto simp: kept_def)
next
  case (serving_drop app vid)
  then show ?case using reach_op [of "no_os no" "ap_mgr app0" "ap_mgr app" "OpEndCapture vid"] by (simp add: drop_capture_def)
qed (auto intro: reach_refl reach_op reach_world)

subsection \<open>The gate comes first\<close>

lemma authed_denied: "\<not> check_auth app req \<Longrightarrow> authed app req k = (unauthorized, app)"
  by (simp add: authed_def)

lemma with_id_denied: "\<not> check_auth app req \<Longrightarrow> with_id app req vid k = (unauthorized, app)"
  by (simp add: with_id_def authed_denied)

lemmas handler_defs = list_vms_def create_vm_def sleep_vm_handler_def wake_vm_handler_def fork_vm_def exec_vm_def
  expose_vm_def unexpose_vm_def vm_pause_def vm_resume_def vm_stop_def vm_start_def delete_vm_def vm_rootfs_def
  put_pools_def prefetch_image_def

lemma call_denied:
  assumes "\<not> check_auth app req" "call_handler no capture req app r = Some (resp, app')" "r \<noteq> Healthz"
  shows "resp = unauthorized \<and> app' = app"
  using assms by (cases r) (auto simp: call_handler_def Let_def handler_defs authed_denied with_id_denied)

lemma router_healthz: "build_router m path = Some Healthz \<Longrightarrow> path = [''healthz'']"
  by (auto simp: build_router_def vm_route_def split: if_splits list.splits)

text \<open>
  C3. The gate comes before everything else.  Whatever the method, the path, the body and the
  state: a request that any route but the liveness probe answers, and that carries neither the
  shared token nor the token of the node as its bearer, or a token that is empty, gets the
  answer 401 and changes nothing; and the probe never changes anything.
\<close>

theorem unauthorised_changes_nothing:
  assumes "serve no capture req app = (Some resp, app')"
    and "\<nexists>token. token \<in> {ap_token app, ap_node_token app} \<and> token \<noteq> []
           \<and> rq_authorization req = Some (''Bearer '' @ token)"
  shows "app' = app \<and> (rq_path req \<noteq> [''healthz''] \<longrightarrow> resp = json_response 401 (error_text ''unauthorized''))"
proof -
  have deny: "\<not> check_auth app req"
    using assms(2) by (auto simp: check_auth_def authorized_either_def authorized_iff)
  obtain r where r: "build_router (rq_method req) (rq_path req) = Some r" "call_handler no capture req app r = Some (resp, app')"
    using assms(1) by (auto simp: serve_def split: option.splits bind_splits)
  show ?thesis
  proof (cases "r = Healthz")
    case True
    then show ?thesis using r router_healthz [of "rq_method req" "rq_path req"] by (auto simp: call_handler_def healthz_def)
  next
    case False
    then show ?thesis using call_denied [OF deny r(2)] by (simp add: unauthorized_def)
  qed
qed

lemma with_id_rejected: "check_auth app req \<Longrightarrow> \<not> valid_vm_id vid \<Longrightarrow> with_id app req vid k = (bad_request ''invalid id'', app)"
  by (simp add: with_id_def authed_def reject_bad_id_def)

definition route_id :: "route \<Rightarrow> string option" where
  "route_id r
     = (case r of DeleteVm raw \<Rightarrow> Some raw | Rootfs raw \<Rightarrow> Some raw | SleepVm raw \<Rightarrow> Some raw | WakeVm raw \<Rightarrow> Some raw
        | ForkVm raw \<Rightarrow> Some raw | ExecVm raw \<Rightarrow> Some raw | ExposeVm raw \<Rightarrow> Some raw | UnexposeVm raw \<Rightarrow> Some raw
        | PauseVm raw \<Rightarrow> Some raw | ResumeVm raw \<Rightarrow> Some raw | StopVm raw \<Rightarrow> Some raw | StartVm raw \<Rightarrow> Some raw
        | _ \<Rightarrow> None)"

lemma call_rejected:
  assumes "check_auth app req" "route_id r = Some raw" "capture raw = Some vid" "\<not> valid_vm_id vid"
  shows "call_handler no capture req app r = Some (bad_request ''invalid id'', app)"
  using assms by (cases r) (simp_all add: route_id_def call_handler_def Let_def handler_defs with_id_rejected)

lemma router_id:
  assumes "build_router m path = Some r" "length path \<ge> 3" "path \<noteq> [''v1'', ''images'', ''prefetch'']"
  shows "route_id r = Some (path ! 2)"
  using assms by (auto simp: build_router_def vm_route_def route_id_def split: if_splits list.splits)

text \<open>
  C17. No path leaves the instances directory over the wire.  A request for a machine whose decoded
  identifier is not a plain component, such as one with a slash or made of dots, is answered by
  400, or by 401 before that, on every route and with every method, and changes nothing.
\<close>

theorem bad_identifiers_rejected:
  assumes "serve no capture req app = (Some resp, app')" "rq_path req = ''v1'' # ''vms'' # raw # rest"
    and "capture raw = Some vid" "\<not> valid_vm_id vid"
  shows "app' = app \<and> rp_status resp \<in> {400, 401}"
proof -
  obtain r where r: "build_router (rq_method req) (rq_path req) = Some r" "call_handler no capture req app r = Some (resp, app')"
    using assms(1) by (auto simp: serve_def split: option.splits bind_splits)
  have i: "route_id r = Some raw" using router_id [OF r(1)] assms(2) by simp
  show ?thesis
  proof (cases "check_auth app req")
    case True
    then show ?thesis
      using call_rejected [where capture = capture, OF True i assms(3,4), of no] r(2) by (simp add: bad_request_def json_response_def)
  next
    case False
    have "r \<noteq> Healthz" using i by (auto simp: route_id_def)
    then show ?thesis using call_denied [OF False r(2)] by (simp add: unauthorized_def json_response_def)
  qed
qed

subsection \<open>Answers are JSON\<close>

definition well_formed :: "reply \<Rightarrow> bool" where
  "well_formed resp
     = (case rp_content resp of
          Sized b \<Rightarrow>
            (case rp_type resp of None \<Rightarrow> b = [] | Some t \<Rightarrow> t = ''application/json'' \<and> (\<exists>v. parse_json b = Some v))
        | _ \<Rightarrow> rp_status resp = 200 \<and> rp_type resp \<notin> {None, Some ''application/json''})"

lemma parse_printed: "b = print_json v \<Longrightarrow> \<exists>v. parse_json b = Some v"
  by (simp add: parse_print_json)

lemma well_formed_json: "b = print_json v \<Longrightarrow> well_formed (json_response st b)"
  using parse_printed by (auto simp: well_formed_def json_response_def)

lemma error_text_print: "plain_json msg \<Longrightarrow> error_text msg = print_json (JObj [(''error'', JStr msg)])"
  by (simp add: error_text_def jkey_plain plain_json_def json_str_plain [unfolded plain_json_def])

lemma well_formed_error: "plain_json msg \<Longrightarrow> well_formed (json_response st (error_text msg))"
  by (rule well_formed_json [OF error_text_print])

lemma well_formed_bad: "plain_json msg \<Longrightarrow> well_formed (bad_request msg)"
  by (simp add: bad_request_def well_formed_error)

definition prints_json :: "'w nodeos \<Rightarrow> bool" where
  "prints_json no = (\<forall>v. parse_json (os_show_json (no_os no) v) = Some v)"

named_theorems wf_reply \<open>answers with a well-formed body\<close>

lemma wf_texts [wf_reply]:
  "well_formed (json_response st ok_text)"
  "well_formed (json_response st (ok_with ''wake_ms'' (show_nat n)))"
  "well_formed (json_response st (ok_with ''isolation'' (show_bool b)))"
  "well_formed (json_response st (port_text np))"
  "well_formed (json_response st (list_json vms))"
  "well_formed (empty_response st)"
proof -
  show "well_formed (json_response st ok_text)"
    by (rule well_formed_json [of _ "JObj [(''ok'', JBool True)]"]) (simp add: ok_text_def jkey_plain plain_json_def show_bool_def)
  show "well_formed (json_response st (ok_with ''wake_ms'' (show_nat n)))"
    by (rule well_formed_json [of _ "JObj [(''ok'', JBool True), (''wake_ms'', JNum (int n))]"])
      (simp add: ok_with_def jkey_plain plain_json_def show_int_def show_bool_def)
  show "well_formed (json_response st (ok_with ''isolation'' (show_bool b)))"
    by (rule well_formed_json [of _ "JObj [(''ok'', JBool True), (''isolation'', JBool b)]"])
      (simp add: ok_with_def jkey_plain plain_json_def show_bool_def)
  show "well_formed (json_response st (port_text np))"
    by (rule well_formed_json [of _ "JObj [(''node_port'', jword np)]"]) (simp add: port_text_def jkey_plain plain_json_def)
  show "well_formed (json_response st (list_json vms))" by (rule well_formed_json [OF list_json_print])
  show "well_formed (empty_response st)" by (simp add: well_formed_def empty_response_def)
qed

lemma wf_errors [wf_reply]:
  "well_formed unauthorized"
  "well_formed (json_response st (error_text ''not found''))"
  "well_formed (json_response st (error_text ''no ip''))"
  "well_formed (json_response st (error_text ''ports exhausted''))"
  "well_formed (json_response st (error_text ''not stopped''))"
  "well_formed (json_response st (error_text ''capture in progress''))"
  "well_formed (json_response st (error_text ''stat failed''))"
  "well_formed (json_response st (error_text ''not running''))"
  "well_formed (json_response st (error_text ''guest agent unavailable''))"
  "well_formed (json_response st (error_text ''NotFound''))"
  "well_formed (bad_request ''invalid id'')"
  "well_formed (bad_request ''bad request'')"
  "well_formed (bad_request ''bad json'')"
  "well_formed (bad_request ''id required'')"
  "well_formed (bad_request ''cmd required'')"
  "well_formed (bad_request ''guest_port required'')"
  "well_formed (bad_request ''invalid image'')"
  "well_formed (bad_request ''invalid image_sha256'')"
  "well_formed (bad_request ''disk_gb above cap (128)'')"
  unfolding unauthorized_def
  by (intro well_formed_error well_formed_bad; simp add: plain_json_def)+

lemma wf_shown: "prints_json no \<Longrightarrow> well_formed (json_response st (os_show_json (no_os no) v))"
  by (simp add: prints_json_def well_formed_def json_response_def)

lemma wf_serde:
  assumes "prints_json no"
  shows "well_formed (error_response no st msg)" "well_formed (ip_reply no ip)"
  using wf_shown [OF assms] by (simp_all add: error_response_def ip_reply_def)

lemma wf_internal: "prints_json no \<Longrightarrow> (\<And>x. well_formed (answer x)) \<Longrightarrow> well_formed (internal no answer r)"
  by (simp add: internal_def wf_serde split: sum.splits)

lemma wf_conflict: "prints_json no \<Longrightarrow> well_formed (conflict_or_internal no r)"
  by (simp add: conflict_or_internal_def wf_serde wf_reply split: sum.splits)

lemma wf_exec_reply: "(\<And>x. well_formed (answer x)) \<Longrightarrow> well_formed (exec_reply answer r)"
  by (simp add: exec_reply_def wf_reply split: ExecOutcome.splits)

lemma wf_authed: "(\<And>app. well_formed (fst (k app))) \<Longrightarrow> well_formed (fst (authed app req k))"
  by (simp add: authed_def wf_reply)

lemma wf_with_id: "(\<And>app. well_formed (fst (k app))) \<Longrightarrow> well_formed (fst (with_id app req vid k))"
  by (simp add: with_id_def wf_authed reject_bad_id_def wf_reply)

lemma wf_on_mgr: "(\<And>r. well_formed (answer r)) \<Longrightarrow> well_formed (fst (on_mgr f answer app))"
  by (simp add: on_mgr_def case_prod_beta)

lemma wf_bodies:
  "json_body no req = Inl resp \<Longrightarrow> well_formed resp" "json_slice no req = Inl resp \<Longrightarrow> well_formed resp"
  "parse_guest_port no req = Inl resp \<Longrightarrow> well_formed resp" "create_sha v = Inl resp \<Longrightarrow> well_formed resp"
  "create_spec v = Inl resp \<Longrightarrow> well_formed resp"
proof -
  show b: "json_body no req = Inl resp \<Longrightarrow> well_formed resp" for resp
    by (auto simp: json_body_def wf_reply split: option.splits if_splits sum.splits)
  show "json_slice no req = Inl resp \<Longrightarrow> well_formed resp"
    by (auto simp: json_slice_def wf_reply split: option.splits if_splits sum.splits)
  show "parse_guest_port no req = Inl resp \<Longrightarrow> well_formed resp"
    using b by (auto simp: parse_guest_port_def wf_reply split: option.splits if_splits sum.splits)
  show c: "create_sha v = Inl resp \<Longrightarrow> well_formed resp" for resp
    by (auto simp: create_sha_def wf_reply split: option.splits if_splits json.splits)
  show "create_spec v = Inl resp \<Longrightarrow> well_formed resp"
    using c by (auto simp: create_spec_def wf_reply reject_bad_id_def Let_def split: option.splits if_splits sum.splits)
qed

lemma wf_streams [wf_reply]:
  "well_formed \<lparr>rp_status = 200, rp_type = Some ''application/x-ndjson'', rp_content = GuestStream g d n\<rparr>"
  "well_formed \<lparr>rp_status = 200, rp_type = Some ''application/octet-stream'', rp_content = FileStream v p len\<rparr>"
  by (simp_all add: well_formed_def)

lemma wf_simple_handlers:
  assumes "prints_json no"
  shows "well_formed (fst (healthz app))" "well_formed (fst (list_vms app req))"
    "well_formed (fst (sleep_vm_handler no app req vid))" "well_formed (fst (wake_vm_handler no app req vid))"
    "well_formed (fst (vm_pause no app req vid))" "well_formed (fst (vm_resume no app req vid))"
    "well_formed (fst (vm_stop no app req vid))" "well_formed (fst (vm_start no app req vid))"
    "well_formed (fst (delete_vm no app req vid))"
  using assms
  by (auto simp: healthz_def handler_defs wf_reply intro!: wf_authed wf_with_id wf_on_mgr wf_internal wf_conflict)

lemma wf_body_handlers:
  assumes "prints_json no"
  shows "well_formed (fst (create_vm no app req))" "well_formed (fst (fork_vm no app req vid))"
    "well_formed (fst (exec_vm no app req vid))" "well_formed (fst (expose_vm no app req vid))"
    "well_formed (fst (unexpose_vm no app req vid))" "well_formed (fst (vm_rootfs no app req vid))"
    "well_formed (fst (put_pools no app req))" "well_formed (fst (prefetch_image no app req))"
proof -
  note s = wf_serde [OF assms] wf_shown [OF assms] wf_reply wf_bodies
  show "well_formed (fst (create_vm no app req))"
    unfolding create_vm_def by (rule wf_authed) (auto simp: s split: sum.splits prod.splits)
  show "well_formed (fst (fork_vm no app req vid))"
    unfolding fork_vm_def
    by (rule wf_with_id) (auto simp: s reject_bad_id_def intro!: wf_on_mgr wf_internal [OF assms] split: sum.splits option.splits)
  show "well_formed (fst (exec_vm no app req vid))"
    unfolding exec_vm_def Let_def
    by (rule wf_with_id) (auto simp: s intro!: wf_on_mgr wf_exec_reply split: sum.splits option.splits)
  show "well_formed (fst (expose_vm no app req vid))"
    unfolding expose_vm_def
    by (rule wf_with_id) (auto simp: s intro!: wf_on_mgr split: sum.splits ExposeError.splits)
  show "well_formed (fst (unexpose_vm no app req vid))"
    unfolding unexpose_vm_def
    by (rule wf_with_id) (auto simp: s intro!: wf_on_mgr split: sum.splits ExposeError.splits)
  show "well_formed (fst (vm_rootfs no app req vid))"
    unfolding vm_rootfs_def
    by (rule wf_with_id) (auto simp: s split: prod.splits sum.splits RootfsError.splits)
  show "well_formed (fst (put_pools no app req))"
    unfolding put_pools_def
    by (rule wf_authed) (auto simp: s intro!: wf_on_mgr split: sum.splits option.splits)
  show "well_formed (fst (prefetch_image no app req))"
    unfolding prefetch_image_def
    by (rule wf_authed) (auto simp: s intro!: wf_on_mgr split: sum.splits option.splits)
qed

text \<open>
  C16. Every answer of the API has the type its header claims.  Whatever the request and the state,
  an answer sent whole is either empty without a type, or a complete JSON document with the type
  of JSON, even where it repeats names, paths or messages; and the two streams answer 200 with a
  type of their own.
\<close>

theorem answers_are_well_formed:
  assumes "prints_json no" "serve no capture req app = (Some resp, app')"
  shows "case rp_content resp of
           Sized b \<Rightarrow> (rp_type resp = None \<and> b = [])
             \<or> (rp_type resp = Some ''application/json'' \<and> (\<exists>v. parse_json b = Some v))
         | GuestStream g deadline cap \<Rightarrow> rp_status resp = 200 \<and> rp_type resp \<notin> {None, Some ''application/json''}
         | FileStream vid path len \<Rightarrow> rp_status resp = 200 \<and> rp_type resp \<notin> {None, Some ''application/json''}"
proof -
  obtain r where r: "call_handler no capture req app r = Some (resp, app')"
    using assms(2) by (auto simp: serve_def split: option.splits bind_splits)
  have f: "h = (resp, app') \<Longrightarrow> well_formed (fst h) \<Longrightarrow> well_formed resp" for h by simp
  have "well_formed resp"
    using r wf_simple_handlers [OF assms(1)] wf_body_handlers [OF assms(1)]
    by (cases r) (auto simp: call_handler_def Let_def elim!: f)
  then show ?thesis by (auto simp: well_formed_def split: Body.splits option.splits)
qed

subsection \<open>The relay\<close>

definition items :: "(bool \<times> poll) list \<Rightarrow> string list" where
  "items ps = List.map_filter (\<lambda>(_, p). case p of Item c \<Rightarrow> Some c | _ \<Rightarrow> None) ps"

lemma items_simps [simp]:
  "items [] = []"
  "items ((e, p) # ps) = (case p of Item c \<Rightarrow> c # items ps | _ \<Rightarrow> items ps)"
  by (simp_all add: items_def map_filter_def split: poll.splits)

lemma relay_prefix: "\<exists>rest. items ps = relay remaining ps @ rest"
proof (induction remaining ps rule: relay.induct)
  case (2 remaining expired polled ps)
  show ?case
  proof (cases "expired \<or> remaining = 0")
    case True
    then show ?thesis by (auto simp: poll_next_def)
  next
    case False
    then show ?thesis using 2 by (cases polled) (auto simp: poll_next_def)
  qed
qed simp

lemma relay_spent [simp]: "relay 0 ps = []"
  by (cases ps) (auto simp: poll_next_def)

lemma relay_bound:
  "\<forall>c\<in>set (items ps). length c \<le> m \<Longrightarrow> 0 < m \<Longrightarrow> length (concat (relay remaining ps)) < remaining + m"
proof (induction ps arbitrary: remaining)
  case (Cons p ps)
  obtain expired polled where p: "p = (expired, polled)" by (cases p)
  show ?case
  proof (cases "expired \<or> remaining = 0")
    case True
    then show ?thesis using Cons.prems p by (auto simp: poll_next_def)
  next
    case False
    show ?thesis
    proof (cases polled)
      case (Item c)
      have "length c \<le> m" "length (concat (relay (remaining - length c) ps)) < remaining - length c + m"
        using Cons p Item by simp_all
      then show ?thesis using False Item p by (cases "length c < remaining") (auto simp: poll_next_def)
    qed (use Cons p False in \<open>auto simp: poll_next_def\<close>)
  qed
qed simp

lemma relay_all:
  assumes "length (concat (items ps)) \<le> remaining"
    and "\<forall>(expired, polled)\<in>set ps. \<not> expired \<and> polled \<noteq> Ended \<and> (\<nexists>e. polled = ReadError e)"
    and "[] \<notin> set (items ps)"
  shows "relay remaining ps = items ps"
  using assms
proof (induction ps arbitrary: remaining)
  case (Cons p ps)
  obtain expired polled where p: "p = (expired, polled)" by (cases p)
  show ?case
  proof (cases "remaining = 0")
    case True
    then have "\<forall>c\<in>set (items (p # ps)). c = []" using Cons.prems(1) by simp
    then have "items (p # ps) = []" using Cons.prems(3) by (cases "items (p # ps)") auto
    then show ?thesis using True by simp
  next
    case False
    then show ?thesis using Cons p by (cases polled) (auto simp: poll_next_def)
  qed
qed simp

text \<open>
  C18. The relay of a streamed execution is bounded and honest.  Whatever the guest sends and
  however the deadline falls: the client is sent whole chunks, in order and from the first on,
  and fewer than 64 MiB plus one chunk; and when the guest sends at most 64 MiB and neither the
  deadline nor an error intervenes, everything is sent.
\<close>

theorem relay_bounded_and_faithful:
  assumes "\<forall>c\<in>set (items ps). c \<noteq> [] \<and> length c \<le> chunk" "0 < chunk"
  shows "(\<exists>rest. items ps = relay MAX_STREAM_BYTES ps @ rest)
         \<and> length (concat (relay MAX_STREAM_BYTES ps)) < MAX_STREAM_BYTES + chunk
         \<and> (length (concat (items ps)) \<le> MAX_STREAM_BYTES
              \<and> (\<forall>(expired, polled)\<in>set ps. \<not> expired \<and> polled \<noteq> Ended \<and> (\<nexists>e. polled = ReadError e))
            \<longrightarrow> relay MAX_STREAM_BYTES ps = items ps)"
proof -
  have "relay MAX_STREAM_BYTES ps = items ps"
    if "length (concat (items ps)) \<le> MAX_STREAM_BYTES"
      "\<forall>(expired, polled)\<in>set ps. \<not> expired \<and> polled \<noteq> Ended \<and> (\<nexists>e. polled = ReadError e)"
    by (rule relay_all [OF that]) (use assms(1) in auto)
  moreover have "length (concat (relay MAX_STREAM_BYTES ps)) < MAX_STREAM_BYTES + chunk"
    by (rule relay_bound) (use assms in auto)
  ultimately show ?thesis using relay_prefix [of ps MAX_STREAM_BYTES] by blast
qed

theorem relay_bounded_and_faithful_witness:
  "relay MAX_STREAM_BYTES [(False, Item ''ab''), (False, Pending), (False, Item ''c'')] = [''ab'', ''c'']"
  using relay_bounded_and_faithful [of "[(False, Item ''ab''), (False, Pending), (False, Item ''c'')]" 4096]
  by (simp add: MAX_STREAM_BYTES_def)

subsection \<open>Requests refine the manager\<close>


subsection \<open>A calm node\<close>

definition calm_node :: "(string + u32 option) \<Rightarrow> unit nodeos" where
  "calm_node sp
     = \<lparr>no_os = calm_os sp, no_lstat = (\<lambda>_ _. LMissing), no_read = (\<lambda>_ _. Missing), no_put = (\<lambda>_ _ w. (Inr (), w)),
        no_sync = (\<lambda>_ w. (Inr (), w)), no_openable = (\<lambda>_ _. None), no_tcp = (\<lambda>_ _ w. (ReadFailed ''down'', w)),
        no_shape_error = (\<lambda>_. ''shape''), no_pretty = print_json, no_local_addr = (\<lambda>_ _. Some ''192.0.2.7''),
        no_listen = (\<lambda>_ w. (Inr (), w))\<rparr>"

definition calm_app :: "unit AppState" where
  "calm_app = \<lparr>ap_mgr = calm_boot, ap_token = ''s3cret-s3cret-16'', ap_node_token = []\<rparr>"

definition plain_request :: "string \<Rightarrow> string list \<Rightarrow> string option \<Rightarrow> request" where
  "plain_request m path auth = \<lparr>rq_method = m, rq_path = path, rq_authorization = auth, rq_body = Some []\<rparr>"

lemma calm_prints_json: "prints_json (calm_node sp)"
  by (simp add: prints_json_def calm_node_def calm_os_def parse_print_json)

theorem unauthorised_changes_nothing_witness:
  "serve (calm_node (Inr (Some 7))) Some (plain_request ''GET'' [''v1'', ''vms''] (Some ''Bearer '')) calm_app
     = (Some (json_response 401 (error_text ''unauthorized'')), calm_app)"
proof -
  let ?req = "plain_request ''GET'' [''v1'', ''vms''] (Some ''Bearer '')"
  have r: "build_router ''GET'' [''v1'', ''vms''] = Some ListVms" by (simp add: build_router_def is_get_def)
  obtain resp app' where s: "serve (calm_node (Inr (Some 7))) Some ?req calm_app = (Some resp, app')"
    using r by (cases "list_vms calm_app ?req") (simp add: serve_def plain_request_def call_handler_def)
  from unauthorised_changes_nothing [OF s] have "app' = calm_app \<and> resp = json_response 401 (error_text ''unauthorized'')"
    by (simp add: calm_app_def plain_request_def)
  then show ?thesis using s by simp
qed

theorem bad_identifiers_rejected_witness:
  "\<exists>resp. serve (calm_node (Inr (Some 7))) (\<lambda>_. Some ''../etc'')
             (plain_request ''DELETE'' [''v1'', ''vms'', ''..%2Fetc''] (Some ''Bearer s3cret-s3cret-16'')) calm_app
           = (Some resp, calm_app) \<and> rp_status resp \<in> {400, 401}"
proof -
  let ?req = "plain_request ''DELETE'' [''v1'', ''vms'', ''..%2Fetc''] (Some ''Bearer s3cret-s3cret-16'')"
  let ?serve = "serve (calm_node (Inr (Some 7))) (\<lambda>_. Some ''../etc'') ?req calm_app"
  have r: "build_router ''DELETE'' [''v1'', ''vms'', ''..%2Fetc''] = Some (DeleteVm ''..%2Fetc'')"
    by (simp add: build_router_def is_get_def)
  obtain resp app' where s: "?serve = (Some resp, app')"
    using r by (cases "delete_vm (calm_node (Inr (Some 7))) calm_app ?req ''../etc''")
      (simp add: serve_def plain_request_def call_handler_def)
  have "\<not> valid_vm_id ''../etc''" by (simp add: valid_vm_id_def vm_id_char_def ascii_defs)
  from bad_identifiers_rejected [OF s _ _ this] show ?thesis using s by (simp add: plain_request_def)
qed

theorem answers_are_well_formed_witness:
  "\<exists>b v. rp_content (the (fst (serve (calm_node (Inr (Some 7))) Some
        (plain_request ''GET'' [''healthz''] None) calm_app))) = Sized b \<and> parse_json b = Some v"
proof -
  let ?req = "plain_request ''GET'' [''healthz''] None" and ?no = "calm_node (Inr (Some 7))"
  have r: "build_router ''GET'' [''healthz''] = Some Healthz" by (simp add: build_router_def is_get_def)
  then have s: "serve ?no Some ?req calm_app = (Some (fst (healthz calm_app)), calm_app)"
    by (simp add: serve_def plain_request_def call_handler_def healthz_def)
  obtain b where b: "rp_content (fst (healthz calm_app)) = Sized b" "rp_type (fst (healthz calm_app)) \<noteq> None"
    by (simp add: healthz_def json_response_def)
  from answers_are_well_formed [OF calm_prints_json s] b obtain v where "parse_json b = Some v" by auto
  then show ?thesis using s b by auto
qed


end
