(* ===== verification/Agent_Boot.thy ===== *)
theory Agent_Boot
  imports Wg Server
begin

text \<open>
  The start of the agent (\<open>main\<close> in \<open>agent/src/main.rs\<close>): configuration and credentials, the overlay,
  the addresses, the manager with its fences, and the sockets.  The left result is a message with
  which the process ends.  Logging and the spawning of the background loops are left out; what
  the loops do are steps of \<open>serving\<close> and of \<open>Registration\<close>.
\<close>

subsection \<open>Credentials\<close>

definition boot_credentials ::
    "'w nodeos \<Rightarrow> string list \<Rightarrow> (string \<Rightarrow> string option) \<Rightarrow> 'w \<Rightarrow> string + Config \<times> string" where
  "boot_credentials no args env w
     = (case load no args env w of
          Inl e \<Rightarrow> Inl e
        | Inr cfg \<Rightarrow>
            (case validate_token (c_token cfg) of
               Inl e \<Rightarrow> Inl (''auth token: '' @ e)
             | Inr _ \<Rightarrow>
                 (case load_node_token no (c_data_dir cfg) w of
                    Inl e \<Rightarrow> Inl (''node token: '' @ e)
                  | Inr None \<Rightarrow> Inr (cfg, [])
                  | Inr (Some t) \<Rightarrow> Inr (cfg, t))))"

subsection \<open>The overlay\<close>

text \<open>\<open>elapsed\<close> says that the 30 seconds around the exchange ran out.\<close>

definition first_join :: "'w nodeos \<Rightarrow> bool \<Rightarrow> Config \<Rightarrow> ('w Node, JoinInfo) step" where
  "first_join no elapsed cfg nd
     = (let d = c_data_dir cfg;
            (key, w) = ensure_key no (key_path d) (nd_world nd);
            nd = nd\<lparr>nd_world := w\<rparr> in
        case key of
          Inl e \<Rightarrow> (Inl (''wg key: '' @ e), nd)
        | Inr pubkey \<Rightarrow>
            let (r, w) = join no (c_join_url cfg) (c_join_token cfg) pubkey (read_hostname no (nd_world nd)) (nd_world nd);
                nd = nd\<lparr>nd_world := w\<rparr> in
            case (if elapsed then Inl ''timed out after 30s'' else r) of
              Inl e \<Rightarrow>
                (Inl (if contains_str ''status 401'' e
                      then ''wg join (this node'' @ [CHR 0x27] @ ''s key file may already be enrolled '' @ emdash
                           @ '' mint a fresh token, or restore wg.json): '' @ e
                      else ''wg join: '' @ e), nd)
            | Inr info \<Rightarrow>
                let (saved, w) = save_state no d info (nd_world nd);
                    nd = nd\<lparr>nd_world := w\<rparr> in
                case saved of
                  Inl e \<Rightarrow> (Inl (''wg joined but state not persisted: '' @ e), nd)
                | Inr _ \<Rightarrow>
                    if agent_token info = [] then (Inr info, nd)
                    else
                      attempt (map_err (\<lambda>e. ''wg joined but node credential unusable: '' @ e)
                                 (adopt_node_token no d (agent_token info) nd)) (\<lambda>_ nd. (Inr info, nd)))"

definition boot_overlay :: "'w nodeos \<Rightarrow> bool \<Rightarrow> Config \<Rightarrow> ('w Node, JoinInfo option) step" where
  "boot_overlay no elapsed cfg nd
     = (if (c_join_url cfg = []) \<noteq> (c_join_token cfg = []) then (Inl ''--join and --join-token must be set together'', nd)
        else
          case load_state no (c_data_dir cfg) (nd_world nd) of
            Inl e \<Rightarrow> (Inl (''wg state load: '' @ e), nd)
          | Inr (Some info) \<Rightarrow> (Inr (Some info), nd)
          | Inr None \<Rightarrow>
              if c_join_url cfg \<noteq> [] \<and> c_join_token cfg \<noteq> []
              then attempt (first_join no elapsed cfg nd) (\<lambda>info nd. (Inr (Some info), nd))
              else (Inr None, nd))"

definition apply_overlay :: "'w nodeos \<Rightarrow> JoinInfo option \<Rightarrow> Config \<Rightarrow> ('w host, Config) step" where
  "apply_overlay no joined cfg h
     = (case joined of
          None \<Rightarrow> (Inr cfg, h)
        | Some info \<Rightarrow>
            attempt (map_err (\<lambda>e. ''wg state invalid: '' @ e) (validate_join_info info, h)) (\<lambda>_ h.
            attempt (map_err (\<lambda>e. ''wg interface: '' @ e) (ensure_interface no info (key_path (c_data_dir cfg)) h)) (\<lambda>_ h.
            (Inr (cfg\<lparr>c_control_plane := ''http://'' @ server_overlay_ip info @ '':'' @ show_nat (unat (api_port info)),
                      c_advertise_addr := overlay_ip info\<rparr>), h))))"

subsection \<open>Addresses\<close>

definition boot_advertise :: "'w nodeos \<Rightarrow> 'w \<Rightarrow> Config \<Rightarrow> Config" where
  "boot_advertise no w cfg
     = (if c_advertise_addr cfg = []
        then cfg\<lparr>c_advertise_addr := unwrap_or (detect_advertise_addr no (c_control_plane cfg) w) ''127.0.0.1''\<rparr>
        else cfg)"

definition boot_cidr :: "Config \<Rightarrow> Cidr" where
  "boot_cidr cfg = unwrap_or (Cidr_parse (c_net_cidr cfg)) (the (Cidr_parse ''10.231.0.0/24''))"

definition bind_ip :: "Config \<Rightarrow> string" where
  "bind_ip cfg
     = (if c_bind_any cfg then ''0.0.0.0''
        else if bind_host (c_bind cfg) = [] then c_advertise_addr cfg else bind_host (c_bind cfg))"

definition boot_listen :: "'w nodeos \<Rightarrow> Config \<Rightarrow> 'w \<Rightarrow> (string + string list) \<times> 'w" where
  "boot_listen no cfg w
     = (if c_net cfg \<and> addr_in_guest_cidr (bind_ip cfg) (boot_cidr cfg) then
          (Inl (''refusing to listen on '' @ bind_ip cfg @ '' '' @ emdash @ '' it is inside the guest CIDR ''
                @ c_net_cidr cfg @ '', which every sandbox can route to''), w)
        else
          let addr = join_host_port (bind_ip cfg) (c_port cfg) in
          attempt (map_err (\<lambda>e. ''bind '' @ addr @ '': '' @ e) (no_listen no addr w)) (\<lambda>_ w.
          if \<not> c_bind_any cfg \<and> bind_ip cfg \<noteq> ''127.0.0.1'' then
            let loopback = ''127.0.0.1:'' @ show_nat (unat (c_port cfg)) in
            (case no_listen no loopback w of
               (Inr _, w) \<Rightarrow> (Inr [addr, loopback], w)
             | (Inl _, w) \<Rightarrow> (Inr [addr], w))
          else (Inr [addr], w)))"

subsection \<open>The whole start\<close>

record 'w Boot =
  bt_cfg :: Config
  bt_app :: "'w AppState"
  bt_listening :: "string list"

definition boot_node :: "'w nodeos \<Rightarrow> bool \<Rightarrow> Config \<Rightarrow> string \<Rightarrow> 'w host \<Rightarrow> string + Config \<times> string \<times> 'w host" where
  "boot_node no elapsed cfg token h
     = (case boot_overlay no elapsed cfg \<lparr>nd_id = [], nd_token = token, nd_world = h_world h\<rparr> of
          (Inl e, _) \<Rightarrow> Inl e
        | (Inr joined, nd) \<Rightarrow>
            (case apply_overlay no joined cfg (h\<lparr>h_world := nd_world nd\<rparr>) of
               (Inl e, _) \<Rightarrow> Inl e
             | (Inr cfg, h) \<Rightarrow> Inr (boot_advertise no (h_world h) cfg, nd_token nd, h)))"

definition agent_boot ::
    "'w nodeos \<Rightarrow> string list \<Rightarrow> (string \<Rightarrow> string option) \<Rightarrow> bool \<Rightarrow> 'w host \<Rightarrow> string + 'w Boot" where
  "agent_boot no args env elapsed h
     = (case boot_credentials no args env (h_world h) of
          Inl e \<Rightarrow> Inl e
        | Inr (cfg0, token0) \<Rightarrow>
            (case boot_node no elapsed cfg0 token0 h of
               Inl e \<Rightarrow> Inl e
             | Inr (cfg, token, h) \<Rightarrow>
                 (case boot_manager (no_os no) (c_data_dir cfg) (c_net cfg) (boot_cidr cfg) (c_pool_size cfg)
                         (c_control_plane cfg) (c_token cfg) (c_port cfg) h of
                    None \<Rightarrow>
                      Inl (''cross-tenant isolation is not in force on this node (see the errors above) '' @ emdash
                           @ '' refusing to serve tenants'')
                  | Some mg \<Rightarrow>
                      (case boot_listen no cfg (mg_world mg) of
                         (Inl e, _) \<Rightarrow> Inl e
                       | (Inr addrs, w) \<Rightarrow>
                           Inr \<lparr>bt_cfg = cfg,
                                bt_app = \<lparr>ap_mgr = mg\<lparr>mg_host := (mg_host mg)\<lparr>h_world := w\<rparr>\<rparr>, ap_token = c_token cfg,
                                          ap_node_token = token\<rparr>,
                                bt_listening = addrs\<rparr>))))"

subsection \<open>What holds when the agent serves\<close>

definition usable :: "string \<Rightarrow> bool" where
  "usable token = (validate_token token = Inr ())"

lemma usable_length: "usable t \<Longrightarrow> 16 \<le> length t \<and> t \<noteq> []"
  by (auto simp: usable_def validate_token_def MIN_TOKEN_LEN_def Let_def split: if_splits)

lemma load_node_token_usable: "load_node_token no d w = Inr (Some t) \<Longrightarrow> usable t"
  by (auto simp: load_node_token_def usable_def Let_def split: lstat_result.splits if_splits read_result.splits sum.splits)

lemma boot_credentials_usable:
  "boot_credentials no args env w = Inr (cfg, t) \<Longrightarrow> usable (c_token cfg) \<and> (t = [] \<or> usable t)"
  using load_node_token_usable
  by (fastforce simp: boot_credentials_def usable_def split: sum.splits option.splits)

lemma adopt_node_token_usable:
  "adopt_node_token no d issued nd = (r, nd') \<Longrightarrow> nd_token nd' = nd_token nd \<or> usable (nd_token nd')"
  by (auto simp: adopt_node_token_def usable_def Let_def map_err_def split: if_splits sum.splits prod.splits)

lemma first_join_token:
  assumes "first_join no elapsed cfg nd = (Inr info, nd')"
  shows "nd_token nd' = nd_token nd \<or> usable (nd_token nd')"
  using assms unfolding first_join_def Let_def
  by (auto simp: attempt_Inr split: prod.splits sum.splits if_splits dest!: adopt_node_token_usable)

lemma boot_overlay_token:
  "boot_overlay no elapsed cfg nd = (Inr joined, nd') \<Longrightarrow> nd_token nd' = nd_token nd \<or> usable (nd_token nd')"
  using first_join_token [of no elapsed cfg nd]
  by (auto simp: boot_overlay_def attempt_Inr split: if_splits sum.splits option.splits)

text \<open>What the overlay and the address of the node leave of the configuration.\<close>

definition same_limits :: "Config \<Rightarrow> Config \<Rightarrow> bool" where
  "same_limits a b
     = (c_token a = c_token b \<and> c_data_dir a = c_data_dir b \<and> c_net a = c_net b \<and> c_net_cidr a = c_net_cidr b
        \<and> c_bind a = c_bind b \<and> c_bind_any a = c_bind_any b \<and> c_port a = c_port b \<and> c_pool_size a = c_pool_size b)"

lemma boot_node_spec:
  assumes "boot_node no elapsed cfg token h = Inr (cfg', token', h')"
  shows "same_limits cfg' cfg \<and> (token' = token \<or> usable token')"
proof -
  obtain joined nd where j: "boot_overlay no elapsed cfg \<lparr>nd_id = [], nd_token = token, nd_world = h_world h\<rparr> = (Inr joined, nd)"
    and a: "\<exists>cfg1. apply_overlay no joined cfg (h\<lparr>h_world := nd_world nd\<rparr>) = (Inr cfg1, h')
              \<and> cfg' = boot_advertise no (h_world h') cfg1 \<and> token' = nd_token nd"
    using assms by (auto simp: boot_node_def split: prod.splits sum.splits)
  have "same_limits cfg1 cfg" if "apply_overlay no joined cfg h1 = (Inr cfg1, h2)" for cfg1 h1 h2
    using that by (auto simp: apply_overlay_def attempt_Inr same_limits_def split: option.splits)
  moreover have "same_limits (boot_advertise no w cfg1) cfg1" for w cfg1
    by (simp add: boot_advertise_def same_limits_def)
  ultimately have "same_limits cfg' cfg" using a by (force simp: same_limits_def)
  then show ?thesis using a boot_overlay_token [OF j] by auto
qed

lemma run_ignored_ready: "netfilter_ready (run_ignored sys argv st) \<longleftrightarrow> netfilter_ready st"
  by (simp add: netfilter_ready_def net_frame)

lemma fold_ready: "(\<And>m st. netfilter_ready (f m st) \<longleftrightarrow> netfilter_ready st) \<Longrightarrow> netfilter_ready (fold f ms st) \<longleftrightarrow> netfilter_ready st"
  by (induction ms arbitrary: st) simp_all

lemma rebuild_ingress_ready: "netfilter_ready (rebuild_ingress sys members st) \<longleftrightarrow> netfilter_ready st"
  unfolding rebuild_ingress_def Let_def
  by (subst fold_ready) (simp_all add: run_ignored_ready split: prod.splits option.splits)

lemma boot_manager_ready:
  "boot_manager os d net_on c pool cp token port h = Some mg \<Longrightarrow> net_on \<Longrightarrow> netfilter_ready (mg_host mg)"
  by (auto simp: boot_manager_def Let_def refresh_ingress_def rebuild_ingress_ready split: if_splits)

lemma bind_host_named: "bind_host b \<noteq> [] \<Longrightarrow> bind_host b \<notin> {''0.0.0.0'', ''::'', ''*'', []}"
  by (auto simp: bind_host_def wildcard_to_empty_def Let_def split: option.splits prod.splits if_splits)

lemma boot_listen_addrs:
  assumes "boot_listen no cfg w = (Inr addrs, w')"
  shows "set addrs \<subseteq> {join_host_port (bind_ip cfg) (c_port cfg), ''127.0.0.1:'' @ show_nat (unat (c_port cfg))}
         \<and> \<not> (c_net cfg \<and> addr_in_guest_cidr (bind_ip cfg) (boot_cidr cfg))"
  using assms
  by (auto simp: boot_listen_def Let_def attempt_Inr split: if_splits prod.splits sum.splits)

lemma agent_bootE:
  assumes "agent_boot no args env elapsed h = Inr b"
  obtains cfg0 t0 h1 mg addrs w where "boot_credentials no args env (h_world h) = Inr (cfg0, t0)"
    "boot_node no elapsed cfg0 t0 h = Inr (bt_cfg b, ap_node_token (bt_app b), h1)"
    "boot_manager (no_os no) (c_data_dir (bt_cfg b)) (c_net (bt_cfg b)) (boot_cidr (bt_cfg b)) (c_pool_size (bt_cfg b))
       (c_control_plane (bt_cfg b)) (c_token (bt_cfg b)) (c_port (bt_cfg b)) h1 = Some mg"
    "boot_listen no (bt_cfg b) (mg_world mg) = (Inr (bt_listening b), w)"
    "ap_mgr (bt_app b) = mg\<lparr>mg_host := (mg_host mg)\<lparr>h_world := w\<rparr>\<rparr>" "ap_token (bt_app b) = c_token (bt_cfg b)"
  using assms unfolding agent_boot_def
  by (auto split: sum.splits prod.splits option.splits)

text \<open>The records that the scan of a start finds on disk.\<close>

definition found_at_start :: "'w nodeos \<Rightarrow> Config \<Rightarrow> 'w host \<Rightarrow> Meta list" where
  "found_at_start no cfg h
     = disk_metas (no_os no) (c_data_dir cfg)
         (mg_world (setup_host (no_os no) (manager_new (c_data_dir cfg) (c_net cfg) (boot_cidr cfg) (c_pool_size cfg)
            (c_control_plane cfg) (c_token cfg) (set_agent_port (c_port cfg) h))))"

lemma agent_boot_inv:
  assumes "agent_boot no args env elapsed h = Inr b" "probe_keeps_files (no_os no)"
    and "\<And>cfg0 t0 h1. boot_node no elapsed cfg0 t0 h = Inr (bt_cfg b, ap_node_token (bt_app b), h1) \<Longrightarrow>
           metas_ok (boot_cidr (bt_cfg b)) (found_at_start no (bt_cfg b) h1)"
  shows "mgr_inv (c_data_dir (bt_cfg b), c_net (bt_cfg b), boot_cidr (bt_cfg b), c_net (bt_cfg b)) (ap_mgr (bt_app b))"
proof -
  obtain cfg0 t0 h1 mg w where m: "boot_manager (no_os no) (c_data_dir (bt_cfg b)) (c_net (bt_cfg b)) (boot_cidr (bt_cfg b))
      (c_pool_size (bt_cfg b)) (c_control_plane (bt_cfg b)) (c_token (bt_cfg b)) (c_port (bt_cfg b)) h1 = Some mg"
    "ap_mgr (bt_app b) = mg\<lparr>mg_host := (mg_host mg)\<lparr>h_world := w\<rparr>\<rparr>"
    "boot_node no elapsed cfg0 t0 h = Inr (bt_cfg b, ap_node_token (bt_app b), h1)"
    using agent_bootE [OF assms(1)] by metis
  have "mgr_inv (c_data_dir (bt_cfg b), c_net (bt_cfg b), boot_cidr (bt_cfg b), c_net (bt_cfg b)) mg"
    by (rule boot_inv [OF assms(2) m(1)]) (use assms(3) [OF m(3)] in \<open>simp add: found_at_start_def\<close>)
  then show ?thesis using reach_inv [OF reach_world [OF reach_refl]] m(2) by simp
qed

text \<open>
  C2. The agent serves only behind its fences and its credential.  If the start succeeds at all,
  whatever the configuration, the state on disk and the failures on the way: with networking
  the kernel has accepted the fences; only a header with a token of at least sixteen bytes, no
  known placeholder, passes the gate; and every listening socket is on the loopback address or
  on one address that is outside the guest network and is a wildcard only where the
  configuration asks for it or advertises it.
\<close>

theorem serves_only_behind_fences:
  assumes "agent_boot no args env elapsed h = Inr b"
  defines "cfg \<equiv> bt_cfg b"
  shows "(c_net cfg \<longrightarrow> netfilter_ready (mg_host (ap_mgr (bt_app b))))
    \<and> (\<forall>req. check_auth (bt_app b) req \<longrightarrow>
         (\<exists>t. validate_token t = Inr () \<and> 16 \<le> length t \<and> rq_authorization req = Some (''Bearer '' @ t)))
    \<and> (\<forall>addr\<in>set (bt_listening b). addr = ''127.0.0.1:'' @ show_nat (unat (c_port cfg))
         \<or> (\<exists>host. addr = join_host_port host (c_port cfg)
              \<and> (c_net cfg \<longrightarrow> \<not> addr_in_guest_cidr host (boot_cidr cfg))
              \<and> (host \<in> {''0.0.0.0'', ''::'', ''*'', []} \<longrightarrow> c_bind_any cfg \<or> host = c_advertise_addr cfg)))"
proof -
  from assms(1) obtain cfg0 t0 h1 mg w where
    cr: "boot_credentials no args env (h_world h) = Inr (cfg0, t0)"
    and nd: "boot_node no elapsed cfg0 t0 h = Inr (bt_cfg b, ap_node_token (bt_app b), h1)"
    and mg: "boot_manager (no_os no) (c_data_dir (bt_cfg b)) (c_net (bt_cfg b)) (boot_cidr (bt_cfg b))
      (c_pool_size (bt_cfg b)) (c_control_plane (bt_cfg b)) (c_token (bt_cfg b)) (c_port (bt_cfg b)) h1 = Some mg"
    and li: "boot_listen no (bt_cfg b) (mg_world mg) = (Inr (bt_listening b), w)"
    and ap: "ap_mgr (bt_app b) = mg\<lparr>mg_host := (mg_host mg)\<lparr>h_world := w\<rparr>\<rparr>" "ap_token (bt_app b) = c_token (bt_cfg b)"
    by (rule agent_bootE)
  have "c_net cfg \<longrightarrow> netfilter_ready (mg_host (ap_mgr (bt_app b)))"
    using boot_manager_ready [OF mg] ap(1) by (simp add: cfg_def netfilter_ready_def)
  moreover have "usable (ap_token (bt_app b))" "ap_node_token (bt_app b) = [] \<or> usable (ap_node_token (bt_app b))"
    using boot_credentials_usable [OF cr] boot_node_spec [OF nd] ap(2) by (auto simp: same_limits_def)
  then have "\<exists>t. validate_token t = Inr () \<and> 16 \<le> length t \<and> rq_authorization req = Some (''Bearer '' @ t)"
    if "check_auth (bt_app b) req" for req
    using that usable_length
    by (auto simp: check_auth_def authorized_either_def authorized_iff usable_def [symmetric] simp del: append.simps)
  moreover have "bind_ip cfg \<in> {''0.0.0.0'', ''::'', ''*'', []} \<longrightarrow> c_bind_any cfg \<or> bind_ip cfg = c_advertise_addr cfg"
    using bind_host_named [of "c_bind cfg"] by (auto simp: bind_ip_def)
  ultimately show ?thesis using boot_listen_addrs [OF li] unfolding cfg_def by blast
qed

subsection \<open>A start of the calm node\<close>

definition calm_args :: "string list" where
  "calm_args = [''felucca-agent'', ''--token'', ''s3cret-s3cret-16'', ''--bind'', ''127.0.0.1:7070'', ''--data-dir'', ''/d'',
     ''--net-cidr'', ''10.231.0.0/29'', ''--control-plane'', ''http://cp'', ''--advertise-addr'', ''192.0.2.7'']"

definition calm_cfg :: Config where
  "calm_cfg = Config_default\<lparr>c_token := ''s3cret-s3cret-16'', c_bind := ''127.0.0.1:7070'', c_data_dir := ''/d'',
     c_net_cidr := ''10.231.0.0/29'', c_control_plane := ''http://cp'', c_advertise_addr := ''192.0.2.7'', c_port := 7070\<rparr>"

lemma calm_load: "load no calm_args (\<lambda>_. None) w = Inr calm_cfg"
proof -
  have "find_config (drop 1 calm_args) None = None" by (simp add: calm_args_def)
  moreover have "env_layer (\<lambda>_. None) Config_default = Config_default"
    by (simp add: env_layer_def or_old_def Config_default_def)
  moreover have "flag_layer (drop 1 calm_args) Config_default = calm_cfg\<lparr>c_port := 9090\<rparr>"
    by (simp add: calm_args_def set_flag_def calm_cfg_def Config_default_def)
  moreover have "rsplit_once (CHR '':'') ''127.0.0.1:7070'' = Some (''127.0.0.1'', ''7070'')"
    using rsplit_once_append [of "CHR '':''" "''7070''" "''127.0.0.1''"] by simp
  then have "bind_port (calm_cfg\<lparr>c_port := 9090\<rparr>) = calm_cfg"
    by (simp add: bind_port_def calm_cfg_def Config_default_def set_num_def parse_uint_def digit_val_def is_ascii_digit_def)
  ultimately show ?thesis by (simp add: load_def)
qed

lemma calm_token_usable: "usable ''s3cret-s3cret-16''"
  by (simp add: usable_def validate_token_def PLACEHOLDER_TOKENS_def MIN_TOKEN_LEN_def ascii_lower_def is_ascii_uppercase_def
      starts_with_def)

definition calm_started :: "unit AppState" where
  "calm_started = \<lparr>ap_mgr = calm_boot\<lparr>mg_control_plane := ''http://cp'', mg_token := ''s3cret-s3cret-16''\<rparr>,
     ap_token = ''s3cret-s3cret-16'', ap_node_token = []\<rparr>"

lemma calm_starts:
  "\<exists>b. agent_boot (calm_node (Inr (Some 7))) calm_args (\<lambda>_. None) False calm_host = Inr b
       \<and> bt_cfg b = calm_cfg \<and> bt_app b = calm_started"
proof -
  let ?no = "calm_node (Inr (Some 7))"
  have c: "boot_credentials ?no calm_args (\<lambda>_. None) w = Inr (calm_cfg, [])" for w
  proof -
    have "load_node_token ?no (c_data_dir calm_cfg) w = Inr None" by (simp add: load_node_token_def calm_node_def Let_def)
    then show ?thesis using calm_token_usable calm_load [of ?no w]
      by (simp add: boot_credentials_def usable_def) (simp add: calm_cfg_def)
  qed
  have f: "c_join_url calm_cfg = []" "c_join_token calm_cfg = []" "c_advertise_addr calm_cfg = ''192.0.2.7''" "c_net calm_cfg = True"
      "c_data_dir calm_cfg = ''/d''" "c_net_cidr calm_cfg = ''10.231.0.0/29''" "c_pool_size calm_cfg = 0" "c_port calm_cfg = 7070"
      "c_bind calm_cfg = ''127.0.0.1:7070''" "\<not> c_bind_any calm_cfg" "c_control_plane calm_cfg = ''http://cp''"
      "c_token calm_cfg = ''s3cret-s3cret-16''"
    by (simp_all add: calm_cfg_def Config_default_def)
  have "load_state ?no d w = Inr None" for d w by (simp add: load_state_def calm_node_def read_text_def Let_def)
  then have n: "boot_node ?no False calm_cfg [] calm_host = Inr (calm_cfg, [], calm_host)"
    using f by (simp add: boot_node_def boot_overlay_def apply_overlay_def boot_advertise_def)
  have ci: "boot_cidr calm_cfg = calm_cidr"
  proof -
    have "Cidr_parse ''10.231.0.0/29'' = Some calm_cidr" by code_simp
    then show ?thesis using f by (simp add: boot_cidr_def unwrap_or_def)
  qed
  let ?mg = "ap_mgr calm_started"
  have m: "boot_manager (no_os ?no) ''/d'' True calm_cidr 0 ''http://cp'' ''s3cret-s3cret-16'' 7070 calm_host = Some ?mg"
    by (simp add: calm_node_def calm_booted_with) (simp add: calm_started_def calm_boot_def manager_new_def)
  have "bind_host ''127.0.0.1:7070'' = ''127.0.0.1''"
  proof -
    have "trim ''127.0.0.1:7070'' = ''127.0.0.1:7070''" by (simp add: trim_alnum ascii_defs)
    then show ?thesis by (simp add: bind_host_def rsplit_once_def wildcard_to_empty_def)
  qed
  then have b: "bind_ip calm_cfg = ''127.0.0.1''" using f by (simp add: bind_ip_def)
  have "ipv4_from_str ''127.0.0.1'' = Some 0x7F000001"
    by (simp add: ipv4_from_str_def ipv4_octet_def is_ascii_digit_def digit_val_def)
  moreover have "(0x7F000001 :: u32) AND cidr_mask calm_cidr \<noteq> net_base calm_cidr" by code_simp
  ultimately have "\<not> addr_in_guest_cidr ''127.0.0.1'' calm_cidr" by (simp add: addr_in_guest_cidr_def)
  then have l: "\<exists>addrs. boot_listen ?no calm_cfg w = (Inr addrs, w)" for w
    using b ci f(10) by (simp add: boot_listen_def calm_node_def)
  then obtain addrs where a: "boot_listen ?no calm_cfg (mg_world ?mg) = (Inr addrs, mg_world ?mg)" by blast
  show ?thesis
    unfolding agent_boot_def c n ci f sum.case prod.case m option.case a by (simp add: calm_started_def)
qed

theorem serves_only_behind_fences_witness:
  "\<exists>b. agent_boot (calm_node (Inr (Some 7))) calm_args (\<lambda>_. None) False calm_host = Inr b
       \<and> netfilter_ready (mg_host (ap_mgr (bt_app b)))"
proof -
  obtain b where b: "agent_boot (calm_node (Inr (Some 7))) calm_args (\<lambda>_. None) False calm_host = Inr b" "bt_cfg b = calm_cfg"
    using calm_starts by blast
  have "c_net calm_cfg" by (simp add: calm_cfg_def Config_default_def)
  with serves_only_behind_fences [OF b(1)] b show ?thesis by auto
qed

subsection \<open>Requests to the calm node\<close>

definition create_body :: "string \<Rightarrow> json" where
  "create_body vid = JObj [(''id'', JStr vid), (''image'', JStr ''base''), (''tenant_id'', JStr ''acme'')]"

definition create_request :: "string \<Rightarrow> request" where
  "create_request vid = \<lparr>rq_method = ''POST'', rq_path = [''v1'', ''vms''],
     rq_authorization = Some (''Bearer '' @ ''s3cret-s3cret-16''), rq_body = Some (print_json (create_body vid))\<rparr>"

lemma create_body_spec:
  assumes "valid_vm_id vid"
  shows "create_spec (create_body vid) = Inr (calm_spec vid ''acme'')"
proof -
  have "valid_image_name ''base''" by (simp add: valid_image_name_def starts_with_def ascii_defs)
  then show ?thesis
    using assms
    by (simp add: create_spec_def create_body_def get_str_def get_u64_def jget_def de_str_def reject_bad_id_def unwrap_or_def
        create_sha_def calm_spec_def)
qed

lemma create_body_text: "vid \<in> {''a'', ''b''} \<Longrightarrow> json_body (calm_node sp) (create_request vid) = Inr (create_body vid)"
proof -
  assume v: "vid \<in> {''a'', ''b''}"
  have "valid_utf8 (print_json (create_body vid))"
    by (rule ascii_utf8) (use v in \<open>auto simp: create_body_def json_str_ascii\<close>)
  moreover have "length (print_json (create_body vid)) \<le> BODY_LIMIT"
    using v by (auto simp: create_body_def json_str_def json_escape_char_def BODY_LIMIT_def)
  ultimately show ?thesis
    by (simp add: json_body_def to_bytes_def create_request_def calm_node_def calm_os_def parse_print_json)
qed

lemma calm_create_request:
  assumes "vid \<in> {''a'', ''b''}" "ap_token app = ''s3cret-s3cret-16''"
    and "create (calm_os (Inr (Some 7))) (calm_spec vid ''acme'') (ap_mgr app) = (Inr (), mg)"
  shows "snd (serve (calm_node (Inr (Some 7))) Some (create_request vid) app) = app\<lparr>ap_mgr := mg\<rparr>"
proof -
  have "valid_vm_id vid" using assms(1) by (auto simp: valid_vm_id_def vm_id_char_def starts_with_def ascii_defs)
  note spec = create_body_spec [OF this]
  have "check_auth app (create_request vid)"
    using assms(2) by (simp add: check_auth_def authorized_either_def authorized_iff create_request_def)
  moreover have "build_router (rq_method (create_request vid)) (rq_path (create_request vid)) = Some CreateVm"
    by (simp add: build_router_def is_get_def create_request_def)
  moreover have "no_os (calm_node (Inr (Some 7))) = calm_os (Inr (Some 7))" by (simp add: calm_node_def)
  ultimately show ?thesis
    using create_body_text [OF assms(1)] spec assms(3)
    by (simp add: serve_def call_handler_def create_vm_def authed_def)
qed

end
