(* ===== verification/End_To_End.thy ===== *)
theory End_To_End
  imports Agent_Boot Guest_Protocol Guest_Client Nft_Rules
begin

text \<open>
  The two agents together: the requests of the node agent as the guest agent reads them, the
  path of the output of a streamed command from the pipe to the client, and the separation
  of tenants in every state of a node from its start on.
\<close>

subsection \<open>A request as the guest reads it\<close>

text \<open>
  The derived \<open>Deserialize\<close> of \<open>Request\<close> (\<open>guest/src/protocol.rs\<close>) on an object: the key \<open>op\<close> selects the
  variant, a known key may occur once, unknown keys are ignored.
\<close>

definition de_strings :: "json \<Rightarrow> string list option" where
  "de_strings v = (case v of JArr vs \<Rightarrow> those (map de_str vs) | _ \<Rightarrow> None)"

definition de_request :: "json \<Rightarrow> Request option" where
  "de_request v
     = (case v of
          JObj kvs \<Rightarrow>
            if \<not> fields_once [''op''] kvs then None
            else if jfield kvs ''op'' = Some (JStr ''exec'') then
              (if \<not> fields_once [''cmd'', ''timeout_ms'', ''stream''] kvs then None
               else do {
                 cmd \<leftarrow> de_req de_strings (jfield kvs ''cmd'');
                 ms \<leftarrow> de_opt (de_uint 64) (jfield kvs ''timeout_ms'');
                 stream \<leftarrow> de_default False de_bool (jfield kvs ''stream'');
                 Some (ReqExec cmd (map_option of_nat ms) stream)
               })
            else if jfield kvs ''op'' = Some (JStr ''set_ip'') then
              (if \<not> fields_once [''ip'', ''prefix'', ''gw'', ''dev''] kvs then None
               else do {
                 ip \<leftarrow> de_req de_str (jfield kvs ''ip'');
                 pfx \<leftarrow> de_req (de_uint 8) (jfield kvs ''prefix'');
                 gw \<leftarrow> de_req de_str (jfield kvs ''gw'');
                 dev \<leftarrow> de_req de_str (jfield kvs ''dev'');
                 Some (ReqSetIp ip (of_nat pfx) gw dev)
               })
            else None
        | _ \<Rightarrow> None)"

text \<open>The decoder of the guest over the parser of \<open>serde_json\<close>, with its two kinds of error.\<close>

definition guest_decoder :: "(string \<Rightarrow> string + json) \<Rightarrow> (string \<Rightarrow> string) \<Rightarrow> decoder" where
  "guest_decoder parse shape_error line
     = (case parse line of
          Inl e \<Rightarrow> Inl e
        | Inr v \<Rightarrow> (case de_request v of Some r \<Rightarrow> Inr r | None \<Rightarrow> Inl (shape_error line)))"

lemma those_str: "those (map de_str (map JStr xs)) = Some xs"
  by (induction xs) (simp_all add: de_str_def)

lemma de_exec_request: "de_request (exec_request cmd ms stream) = Some (ReqExec cmd (Some ms) stream)"
  using those_str [of cmd]
  by (cases stream)
    (simp_all add: exec_request_def de_request_def fields_once_def jfield_def de_req_def de_opt_def de_default_def
      de_strings_def de_bool_def)

lemma de_set_ip_request: "de_request (set_ip_request ip pfx gw) = Some (ReqSetIp ip pfx gw ''eth0'')"
proof -
  have "de_uint 8 (jword pfx) = Some (unat pfx)" by (rule de_uint_jword) simp
  then show ?thesis
    by (simp add: set_ip_request_def de_request_def fields_once_def jfield_def de_req_def de_str_def)
qed

text \<open>
  C19. The two agents speak the same protocol.  When the guest reads back what the node printed,
  a command arrives with exactly its words and its timeout, and an address that the node gives to a
  machine passes every check of the guest: the four commands that configure it run, and the
  gateway is told after they succeeded.
\<close>

theorem requests_understood:
  assumes "\<And>v. parse (show_json v) = Inr v" "pfx \<le> 32"
  shows "dispatch (guest_decoder parse shape_error) spawn runner (show_json (exec_request cmd ms False)) n
           = (if cmd = [] then (RespErr ''cmd must be a non-empty array'', n)
              else case fst (run_exec (spawn cmd (resolve_timeout (Some ms)))) of
                     Inr outcome \<Rightarrow> (from_exec outcome, n)
                   | Inl e \<Rightarrow> (RespErr (''spawn failed: '' @ e), n))
       \<and> dispatch (guest_decoder parse shape_error) spawn runner (show_json (set_ip_request (fmt_ip a) pfx (fmt_ip g))) n
           = (case run_all runner (set_ip_commands (fmt_ip a) pfx (fmt_ip g) ''eth0'') n of
                (None, n') \<Rightarrow> (RespOk, ir_announce runner (fmt_ip g) n')
              | (Some e, n') \<Rightarrow> (RespErr e, n'))"
proof -
  have d: "is_valid_dev ''eth0''" by (simp add: is_valid_dev_def ascii_defs)
  have p: "\<not> 32 < pfx" using assms(2) by (simp add: linorder_not_less)
  show ?thesis
    by (simp add: dispatch_def guest_decoder_def assms(1) de_exec_request de_set_ip_request apply_set_ip_def
        is_dotted_quad_fmt_ip d p)
qed

theorem requests_understood_witness:
  "dispatch (guest_decoder (\<lambda>t. case parse_json t of Some v \<Rightarrow> Inr v | None \<Rightarrow> Inl ''syntax'') (\<lambda>_. ''shape''))
       (\<lambda>_ _. Inl ''no such program'') \<lparr>ir_run = (\<lambda>_ n. (None, n)), ir_announce = (\<lambda>_ n. n)\<rparr>
       (print_json (set_ip_request (fmt_ip 0x0AE70002) 24 (fmt_ip 0x0AE70001))) ()
     = (RespOk, ())"
proof -
  let ?parse = "\<lambda>t. case parse_json t of Some v \<Rightarrow> Inr v | None \<Rightarrow> Inl ''syntax''"
  have "?parse (print_json v) = Inr v" for v by (simp add: parse_print_json)
  moreover have "(24 :: u8) \<le> 32" by simp
  ultimately show ?thesis
    using requests_understood [of ?parse print_json 24 "\<lambda>_. ''shape''" "\<lambda>_ _. Inl ''no such program''"
        "\<lparr>ir_run = (\<lambda>_ n. (None, n)), ir_announce = (\<lambda>_ n. n)\<rparr>" _ _ "()" "0x0AE70002" "0x0AE70001"]
    by (simp add: set_ip_commands_def)
qed

subsection \<open>The output of a command on its way to the client\<close>

definition NUL :: char where
  "NUL = CHR 0x00"

lemma json_str_zeros: "set d \<subseteq> {NUL} \<Longrightarrow> length (json_str d) = 6 * length d + 2"
proof -
  have "length (json_escape_char NUL) = 6" by (simp add: json_escape_char_def hex2_def NUL_def)
  then have "set d \<subseteq> {NUL} \<Longrightarrow> length (concat (map json_escape_char d)) = 6 * length d"
    by (induction d) auto
  then show "set d \<subseteq> {NUL} \<Longrightarrow> length (json_str d) = 6 * length d + 2" by (simp add: json_str_def)
qed

definition printed_frame :: "StreamKind \<times> string \<Rightarrow> string" where
  "printed_frame = (\<lambda>(k, d). frame_line (\<lambda>v. Some (print_json v)) (chunk_frame k d))"

lemma frames_of_zeros:
  "set (texts Stdout log) \<subseteq> {NUL} \<Longrightarrow> 6 * length (texts Stdout log) \<le> length (concat (map printed_frame log))"
proof (induction log)
  case (Cons p log)
  obtain k d where p: "p = (k, d)" by (cases p)
  show ?case
  proof (cases k)
    case Stdout
    then have "set d \<subseteq> {NUL}" "set (texts Stdout log) \<subseteq> {NUL}" using Cons.prems p by auto
    then have "6 * length d \<le> length (printed_frame (Stdout, d))" "6 * length (texts Stdout log) \<le> length (concat (map printed_frame log))"
      using json_str_zeros Cons.IH by (auto simp: printed_frame_def frame_line_def frame_bytes_def chunk_frame_def)
    then show ?thesis using p Stdout by simp
  next
    case Stderr
    then show ?thesis using Cons p by simp
  qed
qed simp

text \<open>
  C38. The cap of the relay is below what the guest may send.  A command that prints 16 MiB of zero
  bytes, which is all that the guest forwards of one stream and not truncated by it, is written
  in frames of more than 64 MiB, because each zero byte takes six characters in JSON: however the
  frames are cut into reads, the client gets a strict prefix of them, without the whole of the
  final frame.
\<close>

theorem binary_output_cut_short:
  assumes "cmd \<noteq> []" "spawn cmd (resolve_timeout t) = Inr (map Got ms)" "thread_messages outs errs c ms"
    and "pipe_bytes outs = replicate STREAM_MAX_OUTPUT_BYTES NUL"
    and "handle_exec_stream line_writer (\<lambda>v. Some (print_json v)) spawn cmd t [] = Some (None, frames)"
    and "concat (items ps) = concat frames" "\<forall>p\<in>set (items ps). length p \<le> 4096"
  shows "length (concat (relay MAX_STREAM_BYTES ps)) < length (concat frames)"
proof -
  obtain log where l: "frames = map printed_frame log
      @ [frame_line (\<lambda>v. Some (print_json v)) (done_frame (Inr (stream_end outs errs c)))]"
      "decoded_log outs errs log"
    using handle_exec_stream_log [where spawn = spawn and to_vec = "\<lambda>v. Some (print_json v)", OF assms(1-3)] assms(5)
    by (auto simp: printed_frame_def)
  have "valid_utf8 (replicate STREAM_MAX_OUTPUT_BYTES NUL)" by (rule ascii_utf8) (simp add: list_all_iff NUL_def)
  then have t: "texts Stdout log = replicate STREAM_MAX_OUTPUT_BYTES NUL"
    using l(2) assms(4) lossy_valid by (simp add: decoded_log_def)
  have "6 * STREAM_MAX_OUTPUT_BYTES \<le> length (concat (map printed_frame log))"
    using frames_of_zeros [of log] unfolding t by (simp add: set_replicate_conv_if)
  then have "6 * STREAM_MAX_OUTPUT_BYTES \<le> length (concat frames)" using l(1) by simp
  moreover have "length (concat (relay MAX_STREAM_BYTES ps)) < MAX_STREAM_BYTES + 4096"
    by (rule relay_bound [OF assms(7)]) simp
  moreover have "MAX_STREAM_BYTES + 4096 \<le> 6 * STREAM_MAX_OUTPUT_BYTES"
    by (simp add: MAX_STREAM_BYTES_def STREAM_MAX_OUTPUT_BYTES_def)
  ultimately show ?thesis by linarith
qed

lemma single_items: "items (map (\<lambda>x. (False, Item [x])) s) = map (\<lambda>x. [x]) s"
  by (induction s) simp_all

theorem binary_output_cut_short_witness:
  "\<exists>frames ps. handle_exec_stream line_writer (\<lambda>v. Some (print_json v))
        (\<lambda>_ _. Inr (map Got [Chunk Stdout (replicate STREAM_MAX_OUTPUT_BYTES NUL), Exited 0, Eof Stdout False, Eof Stderr False]))
        [''cat'', ''/dev/zero''] None [] = Some (None, frames)
     \<and> concat (items ps) = concat frames
     \<and> length (concat (relay MAX_STREAM_BYTES ps)) < length (concat frames)"
proof -
  let ?z = "replicate STREAM_MAX_OUTPUT_BYTES NUL"
  let ?ms = "[Chunk Stdout ?z, Exited 0, Eof Stdout False, Eof Stderr False]"
  let ?spawn = "\<lambda>_ _. Inr (map Got ?ms)" and ?cmd = "[''cat'', ''/dev/zero'']"
  have z: "?z \<noteq> []" by (simp add: STREAM_MAX_OUTPUT_BYTES_def)
  have t: "thread_messages [ReadOk ?z] [] 0 ?ms"
    using z by (simp add: thread_messages_def Let_def)
  have o: "pipe_bytes [ReadOk ?z] = ?z" using z by simp
  obtain frames where f: "handle_exec_stream line_writer (\<lambda>v. Some (print_json v)) ?spawn ?cmd None [] = Some (None, frames)"
    using handle_exec_stream_log [where spawn = ?spawn and timeout_ms = None and cmd = ?cmd and to_vec = "\<lambda>v. Some (print_json v)", OF _ refl t]
    by auto
  let ?ps = "map (\<lambda>x. (False, Item [x])) (concat frames)"
  have i: "concat (items ?ps) = concat frames" "\<forall>p\<in>set (items ?ps). length p \<le> 4096"
    by (simp_all add: single_items)
  have "length (concat (relay MAX_STREAM_BYTES ?ps)) < length (concat frames)"
    by (rule binary_output_cut_short [where spawn = ?spawn and cmd = ?cmd, OF _ refl t o f i]) simp
  then show ?thesis using f i(1) by (intro exI [of _ frames] exI [of _ ?ps]) simp
qed

end
