(* ===== verification/Interleave.thy ===== *)
theory Interleave
  imports Os
begin

text \<open>
  Programs of atomic steps on a shared state, run alone or interleaved.  A program owns resources
  that it has taken and not yet published in the state; an invariant speaks of the state and of
  the resources that are under way.  If every step of every program keeps the invariant, whatever
  the others own, then so does every interleaving (\<open>joint_step\<close>).
\<close>

subsection \<open>Programs of atomic steps\<close>

datatype ('s, 'a) prog = Ret 'a | Act "'s \<Rightarrow> ('s, 'a) prog \<times> 's"

primrec pbind :: "('s, 'a) prog \<Rightarrow> ('a \<Rightarrow> ('s, 'b) prog) \<Rightarrow> ('s, 'b) prog" where
  "pbind (Ret x) k = k x"
| "pbind (Act f) k = Act (\<lambda>s. map_prod (\<lambda>p. pbind p k) id (f s))"

definition act :: "('s \<Rightarrow> 'a \<times> 's) \<Rightarrow> ('s, 'a) prog" where
  "act f = Act (\<lambda>s. map_prod Ret id (f s))"

definition look :: "('s \<Rightarrow> 'a) \<Rightarrow> ('s, 'a) prog" where
  "look f = act (\<lambda>s. (f s, s))"

definition upd :: "('s \<Rightarrow> 's) \<Rightarrow> ('s, unit) prog" where
  "upd f = act (\<lambda>s. ((), f s))"

definition pseq :: "('s, 'a) prog \<Rightarrow> ('s, 'b) prog \<Rightarrow> ('s, 'b) prog" where
  "pseq p q = pbind p (\<lambda>_. q)"

text \<open>The early return of \<open>?\<close>.\<close>

definition ptry :: "('s, 'e + 'a) prog \<Rightarrow> ('a \<Rightarrow> ('s, 'e + 'b) prog) \<Rightarrow> ('s, 'e + 'b) prog" where
  "ptry p k = pbind p (\<lambda>r. case r of Inl e \<Rightarrow> Ret (Inl e) | Inr x \<Rightarrow> k x)"

primrec pfor :: "'x list \<Rightarrow> ('x \<Rightarrow> ('s, unit) prog) \<Rightarrow> ('s, unit) prog" where
  "pfor [] p = Ret ()"
| "pfor (x # xs) p = pseq (p x) (pfor xs p)"

primrec run_alone :: "('s, 'a) prog \<Rightarrow> 's \<Rightarrow> 'a \<times> 's" where
  "run_alone (Ret x) = Pair x"
| "run_alone (Act f) = (\<lambda>s. case map_prod run_alone id (f s) of (g, s') \<Rightarrow> g s')"

text \<open>The program as one single step.\<close>

definition exclusive :: "('s, 'a) prog \<Rightarrow> ('s, 'a) prog" where
  "exclusive p = act (run_alone p)"

lemma fst_in_fsts: "fst z \<in> Basic_BNFs.fsts z"
  by (cases z) (simp add: prod_set_simps)

lemma pbind_assoc: "pbind (pbind p k) l = pbind p (\<lambda>x. pbind (k x) l)"
proof (induction p)
  case (Act f)
  have "pbind (pbind (fst (f s)) k) l = pbind (fst (f s)) (\<lambda>x. pbind (k x) l)" for s
    by (rule Act.IH [OF rangeI fst_in_fsts])
  then show ?case by (simp add: prod.map_comp comp_def fun_eq_iff prod_eq_iff)
qed simp

lemma ptry_assoc: "ptry (ptry p k) l = ptry p (\<lambda>x. ptry (k x) l)"
  by (auto simp: ptry_def pbind_assoc fun_eq_iff intro!: arg_cong [where f = "pbind p"] split: sum.splits)

lemma ptry_Inr [simp]: "ptry (Ret (Inr x)) k = k x"
  by (simp add: ptry_def)

named_theorems alone \<open>running a program without interruption\<close>

lemma run_pbind_at: "run_alone (pbind p k) s = (case run_alone p s of (x, s') \<Rightarrow> run_alone (k x) s')"
proof (induction p arbitrary: s)
  case (Act f)
  obtain p s' where f: "f s = (p, s')" by (rule prod.exhaust)
  have "p \<in> Basic_BNFs.fsts (f s)" by (simp add: f)
  then have "run_alone (pbind p k) s' = (case run_alone p s' of (x, s') \<Rightarrow> run_alone (k x) s')"
    by (intro Act.IH) auto
  then show ?case by (simp add: f)
qed simp

lemma run_pbind [alone]: "run_alone (pbind p k) = (\<lambda>s. case run_alone p s of (x, s') \<Rightarrow> run_alone (k x) s')"
  by (intro ext) (rule run_pbind_at)

lemma run_act [alone]: "run_alone (act f) = f"
proof
  show "run_alone (act f) s = f s" for s by (cases "f s") (simp add: act_def)
qed

lemma run_steps [alone]:
  "run_alone (look g) = (\<lambda>s. (g s, s))"
  "run_alone (upd h) = (\<lambda>s. ((), h s))"
  "run_alone (pseq p q) = (\<lambda>s. run_alone q (snd (run_alone p s)))"
  "run_alone (exclusive p) = run_alone p"
  by (simp_all add: look_def upd_def pseq_def exclusive_def alone case_prod_beta)

lemma run_ptry [alone]: "run_alone (ptry p k) = (\<lambda>s. attempt (run_alone p s) (\<lambda>x. run_alone (k x)))"
  by (intro ext) (simp add: ptry_def alone attempt_def split: prod.splits sum.splits)

lemma run_pfor [alone]: "run_alone (pfor xs p) = (\<lambda>s. ((), fold (\<lambda>x s. snd (run_alone (p x) s)) xs s))"
  by (induction xs) (simp_all add: alone)

lemma run_cases [alone]:
  "run_alone (case r of Inl e \<Rightarrow> f e | Inr x \<Rightarrow> g x) = (\<lambda>s. case r of Inl e \<Rightarrow> run_alone (f e) s | Inr x \<Rightarrow> run_alone (g x) s)"
  "run_alone (case o' of None \<Rightarrow> p | Some y \<Rightarrow> h y) = (\<lambda>s. case o' of None \<Rightarrow> run_alone p s | Some y \<Rightarrow> run_alone (h y) s)"
  "run_alone (case z of (a, b) \<Rightarrow> l a b) = (\<lambda>s. case z of (a, b) \<Rightarrow> run_alone (l a b) s)"
  "run_alone (if c then p else q) = (\<lambda>s. if c then run_alone p s else run_alone q s)"
  by (auto split: sum.splits option.splits prod.splits)

subsection \<open>Programs that keep an invariant\<close>

text \<open>
  \<open>safe jinv p S Q\<close>: started with the resources \<open>S\<close> of its own, the program \<open>p\<close> keeps the invariant at
  each step, whatever the resources \<open>R\<close> of the others and whatever they did to the state since
  its last step, and ends with a result and resources that satisfy \<open>Q\<close>.
\<close>

primrec safe :: "('r set \<Rightarrow> 's \<Rightarrow> bool) \<Rightarrow> ('s, 'a) prog \<Rightarrow> 'r set \<Rightarrow> ('a \<Rightarrow> 'r set \<Rightarrow> bool) \<Rightarrow> bool" where
  "safe jinv (Ret x) = (\<lambda>S Q. Q x S)"
| "safe jinv (Act f) = (\<lambda>S Q. \<forall>s R. jinv (S \<union> R) s \<and> S \<inter> R = {} \<longrightarrow>
     (case map_prod (safe jinv) id (f s) of (sf, s') \<Rightarrow> \<exists>S'. S' \<inter> R = {} \<and> jinv (S' \<union> R) s' \<and> sf S' Q))"

definition keeps :: "('r set \<Rightarrow> 's \<Rightarrow> bool) \<Rightarrow> ('s, 'a) prog \<Rightarrow> bool" where
  "keeps jinv p = (\<forall>S. safe jinv p S (\<lambda>_ S'. S' = S))"

abbreviation fine :: "('r set \<Rightarrow> 's \<Rightarrow> bool) \<Rightarrow> ('s, 'a) prog \<Rightarrow> bool" where
  "fine jinv p \<equiv> safe jinv p {} (\<lambda>_ _. True)"

lemma safe_Act:
  "safe jinv (Act f) S Q \<longleftrightarrow> (\<forall>s R. jinv (S \<union> R) s \<and> S \<inter> R = {} \<longrightarrow>
     (\<exists>S'. S' \<inter> R = {} \<and> jinv (S' \<union> R) (snd (f s)) \<and> safe jinv (fst (f s)) S' Q))"
  by (simp add: case_prod_beta)

declare safe.simps(2) [simp del]

lemma safe_weaken: "safe jinv p S Q \<Longrightarrow> (\<And>x T. Q x T \<Longrightarrow> Q' x T) \<Longrightarrow> safe jinv p S Q'"
proof (induction p arbitrary: S)
  case (Act f)
  have "safe jinv (fst (f s)) T Q \<Longrightarrow> safe jinv (fst (f s)) T Q'" for s T
    by (rule Act.IH [OF rangeI fst_in_fsts]) (assumption, rule Act.prems(2))
  moreover have "\<exists>S'. S' \<inter> R = {} \<and> jinv (S' \<union> R) (snd (f s)) \<and> safe jinv (fst (f s)) S' Q"
    if "jinv (S \<union> R) s \<and> S \<inter> R = {}" for s R
    using Act.prems(1) that unfolding safe_Act by simp
  ultimately show ?case unfolding safe_Act by meson
qed simp

lemma safe_pbind: "safe jinv p S (\<lambda>x T. safe jinv (k x) T Q) \<Longrightarrow> safe jinv (pbind p k) S Q"
proof (induction p arbitrary: S)
  case (Act f)
  have IH: "safe jinv (fst (f s)) T (\<lambda>x T. safe jinv (k x) T Q) \<Longrightarrow> safe jinv (pbind (fst (f s)) k) T Q" for s T
    by (rule Act.IH [OF rangeI fst_in_fsts])
  show ?case
    unfolding pbind.simps safe_Act
  proof (intro allI impI)
    fix s R
    assume "jinv (S \<union> R) s \<and> S \<inter> R = {}"
    then obtain S' where "S' \<inter> R = {}" "jinv (S' \<union> R) (snd (f s))" "safe jinv (fst (f s)) S' (\<lambda>x T. safe jinv (k x) T Q)"
      using Act.prems unfolding safe_Act by blast
    then show "\<exists>S'. S' \<inter> R = {} \<and> jinv (S' \<union> R) (snd (map_prod (\<lambda>p. pbind p k) id (f s)))
        \<and> safe jinv (fst (map_prod (\<lambda>p. pbind p k) id (f s))) S' Q"
      by (intro exI [of _ S']) (simp add: IH)
  qed
qed simp

lemma safe_act:
  "safe jinv (act f) S Q \<longleftrightarrow> (\<forall>s R. jinv (S \<union> R) s \<and> S \<inter> R = {} \<longrightarrow>
     (\<exists>S'. S' \<inter> R = {} \<and> jinv (S' \<union> R) (snd (f s)) \<and> Q (fst (f s)) S'))"
  unfolding act_def safe_Act by simp

named_theorems keeping \<open>programs that keep the invariant and their resources\<close>

lemma keeps_act [keeping]: "(\<And>F s. jinv F s \<Longrightarrow> jinv F (snd (f s))) \<Longrightarrow> keeps jinv (act f)"
  by (auto simp: keeps_def safe_act)

lemma keeps_steps [keeping]:
  "keeps jinv (Ret x)"
  "keeps jinv (look g)"
  "(\<And>F s. jinv F s \<Longrightarrow> jinv F (h s)) \<Longrightarrow> keeps jinv (upd h)"
  by (auto simp: look_def upd_def keeps_def safe_act)

lemma keeps_pbind [keeping]: "keeps jinv p \<Longrightarrow> (\<And>x. keeps jinv (k x)) \<Longrightarrow> keeps jinv (pbind p k)"
  unfolding keeps_def by (intro allI safe_pbind, rule safe_weaken [where Q = "\<lambda>_ T. T = _"]) auto

lemma keeps_seqs [keeping]:
  "keeps jinv p \<Longrightarrow> keeps jinv q \<Longrightarrow> keeps jinv (pseq p q)"
  "keeps jinv r \<Longrightarrow> (\<And>x. keeps jinv (k x)) \<Longrightarrow> keeps jinv (ptry r k)"
  by (auto simp: pseq_def ptry_def intro!: keeping split: sum.splits)

lemma keeps_pfor [keeping]: "(\<And>x. keeps jinv (p x)) \<Longrightarrow> keeps jinv (pfor xs p)"
  by (induction xs) (auto intro!: keeping)

lemma keeps_cases [keeping]:
  "(\<And>e. keeps jinv (f e)) \<Longrightarrow> (\<And>x. keeps jinv (g x)) \<Longrightarrow> keeps jinv (case r of Inl e \<Rightarrow> f e | Inr x \<Rightarrow> g x)"
  "keeps jinv p \<Longrightarrow> (\<And>y. keeps jinv (h y)) \<Longrightarrow> keeps jinv (case o' of None \<Rightarrow> p | Some y \<Rightarrow> h y)"
  "(\<And>a b. keeps jinv (l a b)) \<Longrightarrow> keeps jinv (case z of (a, b) \<Rightarrow> l a b)"
  "keeps jinv p \<Longrightarrow> keeps jinv q \<Longrightarrow> keeps jinv (if c then p else q)"
  "keeps jinv p \<Longrightarrow> keeps jinv q \<Longrightarrow> keeps jinv (case c of True \<Rightarrow> p | False \<Rightarrow> q)"
  by (auto split: sum.splits option.splits prod.splits bool.splits)

lemma safe_keeps: "keeps jinv p \<Longrightarrow> (\<And>x. Q x S) \<Longrightarrow> safe jinv p S Q"
  unfolding keeps_def by (rule safe_weaken [where Q = "\<lambda>_ T. T = S"]) auto

lemma safe_after: "keeps jinv p \<Longrightarrow> (\<And>x. safe jinv (k x) S Q) \<Longrightarrow> safe jinv (pbind p k) S Q"
  by (intro safe_pbind) (rule safe_keeps)

lemma safe_ptry:
  assumes "safe jinv p S (\<lambda>r T. case r of Inl e \<Rightarrow> Q (Inl e) T | Inr x \<Rightarrow> safe jinv (k x) T Q)"
  shows "safe jinv (ptry p k) S Q"
  unfolding ptry_def by (rule safe_pbind, rule safe_weaken [OF assms]) (auto split: sum.splits)

lemma safe_try_after:
  "keeps jinv p \<Longrightarrow> (\<And>e. Q (Inl e) S) \<Longrightarrow> (\<And>x. safe jinv (k x) S Q) \<Longrightarrow> safe jinv (ptry p k) S Q"
  by (intro safe_ptry safe_keeps) (auto split: sum.splits)

lemma safe_seq: "safe jinv p S (\<lambda>_ T. safe jinv q T Q) \<Longrightarrow> safe jinv (pseq p q) S Q"
  unfolding pseq_def by (rule safe_pbind)

text \<open>What a step learns of the state from the invariant.\<close>

lemma safe_look: "(\<And>F s. jinv (S \<union> F) s \<Longrightarrow> Q (g s) S) \<Longrightarrow> safe jinv (look g) S Q"
  by (auto simp: look_def safe_act)

lemma keeps_learn:
  assumes "\<And>F s. jinv F s \<Longrightarrow> jinv F (snd (f s)) \<and> P (fst (f s))" "\<And>x. P x \<Longrightarrow> keeps jinv (k x)"
  shows "keeps jinv (pbind (act f) k)"
proof -
  have "safe jinv (act f) S (\<lambda>x T. safe jinv (k x) T (\<lambda>_ S'. S' = S))" for S
    using assms by (auto simp: safe_act keeps_def)
  then show ?thesis by (auto simp: keeps_def intro: safe_pbind)
qed

subsection \<open>Interleavings\<close>

text \<open>
  The law that makes resources droppable: the invariant does not depend on who owns a resource,
  and stays when one is forgotten.
\<close>

locale resources =
  fixes jinv :: "'r set \<Rightarrow> 's \<Rightarrow> bool"
  assumes forget: "jinv (S \<union> R) s \<Longrightarrow> jinv R s"
begin

lemma safe_more: "safe jinv p T (\<lambda>_ _. True) \<Longrightarrow> T \<subseteq> S \<Longrightarrow> safe jinv p S (\<lambda>_ _. True)"
proof (cases p)
  case (Act f)
  assume p: "safe jinv p T (\<lambda>_ _. True)" and sub: "T \<subseteq> S"
  show ?thesis
    unfolding Act safe_Act
  proof (intro allI impI)
    fix s R
    assume h: "jinv (S \<union> R) s \<and> S \<inter> R = {}"
    have "S \<union> (T \<union> R) = S \<union> R" "T \<inter> R = {}" using sub h by blast+
    then show "\<exists>S'. S' \<inter> R = {} \<and> jinv (S' \<union> R) (snd (f s)) \<and> safe jinv (fst (f s)) S' (\<lambda>_ _. True)"
      using p forget [of S "T \<union> R" s] h unfolding Act safe_Act by simp
  qed
qed simp

lemma fine_keeps: "keeps jinv p \<Longrightarrow> fine jinv p"
  by (rule safe_keeps) auto

lemma fine_pbind: "fine jinv p \<Longrightarrow> (\<And>x. fine jinv (k x)) \<Longrightarrow> fine jinv (pbind p k)"
  by (rule safe_pbind, rule safe_weaken [where Q = "\<lambda>_ _. True"]) (auto intro: safe_more [where T = "{}"])

lemma fine_seqs:
  "fine jinv p \<Longrightarrow> fine jinv q \<Longrightarrow> fine jinv (pseq p q)"
  "fine jinv r \<Longrightarrow> (\<And>x. fine jinv (k x)) \<Longrightarrow> fine jinv (ptry r k)"
  by (auto simp: pseq_def ptry_def intro!: fine_pbind split: sum.splits)

lemma fine_pfor: "(\<And>x. fine jinv (p x)) \<Longrightarrow> fine jinv (pfor xs p)"
  by (induction xs) (auto intro!: fine_seqs)

text \<open>Threads with resources of their own, and the invariant for all of them together.\<close>

definition joint :: "('s, unit) prog list \<Rightarrow> 's \<Rightarrow> bool" where
  "joint ts s
     = (\<exists>own. (\<forall>i<length ts. safe jinv (ts ! i) (own i) (\<lambda>_ _. True))
          \<and> (\<forall>i<length ts. \<forall>j<length ts. i \<noteq> j \<longrightarrow> own i \<inter> own j = {})
          \<and> jinv (\<Union>i<length ts. own i) s)"

lemma joint_init: "jinv {} s \<Longrightarrow> joint [] s"
  by (simp add: joint_def)

lemma joint_inv: "joint ts s \<Longrightarrow> jinv {} s"
  unfolding joint_def using forget [of _ "{}"] by auto

lemma joint_env: "joint ts s \<Longrightarrow> (\<And>F. jinv F s \<Longrightarrow> jinv F s') \<Longrightarrow> joint ts s'"
  unfolding joint_def by blast

lemma joint_spawn:
  assumes "joint ts s" "fine jinv p"
  shows "joint (ts @ [p]) s"
proof -
  obtain own where o: "\<forall>i<length ts. safe jinv (ts ! i) (own i) (\<lambda>_ _. True)"
      "\<forall>i<length ts. \<forall>j<length ts. i \<noteq> j \<longrightarrow> own i \<inter> own j = {}" "jinv (\<Union>i<length ts. own i) s"
    using assms(1) unfolding joint_def by blast
  let ?own = "own(length ts := {})"
  have "(\<Union>i<Suc (length ts). ?own i) = (\<Union>i<length ts. own i)" by (auto simp: less_Suc_eq)
  then show ?thesis
    unfolding joint_def using o assms(2)
    by (intro exI [of _ ?own]) (auto simp: nth_append less_Suc_eq)
qed

lemma joint_step:
  assumes "joint ts s" "i < length ts" "ts ! i = Act f" "f s = (p, s')"
  shows "joint (ts[i := p]) s'"
proof -
  let ?n = "length ts"
  obtain own where o: "\<forall>i<?n. safe jinv (ts ! i) (own i) (\<lambda>_ _. True)"
      "\<forall>i<?n. \<forall>j<?n. i \<noteq> j \<longrightarrow> own i \<inter> own j = {}" "jinv (\<Union>i<?n. own i) s"
    using assms(1) unfolding joint_def by blast
  let ?R = "\<Union>j\<in>{..<?n} - {i}. own j"
  have u: "(\<Union>j<?n. own j) = own i \<union> ?R" using assms(2) by blast
  have d: "own i \<inter> ?R = {}" using o(2) assms(2) by blast
  have "safe jinv (Act f) (own i) (\<lambda>_ _. True)" using o(1) assms(2,3) by metis
  then obtain S' where S: "S' \<inter> ?R = {}" "jinv (S' \<union> ?R) s'" "safe jinv p S' (\<lambda>_ _. True)"
    unfolding safe_Act using o(3) u d assms(4) by (metis fst_conv snd_conv)
  let ?own = "own(i := S')"
  have "(\<Union>j<?n. ?own j) = S' \<union> ?R" using assms(2) by auto
  moreover have "?own j \<inter> ?own l = {}" if "j < ?n" "l < ?n" "j \<noteq> l" for j l
    using that o(2) S(1) by (auto split: if_splits)
  ultimately show ?thesis
    unfolding joint_def using o(1) S(2,3) by (intro exI [of _ ?own]) (auto simp: nth_list_update)
qed

end

end
