(* ===== verification/Vm_Atomic.thy ===== *)
theory Vm_Atomic
  imports Interleave Vm_Invariant
begin

text \<open>
  The operations of the manager (\<open>agent/src/vm/mod.rs\<close>) at the granularity of its lock.  Each
  operation is a program of atomic steps: a section in which the source holds the lock of
  \<open>Inner\<close>, or a call to the outside world, during which it holds none.  A rebuild of a ruleset is one
  step, because a lock of its own covers the reading of the members and the transaction.  Run
  without interruption, a program does what the operation of \<open>Vm_Manager\<close> does
  (\<open>alone_is_sequential\<close>); \<open>Vm_Interleave\<close> lets many of them run at once.
\<close>

lemmas case_congs = sum.case_cong option.case_cong VmState.case_cong

subsection \<open>Metadata, ports, pools and captures\<close>

definition write_meta_prog :: "'w os \<Rightarrow> string \<Rightarrow> ('w Manager, string + unit) prog" where
  "write_meta_prog os vid
     = ptry (look (\<lambda>mg. ok_or ''NotFound'' (find_vm vid (mg_vms mg)))) (\<lambda>v.
       ptry (look (\<lambda>mg. ok_or ''InvalidId'' (instance_path (mg_data_dir mg) (v_dir_id v)))) (\<lambda>dir_path.
       let meta_path = dir_path @ ''/meta.json''
       in act (\<lambda>mg. map_err (\<lambda>e. ''write meta '' @ meta_path @ '': '' @ e)
                      (on_world (os_write os meta_path (to_json (vm_meta v))) mg))))"

lemma run_write_meta [alone]: "run_alone (write_meta_prog os vid) = write_meta os vid"
  by (intro ext) (simp add: write_meta_prog_def write_meta_def alone Let_def)

text \<open>The section of \<open>expose\<close> under the lock; the flag says whether a mapping was added.\<close>

definition expose_section :: "string \<Rightarrow> u16 \<Rightarrow> 'w Manager \<Rightarrow> (ExposeError + u16 \<times> bool) \<times> 'w Manager" where
  "expose_section vid gport mg
     = (case find_vm vid (mg_vms mg) of
          None \<Rightarrow> (Inl ExposeNotFound, mg)
        | Some v \<Rightarrow>
          if v_ip v = None then (Inl NoIp, mg)
          else
            (case List.find (\<lambda>e. guest_port e = gport) (v_exposes v) of
               Some e \<Rightarrow> (Inr (node_port e, False), mg)
             | None \<Rightarrow>
               (case lowest_free_node_port (used_node_ports (mg_vms mg)) of
                  None \<Rightarrow> (Inl Exhausted, mg)
                | Some np \<Rightarrow>
                  (Inr (np, True), upd_vms (update_vm vid (\<lambda>v.
                     v\<lparr>v_exposes := v_exposes v @ [\<lparr>guest_port = gport, node_port = np\<rparr>]\<rparr>)) mg))))"

definition expose_prog :: "'w os \<Rightarrow> string \<Rightarrow> u16 \<Rightarrow> ('w Manager, ExposeError + u16) prog" where
  "expose_prog os vid gport
     = ptry (act (expose_section vid gport)) (\<lambda>(np, added).
       if added then pseq (write_meta_prog os vid) (pseq (upd (refresh_ingress os)) (Ret (Inr np)))
       else Ret (Inr np))"

lemma run_expose [alone]: "run_alone (expose_prog os vid gport) = expose os vid gport"
  by (intro ext) (simp add: expose_prog_def expose_def expose_section_def alone Let_def split: option.splits)

definition unexpose_section :: "string \<Rightarrow> u16 \<Rightarrow> 'w Manager \<Rightarrow> (ExposeError + bool) \<times> 'w Manager" where
  "unexpose_section vid gport mg
     = (case find_vm vid (mg_vms mg) of
          None \<Rightarrow> (Inl ExposeNotFound, mg)
        | Some v \<Rightarrow>
          let kept = filter (\<lambda>e. guest_port e \<noteq> gport) (v_exposes v)
          in (Inr (length kept \<noteq> length (v_exposes v)), upd_vms (update_vm vid (\<lambda>v. v\<lparr>v_exposes := kept\<rparr>)) mg))"

definition unexpose_prog :: "'w os \<Rightarrow> string \<Rightarrow> u16 \<Rightarrow> ('w Manager, ExposeError + unit) prog" where
  "unexpose_prog os vid gport
     = ptry (act (unexpose_section vid gport)) (\<lambda>changed.
       if changed then pseq (write_meta_prog os vid) (pseq (upd (refresh_ingress os)) (Ret (Inr ())))
       else Ret (Inr ()))"

lemma run_unexpose [alone]: "run_alone (unexpose_prog os vid gport) = unexpose os vid gport"
  by (intro ext) (simp add: unexpose_prog_def unexpose_def unexpose_section_def alone Let_def split: option.splits)

subsection \<open>Processes\<close>

definition spawn_prog ::
    "'w os \<Rightarrow> string \<Rightarrow> string \<Rightarrow> string \<Rightarrow> u32 \<Rightarrow> u64 \<Rightarrow> u32 option \<Rightarrow> string option
      \<Rightarrow> ('w Manager, string + int \<times> bool) prog" where
  "spawn_prog os vid dir_path rootfs_path vcpus mem_mib slot ip
     = ptry (look (\<lambda>mg. ok_or ''InvalidId'' (sock_path mg vid))) (\<lambda>sock.
       pseq (act (on_world (os_unlink os sock)))
      (ptry (act (on_world (spawn_fc os ''spawn firecracker: '' sock (dir_path @ ''/serial.log'')))) (\<lambda>pid.
       ptry (act (on_world (await_api os sock pid))) (\<lambda>_.
       pbind (look (\<lambda>mg. guest_agent_marker_present os (mg_data_dir mg) (mg_world mg))) (\<lambda>vsock_on.
       pbind (act (\<lambda>mg. on_world (configure_guest os (mg_data_dir mg) (mg_net_on mg) (mg_cidr mg) sock dir_path
                          rootfs_path vcpus mem_mib slot ip vsock_on) mg)) (\<lambda>r.
       case r of
         Inl e \<Rightarrow> pseq (act (on_world (\<lambda>w. ((), kill_and_reap os pid w)))) (Ret (Inl e))
       | Inr _ \<Rightarrow> Ret (Inr (pid, vsock_on))))))))"

lemma run_spawn [alone]:
  "run_alone (spawn_prog os vid dir rootfs vcpus mem slot ip) = spawn_and_configure os vid dir rootfs vcpus mem slot ip"
  by (intro ext) (simp add: spawn_prog_def spawn_and_configure_def alone Let_def case_prod_beta cong: case_congs)

text \<open>The section of \<open>on_fc_exit\<close> under the lock; the result says whether the record changed.\<close>

definition fc_exit_section :: "string \<Rightarrow> int \<Rightarrow> 'w Manager \<Rightarrow> bool \<times> 'w Manager" where
  "fc_exit_section vid pid mg
     = (case find_vm vid (mg_vms mg) of
          Some v \<Rightarrow>
            if v_pid v = Some pid \<and> live_state (v_state v)
            then (True, upd_vms (update_vm vid (\<lambda>v. v\<lparr>v_state := Errored, v_pid := None\<rparr>)) mg)
            else (False, mg)
        | None \<Rightarrow> (False, mg))"

definition fc_exit_prog :: "'w os \<Rightarrow> string \<Rightarrow> int \<Rightarrow> ('w Manager, unit) prog" where
  "fc_exit_prog os vid pid
     = pbind (act (fc_exit_section vid pid)) (\<lambda>transitioned.
       if transitioned then pseq (write_meta_prog os vid) (Ret ()) else Ret ())"

lemma run_fc_exit [alone]: "run_alone (fc_exit_prog os vid pid) = (\<lambda>mg. ((), on_fc_exit os vid pid mg))"
  by (intro ext) (simp add: fc_exit_prog_def fc_exit_section_def on_fc_exit_def alone split: option.splits)

definition sweep_prog :: "'w os \<Rightarrow> ('w Manager, unit) prog" where
  "sweep_prog os
     = pbind (look (\<lambda>mg. sweep_candidates (mg_vms mg))) (\<lambda>candidates.
       pfor candidates (\<lambda>(vid, pid).
         pbind (act (on_world (os_kill os pid 0))) (\<lambda>r.
         if r = Some ESRCH then fc_exit_prog os vid pid else Ret ())))"

lemma run_sweep [alone]: "run_alone (sweep_prog os) = (\<lambda>mg. ((), sweep_dead os mg))"
proof -
  have "(\<lambda>x s. snd (run_alone ((\<lambda>(vid, pid). pbind (act (on_world (os_kill os pid 0))) (\<lambda>r.
        if r = Some ESRCH then fc_exit_prog os vid pid else Ret ())) x) s)) = sweep_one os"
    by (intro ext) (simp add: sweep_one_def alone Let_def split: prod.splits)
  then show ?thesis by (simp add: sweep_prog_def sweep_dead_def alone)
qed

subsection \<open>Stop and delete\<close>

definition stop_prog :: "'w os \<Rightarrow> string \<Rightarrow> ('w Manager, string + unit) prog" where
  "stop_prog os vid
     = ptry (look (\<lambda>mg. ok_or ''NotFound'' (find_vm vid (mg_vms mg)))) (\<lambda>v.
       pseq (upd (set_state vid Stopped))
      (pseq (upd (set_pid vid None))
      (case v_pid v of None \<Rightarrow> Ret (Inr ()) | Some p \<Rightarrow> act (on_world (stop_process os p)))))"

lemma run_stop [alone]: "run_alone (stop_prog os vid) = stop os vid"
  by (intro ext) (simp add: stop_prog_def stop_def alone Let_def cong: case_congs)

definition release_prog :: "'w os \<Rightarrow> u32 option \<Rightarrow> ('w Manager, unit) prog" where
  "release_prog os slot
     = pbind (look mg_net_on) (\<lambda>net_on.
       case (net_on, slot) of
         (True, Some s) \<Rightarrow>
           pseq (upd (\<lambda>mg. mg\<lparr>mg_host := delete_tap (os_net os) (tap_name s)
                       (clear_tap_antispoof (os_net os) (tap_name s) (mg_host mg))\<rparr>))
                (upd (free_slot s))
       | _ \<Rightarrow> Ret ())"

lemma run_release [alone]: "run_alone (release_prog os slot) = (\<lambda>mg. ((), release_slot os slot mg))"
  by (intro ext) (auto simp: release_prog_def release_slot_def alone Let_def split: option.splits bool.splits)

definition remove_dir_prog :: "'w os \<Rightarrow> string \<Rightarrow> ('w Manager, unit) prog" where
  "remove_dir_prog os vid
     = pbind (look (\<lambda>mg. instance_dir mg vid)) (\<lambda>dir.
       case dir of
         Some dir_path \<Rightarrow> pseq (act (on_world (os_rmtree os dir_path))) (Ret ())
       | None \<Rightarrow> Ret ())"

lemma run_remove_dir [alone]: "run_alone (remove_dir_prog os vid) = (\<lambda>mg. ((), remove_instance_dir os vid mg))"
  by (intro ext) (simp add: remove_dir_prog_def remove_instance_dir_def alone split: option.splits)

definition delete_from :: "'w os \<Rightarrow> string \<Rightarrow> u32 option \<Rightarrow> ('w Manager, string + unit) prog" where
  "delete_from os vid slot
     = pseq (stop_prog os vid)
      (pseq (release_prog os slot)
      (pseq (remove_dir_prog os vid)
      (pseq (upd (upd_vms (remove_first (\<lambda>v. v_id v = vid))))
      (pseq (act (refresh_isolation os))
      (pseq (upd (refresh_ingress os)) (Ret (Inr ())))))))"

definition delete_prog :: "'w os \<Rightarrow> string \<Rightarrow> ('w Manager, string + unit) prog" where
  "delete_prog os vid
     = pbind (look (\<lambda>mg. Option.bind (find_vm vid (mg_vms mg)) v_slot)) (delete_from os vid)"

lemma run_delete [alone]: "run_alone (delete_prog os vid) = delete os vid"
  by (intro ext) (simp add: delete_prog_def delete_from_def delete_def alone Let_def)

text \<open>
  The operations below delete machines too: a creation rolls back, and a refill drains.  They take
  the program for it as a parameter, so that a variant can be put in its place.
\<close>

type_synonym 'w deleter = "string \<Rightarrow> ('w Manager, string + unit) prog"

definition deletes :: "'w os \<Rightarrow> 'w deleter \<Rightarrow> bool" where
  "deletes os del = (\<forall>vid. run_alone (del vid) = delete os vid)"

definition commit_prog :: "'w os \<Rightarrow> 'w deleter \<Rightarrow> string \<Rightarrow> ('w Manager, string + unit) prog" where
  "commit_prog os del vid
     = pbind (act (refresh_isolation os)) (\<lambda>ok.
       if ok then Ret (Inr ()) else pseq (del vid) (Ret (Inl ''IsolationFailed'')))"

lemma run_commit [alone]: "deletes os del \<Longrightarrow> run_alone (commit_prog os del vid) = commit_or_isolate os vid"
  by (intro ext) (auto simp: commit_prog_def commit_or_isolate_def deletes_def alone split: prod.splits bool.splits)

subsection \<open>Create\<close>

text \<open>The section that refuses a known identifier and registers the record.\<close>

definition register_section :: "Vm \<Rightarrow> 'w Manager \<Rightarrow> (string + unit) \<times> 'w Manager" where
  "register_section v mg
     = (if list_ex (\<lambda>u. v_id u = v_id v) (mg_vms mg) then (Inl ''AlreadyExists'', mg)
        else (Inr (), upd_vms (\<lambda>vs. vs @ [v]) mg))"

definition claim_network_prog :: "'w os \<Rightarrow> u32 option \<Rightarrow> ('w Manager, string + u32 option \<times> string option) prog" where
  "claim_network_prog os force_slot
     = pbind (look mg_net_on) (\<lambda>net_on.
       if \<not> net_on then Ret (Inr (None, None))
       else
         ptry (act (take_slot force_slot)) (\<lambda>s.
         pbind (look (\<lambda>mg. ip_for_slot mg s)) (\<lambda>ip.
         pbind (act (pin_slot os s ip)) (\<lambda>pinned.
         if pinned then Ret (Inr (Some s, ip))
         else pseq (upd (free_slot s)) (Ret (Inl ''TapSetupFailed''))))))"

lemma run_claim_network [alone]: "run_alone (claim_network_prog os force_slot) = claim_network os force_slot"
  by (intro ext) (auto simp: claim_network_prog_def claim_network_def alone Let_def attempt_def split: prod.splits sum.splits bool.splits)

definition park_prog :: "'w os \<Rightarrow> string \<Rightarrow> VmState \<Rightarrow> ('w Manager, string + unit) prog" where
  "park_prog os vid final_state
     = (if final_state = Pooled \<or> final_state = Paused then
          ptry (look (\<lambda>mg. ok_or ''InvalidId'' (sock_path mg vid))) (\<lambda>sock.
          act (\<lambda>mg. map_err fc_error (on_world (patch_vm_state os sock ''Paused'') mg)))
        else Ret (Inr ()))"

lemma run_park [alone]: "run_alone (park_prog os vid st) = park os vid st"
  by (intro ext) (simp add: park_prog_def park_def alone)

definition cold_create_inner_prog ::
    "'w os \<Rightarrow> CreateSpec \<Rightarrow> VmState \<Rightarrow> u32 option \<Rightarrow> ('w Manager, string + unit) prog" where
  "cold_create_inner_prog os spec final_state force_slot
     = ptry (look (\<lambda>mg. ok_or ''InvalidId'' (instance_dir mg (cs_id spec)))) (\<lambda>dir_path.
       ptry (act (prepare_disk os spec dir_path)) (\<lambda>_.
       ptry (claim_network_prog os force_slot) (\<lambda>(slot, ip).
       ptry (spawn_prog os (cs_id spec) dir_path (dir_path @ ''/rootfs.ext4'') (cs_vcpus spec) (cs_mem_mib spec) slot ip)
         (\<lambda>(pid, vsock_on).
       ptry (park_prog os (cs_id spec) final_state) (\<lambda>_.
       pseq (upd (publish (cs_id spec) pid slot final_state ip vsock_on))
            (write_meta_prog os (cs_id spec)))))))"

lemma run_cold_create_inner [alone]:
  "run_alone (cold_create_inner_prog os spec st force_slot) = cold_create_inner os spec st force_slot"
  by (intro ext) (simp add: cold_create_inner_prog_def cold_create_inner_def alone case_prod_unfold)

definition cold_create_prog :: "'w os \<Rightarrow> CreateSpec \<Rightarrow> VmState \<Rightarrow> u32 option \<Rightarrow> ('w Manager, string + unit) prog" where
  "cold_create_prog os spec final_state force_slot
     = ptry (act (register_section (new_vm spec))) (\<lambda>_.
       pbind (cold_create_inner_prog os spec final_state force_slot) (\<lambda>r.
       case r of
         Inl e \<Rightarrow> pseq (upd (set_state (cs_id spec) Errored)) (Ret (Inl e))
       | Inr u \<Rightarrow> Ret (Inr u)))"

lemma run_cold_create [alone]: "run_alone (cold_create_prog os spec st force_slot) = cold_create os spec st force_slot"
proof
  fix mg :: "'a Manager"
  have i: "v_id (new_vm spec) = cs_id spec" by (simp add: new_vm_def)
  show "run_alone (cold_create_prog os spec st force_slot) mg = cold_create os spec st force_slot mg"
    by (simp add: cold_create_prog_def cold_create_def register_section_def i alone split: prod.splits sum.splits)
qed

text \<open>The section that finds a parked machine and retags it; the result is its old identifier.\<close>

definition retag_section :: "CreateSpec \<Rightarrow> 'w Manager \<Rightarrow> string option \<times> 'w Manager" where
  "retag_section spec mg
     = (case find_pooled_match (mg_vms mg) (cs_image spec) (cs_image_sha256 spec) (cs_vcpus spec)
               (cs_mem_mib spec) (cs_disk_gb spec) of
          None \<Rightarrow> (None, mg)
        | Some idx \<Rightarrow> (Some (v_id (mg_vms mg ! idx)), upd_vms (\<lambda>vs. vs[idx := retag spec (vs ! idx)]) mg))"

definition untag_section :: "string \<Rightarrow> string \<Rightarrow> 'w Manager \<Rightarrow> int option \<times> 'w Manager" where
  "untag_section vid pooled_id mg
     = (Option.bind (find_vm vid (mg_vms mg)) v_pid, upd_vms (update_vm vid (untag pooled_id)) mg)"

definition claim_from_pool_prog :: "'w os \<Rightarrow> CreateSpec \<Rightarrow> ('w Manager, string + bool) prog" where
  "claim_from_pool_prog os spec
     = pbind (act (retag_section spec)) (\<lambda>r.
       case r of
         None \<Rightarrow> Ret (Inr False)
       | Some pooled_id \<Rightarrow>
           ptry (look (\<lambda>mg. ok_or ''InvalidId'' (sock_path mg (cs_id spec)))) (\<lambda>sock.
           pbind (act (on_world (patch_vm_state os sock ''Resumed''))) (\<lambda>resumed.
           case resumed of
             Inl _ \<Rightarrow>
               pbind (act (untag_section (cs_id spec) pooled_id)) (\<lambda>dead_pid.
               case dead_pid of
                 Some p \<Rightarrow> pseq (fc_exit_prog os pooled_id p) (Ret (Inr False))
               | None \<Rightarrow> Ret (Inr False))
           | Inr _ \<Rightarrow>
               pseq (upd (set_state (cs_id spec) Running))
              (ptry (write_meta_prog os (cs_id spec)) (\<lambda>_. Ret (Inr True))))))"

lemma run_claim_from_pool [alone]: "run_alone (claim_from_pool_prog os spec) = claim_from_pool os spec"
proof
  fix mg :: "'a Manager"
  show "run_alone (claim_from_pool_prog os spec) mg = claim_from_pool os spec mg"
    by (simp add: claim_from_pool_prog_def claim_from_pool_def retag_section_def untag_section_def alone Let_def
        case_prod_beta option.case_distrib [of "\<lambda>x. (Inr False, x)"] cong: case_congs split: option.split)
qed

definition create_prog :: "'w os \<Rightarrow> 'w deleter \<Rightarrow> CreateSpec \<Rightarrow> ('w Manager, string + unit) prog" where
  "create_prog os del spec
     = (if \<not> valid_vm_id (cs_id spec) then Ret (Inl ''InvalidId'')
        else
          ptry (claim_from_pool_prog os spec) (\<lambda>claimed.
          if claimed then commit_prog os del (cs_id spec)
          else ptry (cold_create_prog os spec Running None) (\<lambda>_. commit_prog os del (cs_id spec))))"

lemma run_create [alone]: "deletes os del \<Longrightarrow> run_alone (create_prog os del spec) = create os spec"
  by (intro ext) (simp add: create_prog_def create_def alone cong: if_cong)

subsection \<open>Pause, resume, sleep, wake, start, exec\<close>

definition patch_prog :: "'w os \<Rightarrow> string \<Rightarrow> string \<Rightarrow> VmState \<Rightarrow> ('w Manager, string + unit) prog" where
  "patch_prog os vid word st
     = ptry (look (\<lambda>mg. ok_or ''InvalidId'' (sock_path mg vid))) (\<lambda>sock.
       ptry (act (\<lambda>mg. map_err fc_error (on_world (patch_vm_state os sock word) mg))) (\<lambda>_.
       pseq (upd (set_state vid st)) (write_meta_prog os vid)))"

definition pause_prog :: "'w os \<Rightarrow> string \<Rightarrow> ('w Manager, string + unit) prog" where
  "pause_prog os vid
     = ptry (look (\<lambda>mg. ok_or ''NotFound'' (find_vm vid (mg_vms mg)))) (\<lambda>v.
       case v_state v of
         Paused \<Rightarrow> Ret (Inr ())
       | Running \<Rightarrow> patch_prog os vid ''Paused'' Paused
       | st \<Rightarrow> Ret (Inl (''InvalidState: '' @ as_str st)))"

definition resume_prog :: "'w os \<Rightarrow> string \<Rightarrow> ('w Manager, string + unit) prog" where
  "resume_prog os vid
     = ptry (look (\<lambda>mg. ok_or ''NotFound'' (find_vm vid (mg_vms mg)))) (\<lambda>v.
       case v_state v of
         Running \<Rightarrow> Ret (Inr ())
       | Paused \<Rightarrow> patch_prog os vid ''Resumed'' Running
       | st \<Rightarrow> Ret (Inl (''InvalidState: '' @ as_str st)))"

lemma run_pause_resume [alone]:
  "run_alone (pause_prog os vid) = pause os vid" "run_alone (resume_prog os vid) = resume os vid"
proof -
  have "run_alone (pause_prog os vid) mg = pause os vid mg \<and> run_alone (resume_prog os vid) mg = resume os vid mg" for mg
  proof (cases "find_vm vid (mg_vms mg)")
    case (Some v)
    then show ?thesis
      by (cases "v_state v") (simp_all add: pause_prog_def pause_def resume_prog_def resume_def patch_prog_def alone)
  qed (simp add: pause_prog_def pause_def resume_prog_def resume_def alone)
  then show "run_alone (pause_prog os vid) = pause os vid" "run_alone (resume_prog os vid) = resume os vid" by blast+
qed

definition sleep_prog :: "'w os \<Rightarrow> string \<Rightarrow> ('w Manager, string + unit) prog" where
  "sleep_prog os vid
     = ptry (look (\<lambda>mg. ok_or ''NotFound'' (find_vm vid (mg_vms mg)))) (\<lambda>v.
       if v_state v = Sleeping then Ret (Inr ())
       else
         ptry (look (\<lambda>mg. ok_or ''InvalidId'' (sock_path mg vid))) (\<lambda>sock.
         ptry (look (\<lambda>mg. ok_or ''InvalidId'' (instance_dir mg vid))) (\<lambda>dir_path.
         ptry (act (\<lambda>mg. map_err fc_error (on_world (patch_vm_state os sock ''Paused'') mg))) (\<lambda>_.
         ptry (act (\<lambda>mg. map_err fc_error (on_world (put_snapshot_create os sock (dir_path @ ''/vmstate.bin'')
                     (dir_path @ ''/mem.bin'')) mg))) (\<lambda>_.
         pseq (upd (set_pid vid None))
        (pseq (case v_pid v of Some p \<Rightarrow> act (on_world (\<lambda>w. ((), kill_and_reap os p w))) | None \<Rightarrow> Ret ())
        (pseq (upd (set_state vid Sleeping)) (write_meta_prog os vid))))))))"

lemma run_sleep [alone]: "run_alone (sleep_prog os vid) = sleep_vm os vid"
  by (intro ext) (simp add: sleep_prog_def sleep_vm_def alone Let_def option.case_distrib [of snd] cong: case_congs if_cong)

definition repin_prog :: "'w os \<Rightarrow> u32 option \<Rightarrow> string option \<Rightarrow> ('w Manager, string + unit) prog" where
  "repin_prog os slot ip
     = pbind (look mg_net_on) (\<lambda>net_on.
       case (net_on, slot) of
         (True, Some s) \<Rightarrow>
           pbind (act (pin_slot os s ip)) (\<lambda>pinned. Ret (if pinned then Inr () else Inl ''TapSetupFailed''))
       | _ \<Rightarrow> Ret (Inr ()))"

lemma run_repin [alone]: "run_alone (repin_prog os slot ip) = repin os slot ip"
  by (intro ext) (auto simp: repin_prog_def repin_def alone split: option.splits bool.splits prod.splits)

definition wake_prog :: "'w os \<Rightarrow> string \<Rightarrow> ('w Manager, string + u64) prog" where
  "wake_prog os vid
     = ptry (look (\<lambda>mg. ok_or ''NotFound'' (find_vm vid (mg_vms mg)))) (\<lambda>v.
       if v_state v = Running then Ret (Inr 0)
       else
         pbind (look (\<lambda>mg. os_now os (mg_world mg))) (\<lambda>start.
         ptry (look (\<lambda>mg. ok_or ''InvalidId'' (instance_dir mg vid))) (\<lambda>dir_path.
         ptry (repin_prog os (v_slot v) (v_ip v)) (\<lambda>_.
         ptry (look (\<lambda>mg. ok_or ''InvalidId'' (sock_path mg vid))) (\<lambda>sock.
         pseq (act (on_world (os_unlink os sock)))
        (pseq (act (on_world (os_unlink os (dir_path @ ''/v.sock''))))
        (ptry (act (on_world (spawn_fc os ''spawn firecracker: '' sock (dir_path @ ''/serial.log'')))) (\<lambda>pid.
         ptry (act (on_world (await_api os sock pid))) (\<lambda>_.
         ptry (act (\<lambda>mg. on_world (load_snapshot os sock pid (dir_path @ ''/vmstate.bin'') (dir_path @ ''/mem.bin'')
                           (mg_net_on mg) (v_slot v) None) mg)) (\<lambda>_.
         pbind (look (\<lambda>mg. of_nat (os_now os (mg_world mg) - start))) (\<lambda>elapsed.
         pseq (upd (set_pid vid (Some pid)))
        (pseq (upd (set_state vid Running))
        (ptry (write_meta_prog os vid) (\<lambda>_. Ret (Inr elapsed)))))))))))))))"

lemma run_wake [alone]: "run_alone (wake_prog os vid) = wake_vm os vid"
  by (intro ext) (simp add: wake_prog_def wake_vm_def alone Let_def cong: if_cong)

text \<open>What a start does once its guard has let it through.\<close>

definition start_from :: "'w os \<Rightarrow> string \<Rightarrow> Vm \<Rightarrow> ('w Manager, string + unit) prog" where
  "start_from os vid v
     = ptry (look (\<lambda>mg. ok_or ''InvalidId'' (instance_dir mg vid))) (\<lambda>dir_path.
       ptry (repin_prog os (v_slot v) (v_ip v)) (\<lambda>_.
       ptry (spawn_prog os vid dir_path (dir_path @ ''/rootfs.ext4'') (v_vcpus v) (v_mem_mib v) (v_slot v) (v_ip v))
         (\<lambda>(pid, vsock_on).
       pseq (upd (set_pid vid (Some pid)))
      (pseq (upd (upd_vms (update_vm vid (\<lambda>v. v\<lparr>v_vsock := vsock_on\<rparr>))))
      (pseq (upd (set_state vid Running)) (write_meta_prog os vid))))))"

definition start_prog :: "'w os \<Rightarrow> string \<Rightarrow> ('w Manager, string + unit) prog" where
  "start_prog os vid
     = ptry (act (start_guard os vid)) (\<lambda>g.
       case g of None \<Rightarrow> Ret (Inr ()) | Some v \<Rightarrow> start_from os vid v)"

lemma run_start [alone]: "run_alone (start_prog os vid) = start os vid"
  by (intro ext) (simp add: start_prog_def start_from_def start_def alone Let_def case_prod_unfold cong: case_congs)

definition exec_prog :: "(string \<Rightarrow> ('w, 'a) step) \<Rightarrow> string \<Rightarrow> ('w Manager, 'a ExecOutcome) prog" where
  "exec_prog call vid
     = pbind (look (\<lambda>mg. find_vm vid (mg_vms mg))) (\<lambda>r.
       case r of
         None \<Rightarrow> Ret ExecNotFound
       | Some v \<Rightarrow>
         if v_state v \<noteq> Running then Ret ExecNotRunning
         else if \<not> v_vsock v then Ret ExecUnavailable
         else
           pbind (look (\<lambda>mg. instance_path (mg_data_dir mg) (v_dir_id v))) (\<lambda>d.
           case d of
             None \<Rightarrow> Ret ExecNotFound
           | Some dir \<Rightarrow>
             pbind (act (on_world (call dir))) (\<lambda>r.
             case r of Inr x \<Rightarrow> Ret (ExecOk x) | Inl e \<Rightarrow> Ret (ExecFailed e))))"

lemma run_exec_prog [alone]: "run_alone (exec_prog call vid) = exec_with call vid"
  by (intro ext) (auto simp: exec_prog_def exec_with_def alone split: option.splits prod.splits sum.splits)

subsection \<open>Fork\<close>

definition fork_network_prog :: "'w os \<Rightarrow> string \<Rightarrow> ('w Manager, string + u32 option \<times> string option) prog" where
  "fork_network_prog os child_id
     = pbind (look mg_net_on) (\<lambda>net_on.
       if \<not> net_on then Ret (Inr (None, None))
       else
         ptry (act (take_slot None)) (\<lambda>s.
         pbind (look (\<lambda>mg. ip_for_slot mg s)) (\<lambda>ip.
         pbind (act (pin_slot os s ip)) (\<lambda>pinned.
         if pinned then Ret (Inr (Some s, ip))
         else pseq (upd (free_slot s))
             (pseq (upd (set_state child_id Errored)) (Ret (Inl ''TapSetupFailed'')))))))"

lemma run_fork_network [alone]: "run_alone (fork_network_prog os child_id) = fork_network os child_id"
  by (intro ext) (auto simp: fork_network_prog_def fork_network_def alone Let_def attempt_def split: prod.splits sum.splits bool.splits)

definition or_errored_prog :: "string \<Rightarrow> ('w Manager, string + 'a) prog \<Rightarrow> ('w Manager, string + 'a) prog" where
  "or_errored_prog vid p
     = pbind p (\<lambda>r. case r of Inl e \<Rightarrow> pseq (upd (set_state vid Errored)) (Ret (Inl e)) | Inr x \<Rightarrow> Ret (Inr x))"

lemma run_or_errored [alone]: "run_alone (or_errored_prog vid p) = (\<lambda>mg. or_errored vid (run_alone p mg))"
  by (intro ext) (simp add: or_errored_prog_def or_errored_def alone split: prod.splits sum.splits)

definition fork_restore_prog ::
    "'w os \<Rightarrow> string \<Rightarrow> string \<Rightarrow> u32 option \<Rightarrow> bool \<Rightarrow> ('w Manager, string + int) prog" where
  "fork_restore_prog os child_id child_dir child_slot parent_vsock
     = (let child_sock = child_dir @ ''/fc.sock''; uds = child_dir @ ''/v.sock'' in
        pseq (act (on_world (os_unlink os child_sock)))
       (ptry (act (on_world (spawn_fc os ''spawn child firecracker: '' child_sock (child_dir @ ''/serial.log'')))) (\<lambda>pid.
        ptry (or_errored_prog child_id (act (on_world (await_api os child_sock pid)))) (\<lambda>_.
        pseq (if parent_vsock then pseq (act (on_world (os_unlink os uds))) (Ret ()) else Ret ())
       (ptry (or_errored_prog child_id (act (\<lambda>mg. on_world (load_snapshot os child_sock pid (child_dir @ ''/vmstate.bin'')
                 (child_dir @ ''/mem.bin'') (mg_net_on mg) child_slot (if parent_vsock then Some uds else None)) mg)))
          (\<lambda>_. Ret (Inr pid)))))))"

lemma run_fork_restore [alone]:
  "run_alone (fork_restore_prog os child_id child_dir child_slot parent_vsock)
     = fork_restore os child_id child_dir child_slot parent_vsock"
  by (intro ext) (simp add: fork_restore_prog_def fork_restore_def alone Let_def)

definition fork_tail_prog ::
    "'w os \<Rightarrow> 'w deleter \<Rightarrow> Vm \<Rightarrow> string \<Rightarrow> string \<Rightarrow> ('w Manager, string + string option) prog" where
  "fork_tail_prog os del p child_id child_dir
     = ptry (fork_network_prog os child_id) (\<lambda>(child_slot, child_ip).
       ptry (fork_restore_prog os child_id child_dir child_slot (v_vsock p)) (\<lambda>pid.
       pseq (upd (publish child_id pid child_slot Running child_ip (v_vsock p)))
      (ptry (write_meta_prog os child_id) (\<lambda>_.
       pseq (act (\<lambda>mg. on_world (\<lambda>w. ((), fork_readdress os (mg_cidr mg) child_dir child_ip child_slot (mg_net_on mg)
                          (v_vsock p) w)) mg))
      (ptry (commit_prog os del child_id) (\<lambda>_. Ret (Inr child_ip)))))))"

lemma run_fork_tail [alone]:
  "deletes os del \<Longrightarrow> run_alone (fork_tail_prog os del p child_id child_dir) = fork_tail os p child_id child_dir"
  by (intro ext) (simp add: fork_tail_prog_def fork_tail_def alone Let_def case_prod_unfold)

text \<open>The state of the parent is read a second time, in a section of its own.\<close>

definition fork_prog ::
    "'w os \<Rightarrow> 'w deleter \<Rightarrow> string \<Rightarrow> string \<Rightarrow> string \<Rightarrow> ('w Manager, string + string option) prog" where
  "fork_prog os del parent_id child_id child_name
     = (if \<not> valid_vm_id child_id then Ret (Inl ''InvalidId'')
        else
          ptry (look (\<lambda>mg. ok_or ''NotFound'' (find_vm parent_id (mg_vms mg)))) (\<lambda>p.
          ptry (look (\<lambda>mg. ok_or ''InvalidId'' (instance_dir mg parent_id))) (\<lambda>parent_dir.
          ptry (look (\<lambda>mg. ok_or ''InvalidId'' (sock_path mg parent_id))) (\<lambda>parent_sock.
          ptry (look (\<lambda>mg. ok_or ''InvalidId'' (instance_path (mg_data_dir mg) child_id))) (\<lambda>child_dir.
          ptry (look (\<lambda>mg. ok_or ''NotFound'' (map_option v_state (find_vm parent_id (mg_vms mg))))) (\<lambda>parent_state.
          ptry (act (on_world (parent_snapshot os parent_sock parent_dir (v_state p = Running) parent_state))) (\<lambda>_.
          ptry (act (on_world (copy_instance os parent_dir child_dir))) (\<lambda>_.
          ptry (act (register_section (child_vm p child_id child_name))) (\<lambda>_.
          fork_tail_prog os del p child_id child_dir)))))))))"

lemma attempt_ok_or:
  "attempt (ok_or e x, s) k = (case x of None \<Rightarrow> (Inl e, s) | Some y \<Rightarrow> k y s)"
  by (cases x) simp_all

lemma attempt_if: "attempt (if b then r else r') k = (if b then attempt r k else attempt r' k)"
  by simp

lemma attempt_cong: "r = r' \<Longrightarrow> (\<And>x s. r' = (Inr x, s) \<Longrightarrow> k x s = k' x s) \<Longrightarrow> attempt r k = attempt r' k'"
  by (auto simp: attempt_def split: prod.splits sum.splits)

lemma run_fork [alone]: "deletes os del \<Longrightarrow> run_alone (fork_prog os del parent child name) = fork os parent child name"
proof
  fix mg :: "'a Manager"
  assume d: "deletes os del"
  have i: "v_id (child_vm p child name) = child" for p by (simp add: child_vm_def)
  show "run_alone (fork_prog os del parent child name) mg = fork os parent child name mg"
    unfolding fork_prog_def fork_def
    by (simp add: d alone attempt_ok_or attempt_if register_section_def i cong: attempt_cong if_cong split: option.split)
qed

subsection \<open>Refill and garbage collection\<close>

definition set_backoff :: "'w os \<Rightarrow> PoolSpec \<Rightarrow> 'w Manager \<Rightarrow> 'w Manager" where
  "set_backoff os spec mg
     = mg\<lparr>mg_backoff := (mg_backoff mg)(spec_key spec \<mapsto> os_now os (mg_world mg) + REFILL_BACKOFF)\<rparr>"

fun refill_loop_prog :: "'w os \<Rightarrow> 'w deleter \<Rightarrow> nat \<Rightarrow> PoolSpec \<Rightarrow> ('w Manager, unit) prog" where
  "refill_loop_prog os del 0 spec = Ret ()"
| "refill_loop_prog os del (Suc n) spec
     = pbind (look (\<lambda>mg. ps_count spec \<le> pooled_count_matching (mg_vms mg) spec)) (\<lambda>enough.
       if enough then Ret ()
       else
         pbind (look (\<lambda>mg. ''pool-'' @ show_hex (unat (now_ms os (mg_world mg))))) (\<lambda>vid.
         pbind (cold_create_prog os (pool_create_spec vid spec) Pooled None) (\<lambda>r.
         case r of
           Inl _ \<Rightarrow> pseq (del vid) (upd (set_backoff os spec))
         | Inr _ \<Rightarrow> refill_loop_prog os del n spec)))"

lemma run_refill_loop [alone]:
  "deletes os del \<Longrightarrow> run_alone (refill_loop_prog os del n spec) mg = ((), snd (refill_loop os n spec mg))"
proof (induction n arbitrary: mg)
  case (Suc n)
  then show ?case
    by (auto simp: alone set_backoff_def deletes_def Let_def simp del: append_Cons split: prod.splits sum.splits)
qed simp

definition backoff_section :: "'w os \<Rightarrow> PoolSpec \<Rightarrow> 'w Manager \<Rightarrow> bool \<times> 'w Manager" where
  "backoff_section os spec mg
     = (let (active, bo) = backoff_active (mg_backoff mg) (spec_key spec) (os_now os (mg_world mg))
        in (active, mg\<lparr>mg_backoff := bo\<rparr>))"

text \<open>
  The loop of the source has no bound of its own.  Alone it ends within one round more than the
  count; when others claim its machines meanwhile it may go on, by any number of \<open>extra\<close> rounds.
\<close>

definition refill_spec_prog :: "'w os \<Rightarrow> 'w deleter \<Rightarrow> nat \<Rightarrow> PoolSpec \<Rightarrow> ('w Manager, unit) prog" where
  "refill_spec_prog os del extra spec
     = pbind (act (backoff_section os spec)) (\<lambda>active.
       if active then Ret () else refill_loop_prog os del (Suc (unat (ps_count spec)) + extra) spec)"

lemma run_refill_spec [alone]:
  "deletes os del \<Longrightarrow> run_alone (refill_spec_prog os del 0 spec) = (\<lambda>mg. ((), refill_spec os spec mg))"
  by (intro ext)
    (auto simp: refill_spec_prog_def refill_spec_def backoff_section_def alone Let_def
      simp del: refill_loop_prog.simps refill_loop.simps split: prod.splits)

definition refill_pool_prog :: "'w os \<Rightarrow> 'w deleter \<Rightarrow> nat \<Rightarrow> ('w Manager, unit) prog" where
  "refill_pool_prog os del extra
     = pbind (look (\<lambda>mg. pool_specs (mg_pool_target mg) (mg_template_pools mg))) (\<lambda>specs.
       pbind (look (\<lambda>mg. surplus_pooled_ids (mg_vms mg) specs)) (\<lambda>surplus.
       pseq (pfor surplus (\<lambda>sid. pseq (del sid) (Ret ())))
            (pfor specs (refill_spec_prog os del extra))))"

lemma run_refill_pool [alone]:
  "deletes os del \<Longrightarrow> run_alone (refill_pool_prog os del 0) = (\<lambda>mg. ((), refill_pool os mg))"
  by (intro ext) (simp add: refill_pool_prog_def refill_pool_def alone Let_def deletes_def)

definition gc_entry_prog :: "'w os \<Rightarrow> nat \<Rightarrow> nat \<Rightarrow> dirent option \<Rightarrow> ('w Manager, unit) prog" where
  "gc_entry_prog os now min_age_secs entry
     = (case entry of
          None \<Rightarrow> Ret ()
        | Some d \<Rightarrow>
          (case gc_image_for_entry (from_utf8_lossy (de_name d)) of
             None \<Rightarrow> Ret ()
           | Some img \<Rightarrow>
             let old_enough = (case de_modified d of
                   Some m \<Rightarrow> m \<le> now \<and> min_age_secs \<le> (now - m) div 1000
                 | None \<Rightarrow> False);
                 referenced = look (\<lambda>mg. image_referenced (mg_vms mg) (mg_template_pools mg) img)
             in if img = DEFAULT_IMAGE \<or> \<not> old_enough then Ret ()
                else pbind referenced (\<lambda>r1. if r1 then Ret () else
                     pbind referenced (\<lambda>r2. if r2 then Ret () else
                     pseq (act (\<lambda>mg. on_world (os_unlink os (mg_data_dir mg @ ''/images/'' @ de_name d)) mg)) (Ret ())))))"

lemma run_gc_entry [alone]: "run_alone (gc_entry_prog os now age e) = (\<lambda>mg. ((), gc_entry os now age e mg))"
  by (intro ext) (auto simp: gc_entry_prog_def gc_entry_def alone Let_def split: option.splits)

definition gc_prog :: "'w os \<Rightarrow> nat \<Rightarrow> ('w Manager, unit) prog" where
  "gc_prog os min_age_secs
     = pbind (look (\<lambda>mg. (os_read_dir os (mg_data_dir mg @ ''/images'') (mg_world mg), os_systime os (mg_world mg))))
         (\<lambda>(listing, now).
       case listing of
         None \<Rightarrow> Ret ()
       | Some entries \<Rightarrow> pfor entries (gc_entry_prog os now min_age_secs))"

lemma run_gc [alone]: "run_alone (gc_prog os age) = (\<lambda>mg. ((), gc_images os age mg))"
  by (intro ext) (simp add: gc_prog_def gc_images_def alone split: option.splits)

subsection \<open>Every operation\<close>

definition finish :: "('s, 'a) prog \<Rightarrow> ('s, unit) prog" where
  "finish p = pseq p (Ret ())"

lemma run_finish [alone]: "run_alone (finish p) = (\<lambda>s. ((), snd (run_alone p s)))"
  by (simp add: finish_def alone)

fun op_prog :: "'w os \<Rightarrow> 'w deleter \<Rightarrow> nat \<Rightarrow> mgr_op \<Rightarrow> ('w Manager, unit) prog" where
  "op_prog os del extra (OpCreate spec) = finish (create_prog os del spec)"
| "op_prog os del extra (OpFork parent child name) = finish (fork_prog os del parent child name)"
| "op_prog os del extra (OpDelete vid) = finish (del vid)"
| "op_prog os del extra (OpStop vid) = finish (stop_prog os vid)"
| "op_prog os del extra (OpStart vid) = finish (start_prog os vid)"
| "op_prog os del extra (OpPause vid) = finish (pause_prog os vid)"
| "op_prog os del extra (OpResume vid) = finish (resume_prog os vid)"
| "op_prog os del extra (OpSleep vid) = finish (sleep_prog os vid)"
| "op_prog os del extra (OpWake vid) = finish (wake_prog os vid)"
| "op_prog os del extra (OpExec vid cmd ms) = finish (exec_prog (\<lambda>dir. guest_exec os dir cmd ms) vid)"
| "op_prog os del extra (OpExecStream vid cmd ms) = finish (exec_prog (\<lambda>dir. guest_exec_stream os dir cmd ms) vid)"
| "op_prog os del extra (OpExpose vid port) = finish (expose_prog os vid port)"
| "op_prog os del extra (OpUnexpose vid port) = finish (unexpose_prog os vid port)"
| "op_prog os del extra (OpSetPools specs) = finish (act (set_pools os specs))"
| "op_prog os del extra (OpBeginCapture vid) = finish (act (begin_capture vid))"
| "op_prog os del extra (OpEndCapture vid) = upd (end_capture vid)"
| "op_prog os del extra (OpFcExit vid pid) = fc_exit_prog os vid pid"
| "op_prog os del extra OpSweepDead = sweep_prog os"
| "op_prog os del extra (OpPoolTick n)
     = pseq (refill_pool_prog os del extra) (if (n + 1) mod 120 = 0 then gc_prog os 3600 else Ret ())"

lemma run_op: "deletes os del \<Longrightarrow> run_alone (op_prog os del 0 op) mg = ((), mgr_apply os op mg)"
  by (cases op) (simp_all add: alone deletes_def [of os del] mgr_exec_def mgr_exec_stream_def pool_tick_def Let_def)

lemma deletes_prog: "deletes os (delete_prog os)"
  by (simp add: deletes_def alone)


end
