(* ===== verification/Vm_Interleave.thy ===== *)
theory Vm_Interleave
  imports Vm_Atomic Vm_Gaps Vm_Props
begin

text \<open>
  Operations of the manager that run at once.  A slot that a creation has claimed and not yet
  written into its record is under way; the invariant \<open>busy\<close> says that no record holds it and that it
  stays marked.  Every operation keeps that at each of its steps, a deletion when it is one step.
  As the code has it, a deletion is many: two runs show what can happen between them.
\<close>

subsection \<open>Slots under way\<close>

definition busy :: "conf \<Rightarrow> u32 set \<Rightarrow> 'w Manager \<Rightarrow> bool" where
  "busy k F mg
     = (mgr_inv k mg \<and> F \<inter> set (held (mg_vms mg)) = {}
        \<and> (case mg_allocator mg of None \<Rightarrow> F = {} | Some a \<Rightarrow> F \<subseteq> used_slots a))"

interpretation flight: resources "busy k" for k
  by unfold_locales (auto simp: busy_def split: option.splits)

lemma busy_shrink:
  assumes "busy k F mg" "mgr_inv k mg'" "set (held (mg_vms mg')) \<subseteq> set (held (mg_vms mg))" "mg_allocator mg' = mg_allocator mg"
  shows "busy k F mg'"
proof -
  have "F \<inter> set (held (mg_vms mg')) = {}" using assms(1,3) unfolding busy_def by blast
  then show ?thesis using assms(1,2,4) by (simp add: busy_def)
qed

lemma busy_core:
  assumes "core mg' = core mg" "busy k F mg"
  shows "busy k F mg'"
  using assms(2) mgr_inv_core [OF assms(1), of k] core_eqD(1,2) [OF assms(1)] by (intro busy_shrink [OF assms(2)]) (simp_all add: busy_def)

lemma busy_steps [simp]:
  "busy k F mg \<Longrightarrow> busy k F (snd (on_world f mg))"
  "busy k F mg \<Longrightarrow> busy k F (snd (on_host g mg))"
  "busy k F mg \<Longrightarrow> busy k F (snd (refresh_isolation os mg))"
  "busy k F mg \<Longrightarrow> busy k F (refresh_ingress os mg)"
  "busy k F mg \<Longrightarrow> busy k F (snd (pin_slot os s ip mg))"
  "busy k F mg \<Longrightarrow> busy k F (snd (prepare_disk os spec dir mg))"
  "busy k F mg \<Longrightarrow> busy k F (mg\<lparr>mg_host := h\<rparr>)"
  by (rule busy_core [rotated], assumption, simp)+

lemma busy_fields [simp]:
  "busy k F (mg\<lparr>mg_template_pools := ps\<rparr>) = busy k F mg"
  "busy k F (mg\<lparr>mg_capturing := cs\<rparr>) = busy k F mg"
  "busy k F (mg\<lparr>mg_backoff := bo\<rparr>) = busy k F mg"
  by (simp_all add: busy_def)

lemma busy_update:
  assumes "busy k F mg" "\<And>v. vm_key (f v) = vm_key v" "\<And>v. valid_vm_id (v_id v) \<Longrightarrow> valid_vm_id (v_id (f v))"
  shows "busy k F (upd_vms (update_vm vid f) mg)"
proof -
  have m: "mgr_inv k mg" using assms(1) by (simp add: busy_def)
  have "v_slot (f v) = v_slot v" for v using assms(2) [of v] by (simp add: vm_key_def)
  then have "map v_slot (update_vm vid f (mg_vms mg)) = map v_slot (mg_vms mg)" by (rule map_update_vm)
  then have h: "held (update_vm vid f (mg_vms mg)) = held (mg_vms mg)" by (rule held_cong)
  have "mgr_inv k (upd_vms (update_vm vid f) mg)" by (rule mgr_inv_update [OF m]) (simp_all add: assms(2,3))
  then show ?thesis by (rule busy_shrink [OF assms(1)]) (simp_all add: upd_vms_def h)
qed

lemma busy_set [simp]:
  "busy k F mg \<Longrightarrow> busy k F (set_state vid st mg)"
  "busy k F mg \<Longrightarrow> busy k F (set_pid vid p mg)"
  "busy k F mg \<Longrightarrow> busy k F (upd_vms (update_vm vid (\<lambda>v. v\<lparr>v_vsock := b\<rparr>)) mg)"
  "busy k F mg \<Longrightarrow> busy k F (upd_vms (update_vm vid (\<lambda>v. v\<lparr>v_state := Errored, v_pid := None\<rparr>)) mg)"
  unfolding set_state_def set_pid_def by (rule busy_update; simp add: vm_key_def)+

text \<open>Taking a slot, giving it back, and writing it into a record.\<close>

lemma busy_take:
  assumes "busy k R mg" "take_slot None mg = (Inr s, mg')"
  shows "busy k (insert s R) mg' \<and> s \<notin> R"
proof -
  obtain a a' where a: "mg_allocator mg = Some a" "alloc_claim a = (Some s, a')" "mg' = mg\<lparr>mg_allocator := Some a'\<rparr>"
    using take_slot_cases [OF assms(2)] by auto
  have i: "mgr_inv k mg" "R \<inter> set (held (mg_vms mg)) = {}" "R \<subseteq> used_slots a" using assms(1) a(1) by (auto simp: busy_def)
  then have sl: "slots_inv (mg_cidr mg) (mg_vms mg) (Some a)" using a(1) by (simp add: mgr_inv_def)
  then have c: "used_slots a' = insert s (used_slots a)" "s \<notin> used_slots a"
    using slots.claim_Some [of a s a'] a(2) by (auto simp: slots_inv_Some)
  have t: "touched (mg_allocator mg) (Some a')" using a by (auto simp: touched_def)
  have "mgr_inv k mg'" by (rule mgr_inv_unbuilt [OF i(1)]) (use a t in \<open>auto simp: unbuilt_def\<close>)
  then show ?thesis using i a c slots_inv_claim(2) [OF sl a(2)] by (auto simp: busy_def)
qed

lemma busy_take_failed: "busy k R mg \<Longrightarrow> take_slot None mg = (Inl e, mg') \<Longrightarrow> busy k R mg'"
  using take_slot_cases [of mg "Inl e" mg'] by (auto intro: busy_core)

lemma busy_free:
  assumes "busy k (insert s R) mg" "s \<notin> R"
  shows "busy k R (free_slot s mg)"
proof (cases "mg_allocator mg")
  case (Some a)
  have i: "mgr_inv k mg" "s \<notin> set (held (mg_vms mg))" "R \<inter> set (held (mg_vms mg)) = {}" "R \<subseteq> used_slots a"
    using assms(1) Some by (auto simp: busy_def)
  then have sl: "slots_inv (mg_cidr mg) (mg_vms mg) (Some a)" using Some by (simp add: mgr_inv_def)
  have r: "alloc_inv (alloc_free a s)" "used_slots (alloc_free a s) = used_slots a - {s}"
    "alloc_cidr (alloc_free a s) = alloc_cidr a" "length (alloc_used (alloc_free a s)) = length (alloc_used a)"
    using slots.release [of a s] sl alloc_ops_shape [of a] by (auto simp: slots_inv_Some)
  have "slots_inv (mg_cidr mg) (mg_vms mg) (Some (alloc_free a s))"
    using sl r i(2) by (auto simp: slots_inv_Some)
  then show ?thesis using i Some r(2) assms(2) by (auto simp: busy_def mgr_inv_def conf_def free_slot_def)
qed (use assms in \<open>simp add: busy_def\<close>)

lemma held_fill:
  assumes "\<And>u. v_slot (f u) = slot" "distinct (held vms)" "\<And>s. slot = Some s \<Longrightarrow> s \<notin> set (held vms)"
  shows "distinct (held (update_vm vid f vms)) \<and> set (held (update_vm vid f vms)) \<subseteq> set_option slot \<union> set (held vms)"
  using assms by (induction vms) (auto split: if_splits option.splits)

definition owned :: "conf \<Rightarrow> u32 option \<Rightarrow> string option \<Rightarrow> u32 set \<Rightarrow> bool" where
  "owned k slot ip S
     = (case k of (dir, net, c, has) \<Rightarrow>
          S = set_option slot \<and> (has \<longrightarrow> ip = map_option (\<lambda>s. fmt_ip (host_at c s)) slot))"

lemma busy_publish:
  assumes "busy k (S \<union> R) mg" "S \<inter> R = {}" "owned k slot ip S"
  shows "busy k R (publish vid pid slot st ip vs mg)"
proof -
  define f where "f = (\<lambda>v :: Vm. v\<lparr>v_pid := Some pid, v_slot := slot, v_state := st, v_ip := ip, v_vsock := vs\<rparr>)"
  let ?vms = "update_vm vid f (mg_vms mg)"
  have inv: "mgr_inv k mg" "(S \<union> R) \<inter> set (held (mg_vms mg)) = {}" and S: "S = set_option slot"
    using assms by (auto simp: busy_def owned_def split: prod.splits)
  have m: "map v_exposes ?vms = map v_exposes (mg_vms mg)" "map (\<lambda>v. (v_id v, v_dir_id v)) ?vms = map (\<lambda>v. (v_id v, v_dir_id v)) (mg_vms mg)"
    by (rule map_update_vm; simp add: f_def)+
  have ports: "all_node_ports ?vms = all_node_ports (mg_vms mg)"
    using arg_cong [OF m(1), of "\<lambda>es. concat (map (map node_port) es)"] by (simp add: all_node_ports_def comp_def)
  have ids: "ids_inv ?vms = ids_inv (mg_vms mg)"
    using arg_cong [OF m(2), of "list_all (\<lambda>(i, d). valid_vm_id i \<and> valid_vm_id d)"] by (simp add: ids_inv_def list.pred_map comp_def)
  have h: "distinct (held ?vms)" "set (held ?vms) \<subseteq> S \<union> set (held (mg_vms mg))"
    using held_fill [of f slot "mg_vms mg" vid] inv S by (auto simp: f_def mgr_inv_def slots_inv_def)
  have "v_ip u = map_option (\<lambda>s. fmt_ip (host_at (mg_cidr mg) s)) (v_slot u)" if "mg_allocator mg = Some a" "u \<in> set ?vms" for a u
    using set_update_vm [OF that(2)] inv(1) assms(3) that(1)
    by (auto simp: f_def mgr_inv_def slots_inv_Some owned_def conf_def split: prod.splits)
  then have "slots_inv (mg_cidr mg) ?vms (mg_allocator mg)"
    using h inv(1) assms(1) by (auto simp: mgr_inv_def slots_inv_def busy_def split: option.splits)
  then show ?thesis
    using assms(1,2) inv ids ports h(2)
    by (auto simp: busy_def mgr_inv_def ports_inv_def conf_def publish_def upd_vms_def f_def split: option.splits)
qed

lemma busy_delete [simp]:
  assumes "busy k F mg"
  shows "busy k F (snd (delete os vid mg))"
proof -
  let ?slot = "Option.bind (find_vm vid (mg_vms mg)) v_slot"
  have m: "mgr_inv k mg" "F \<inter> set (held (mg_vms mg)) = {}" using assms by (auto simp: busy_def)
  have d: "distinct (held (mg_vms mg))" using m by (simp add: mgr_inv_def slots_inv_def)
  have v: "set (held (remove_first (\<lambda>v. v_id v = vid) (mg_vms mg))) \<subseteq> set (held (mg_vms mg))"
    using held_remove [OF d, of vid] by (auto split: option.splits dest: notin_set_remove1 set_remove1_subset [THEN subsetD])
  have s: "s \<in> set (held (mg_vms mg))" if "?slot = Some s" for s
    using that find_vm_Some by (fastforce simp: in_held Option.bind_eq_Some_conv)
  have "busy k F (deleted vid mg)"
    using mgr_inv_deleted [OF m(1), of vid] v s assms m(1)
    by (auto simp: busy_def deleted_def upd_vms_def free_slot_def mgr_inv_def slots_inv_Some Let_def slots.release
        split: option.splits bool.splits)
  then show ?thesis using busy_core [OF delete_core] by blast
qed

subsection \<open>Every operation keeps the invariant at each step\<close>

lemma keeps_world [keeping]:
  "keeps (busy k) (act (on_world f))"
  "keeps (busy k) (act (\<lambda>mg. on_world (g mg) mg))"
  "keeps (busy k) (act (\<lambda>mg. map_err h (on_world (g mg) mg)))"
  "keeps (busy k) (act (pin_slot os s ip))"
  "keeps (busy k) (act (prepare_disk os spec dir))"
  "keeps (busy k) (act (refresh_isolation os))"
  "keeps (busy k) (upd (refresh_ingress os))"
  "keeps (busy k) (upd (set_state vid st))"
  "keeps (busy k) (upd (set_pid vid p))"
  by (intro keeping; simp)+

lemma keeps_write_meta [keeping]: "keeps (busy k) (write_meta_prog os vid)"
  unfolding write_meta_prog_def Let_def by (intro keeping)

lemma busy_expose:
  assumes "busy k F mg"
  shows "busy k F (snd (expose_section vid gport mg))" "busy k F (snd (unexpose_section vid gport mg))"
proof -
  fix os :: "'a os"
  have i: "mgr_inv k mg" using assms by (simp add: busy_def)
  have c: "core (snd (expose os vid gport mg)) = core (snd (expose_section vid gport mg))"
      "core (snd (unexpose os vid gport mg)) = core (snd (unexpose_section vid gport mg))"
    by (auto simp: expose_def expose_section_def unexpose_def unexpose_section_def Let_def split: option.splits)
  have m: "map v_slot (update_vm vid (\<lambda>v. v\<lparr>v_exposes := g v\<rparr>) vms) = map v_slot vms" for g vms
    by (rule map_update_vm) simp
  have h: "held (mg_vms (snd (expose_section vid gport mg))) = held (mg_vms mg)
      \<and> mg_allocator (snd (expose_section vid gport mg)) = mg_allocator mg"
      "held (mg_vms (snd (unexpose_section vid gport mg))) = held (mg_vms mg)
      \<and> mg_allocator (snd (unexpose_section vid gport mg)) = mg_allocator mg"
    by (auto simp: expose_section_def unexpose_section_def Let_def upd_vms_def held_cong [OF m] split: option.splits)
  show "busy k F (snd (expose_section vid gport mg))" "busy k F (snd (unexpose_section vid gport mg))"
    using h mgr_inv_core [OF c(1), of k] mgr_inv_core [OF c(2), of k]
      mgr_inv_expose [OF i, of os vid gport] mgr_inv_unexpose [OF i, of os vid gport]
    by (auto intro: busy_shrink [OF assms])
qed

lemma keeps_expose [keeping]:
  "keeps (busy k) (expose_prog os vid gport)" "keeps (busy k) (unexpose_prog os vid gport)"
  unfolding expose_prog_def unexpose_prog_def by (intro keeping busy_expose; assumption)+

lemma keeps_spawn [keeping]: "keeps (busy k) (spawn_prog os vid dir rootfs vcpus mem slot ip)"
  unfolding spawn_prog_def by (intro keeping)

lemma keeps_fc_exit [keeping]: "keeps (busy k) (fc_exit_prog os vid pid)"
  unfolding fc_exit_prog_def by (intro keeping) (simp add: fc_exit_section_def split: option.splits)

lemma keeps_sweep [keeping]: "keeps (busy k) (sweep_prog os)"
  unfolding sweep_prog_def by (intro keeping)

lemma keeps_stop [keeping]: "keeps (busy k) (stop_prog os vid)"
  unfolding stop_prog_def by (intro keeping)

lemma keeps_exclusive [keeping]: "keeps (busy k) (exclusive (delete_prog os vid))"
  unfolding exclusive_def alone by (intro keeping) simp

lemma keeps_commit [keeping]: "(\<And>i. keeps (busy k) (del i)) \<Longrightarrow> keeps (busy k) (commit_prog os del vid)"
  unfolding commit_prog_def by (intro keeping)

lemma keeps_park [keeping]: "keeps (busy k) (park_prog os vid st)"
  unfolding park_prog_def by (intro keeping)

lemma busy_append:
  assumes "busy k F mg" "valid_vm_id (v_id v)" "valid_vm_id (v_dir_id v)" "v_slot v = None" "v_ip v = None" "v_exposes v = []"
  shows "busy k F (upd_vms (\<lambda>vs. vs @ [v]) mg)"
proof (rule busy_shrink [OF assms(1)])
  show "mgr_inv k (upd_vms (\<lambda>vs. vs @ [v]) mg)"
    using assms by (intro mgr_inv_append) (simp_all add: busy_def)
qed (simp_all add: upd_vms_def assms(4))

lemma keeps_register:
  assumes "valid_vm_id (v_id v)" "valid_vm_id (v_dir_id v)" "v_slot v = None" "v_ip v = None" "v_exposes v = []"
  shows "keeps (busy k) (act (register_section v))"
  by (intro keeping) (simp add: register_section_def busy_append assms)

text \<open>Claiming an address leaves the program with the slot, or with nothing.\<close>

definition addressed :: "conf \<Rightarrow> (string + u32 option \<times> string option) \<Rightarrow> u32 set \<Rightarrow> bool" where
  "addressed k r S = (case r of Inl _ \<Rightarrow> True | Inr (slot, ip) \<Rightarrow> owned k slot ip S)"

lemma safe_take: "safe (busy k) (act (take_slot None)) {} (\<lambda>r S. case r of Inl _ \<Rightarrow> S = {} | Inr s \<Rightarrow> S = {s})"
  unfolding safe_act
proof (intro allI impI)
  fix mg :: "'a Manager" and R
  assume b: "busy k ({} \<union> R) mg \<and> {} \<inter> R = {}"
  obtain r mg' where t: "take_slot None mg = (r, mg')" by (rule prod.exhaust)
  show "\<exists>S'. S' \<inter> R = {} \<and> busy k (S' \<union> R) (snd (take_slot None mg))
      \<and> (case fst (take_slot None mg) of Inl _ \<Rightarrow> S' = {} | Inr s \<Rightarrow> S' = {s})"
  proof (cases r)
    case (Inl e)
    then show ?thesis using b t busy_take_failed [of k R mg e mg'] by (intro exI [of _ "{}"]) simp
  next
    case (Inr s)
    then show ?thesis using b t busy_take [of k R mg s mg'] by (intro exI [of _ "{s}"]) simp
  qed
qed

lemma safe_free: "safe (busy k) (upd (free_slot s)) {s} (\<lambda>_ S. S = {})"
  unfolding upd_def safe_act by (auto intro!: busy_free)

lemma safe_address:
  assumes "\<And>e. keeps (busy k) (after e)"
  shows "safe (busy k) (pbind (look mg_net_on) (\<lambda>net_on.
       if \<not> net_on then Ret (Inr (None, None))
       else
         ptry (act (take_slot None)) (\<lambda>s.
         pbind (look (\<lambda>mg. ip_for_slot mg s)) (\<lambda>ip.
         pbind (act (pin_slot os s ip)) (\<lambda>pinned.
         if pinned then Ret (Inr (Some s, ip))
         else pseq (upd (free_slot s)) (pseq (after s) (Ret (Inl ''TapSetupFailed'')))))))) {} (addressed k)"
proof -
  obtain dir net c has where k: "k = (dir, net, c, has)" by (rule prod_cases4)
  have undo: "safe (busy k) (pseq (upd (free_slot s)) (pseq (after s) (Ret (Inl e)))) {s} (addressed k)" for s e
    by (rule safe_seq, rule safe_weaken [OF safe_free]) (auto intro!: safe_seq safe_keeps [OF assms] simp: addressed_def)
  have ip: "safe (busy k) (look (\<lambda>mg. ip_for_slot mg s)) {s} (\<lambda>ip S. S = {s} \<and> owned k (Some s) ip {s})" for s
    by (rule safe_look)
      (auto simp: k busy_def mgr_inv_def conf_def owned_def ip_for_slot_def alloc_ip_for_def slots_inv_Some split: option.splits)
  have pin: "safe (busy k) (pbind (act (pin_slot os s ip)) (\<lambda>pinned. if pinned then Ret (Inr (Some s, ip))
         else pseq (upd (free_slot s)) (pseq (after s) (Ret (Inl ''TapSetupFailed''))))) {s} (addressed k)"
    if "owned k (Some s) ip {s}" for s ip
    by (rule safe_after) (use that undo in \<open>auto intro: keeping simp: addressed_def\<close>)
  have take: "safe (busy k) (pbind (look (\<lambda>mg. ip_for_slot mg s)) (\<lambda>ip.
         pbind (act (pin_slot os s ip)) (\<lambda>pinned. if pinned then Ret (Inr (Some s, ip))
         else pseq (upd (free_slot s)) (pseq (after s) (Ret (Inl ''TapSetupFailed'')))))) {s} (addressed k)" for s
    by (rule safe_pbind, rule safe_weaken [OF ip]) (auto intro: pin)
  have none: "addressed k (Inr (None, None)) {}" by (simp add: addressed_def owned_def k)
  have "safe (busy k) (ptry (act (take_slot None)) (\<lambda>s.
         pbind (look (\<lambda>mg. ip_for_slot mg s)) (\<lambda>ip.
         pbind (act (pin_slot os s ip)) (\<lambda>pinned. if pinned then Ret (Inr (Some s, ip))
         else pseq (upd (free_slot s)) (pseq (after s) (Ret (Inl ''TapSetupFailed''))))))) {} (addressed k)"
    by (rule safe_ptry, rule safe_weaken [OF safe_take]) (auto simp: addressed_def split: sum.splits intro!: take)
  then show ?thesis by (intro safe_after keeping) (simp add: none)
qed

lemma pseq_Ret: "pseq (Ret x) q = q"
  by (simp add: pseq_def)

lemma safe_networks:
  "safe (busy k) (claim_network_prog os None) {} (addressed k)"
  "safe (busy k) (fork_network_prog os cid) {} (addressed k)"
  using safe_address [where after = "\<lambda>_. Ret ()" and os = os and k = k]
    safe_address [where after = "\<lambda>_. upd (set_state cid Errored)" and os = os and k = k]
  by (simp_all add: claim_network_prog_def fork_network_prog_def keeping pseq_Ret cong: if_cong)

lemma safe_publish: "owned k slot ip S \<Longrightarrow> safe (busy k) (upd (publish vid pid slot st ip vs)) S (\<lambda>_ S. S = {})"
  unfolding upd_def safe_act by (auto intro: busy_publish)

text \<open>What the two ways of building a machine share: spawn under the claimed address, then publish.\<close>

lemma safe_build:
  assumes "safe (busy k) net {} (addressed k)" "\<And>slot ip. keeps (busy k) (spawn slot ip)" "\<And>slot ip x. fine (busy k) (rest slot ip x)"
  shows "fine (busy k) (ptry net (\<lambda>(slot, ip). ptry (spawn slot ip) (\<lambda>x.
           pseq (upd (publish vid (pid x) slot st ip (vs x))) (rest slot ip x))))"
proof (rule safe_ptry, rule safe_weaken [OF assms(1)])
  fix r :: "string + u32 option \<times> string option" and T
  assume a: "addressed k r T"
  have "safe (busy k) (ptry (spawn slot ip) (\<lambda>x. pseq (upd (publish vid (pid x) slot st ip (vs x))) (rest slot ip x))) T (\<lambda>_ _. True)"
    if "owned k slot ip T" for slot ip
    by (rule safe_try_after [OF assms(2)], simp, rule safe_seq, rule safe_weaken [OF safe_publish [OF that]])
      (simp add: assms(3))
  then show "case r of Inl e \<Rightarrow> True | Inr x \<Rightarrow> safe (busy k) (case x of (slot, ip) \<Rightarrow> ptry (spawn slot ip) (\<lambda>x.
       pseq (upd (publish vid (pid x) slot st ip (vs x))) (rest slot ip x))) T (\<lambda>_ _. True)"
    using a by (auto simp: addressed_def split: sum.splits)
qed

lemma fine_cold_create_inner: "fine (busy k) (cold_create_inner_prog os spec st None)"
proof -
  have rest: "fine (busy k) (write_meta_prog os (cs_id spec))" by (rule flight.fine_keeps) (rule keeping)
  have "fine (busy k) (ptry (claim_network_prog os None) (\<lambda>(slot, ip).
       ptry (ptry (spawn_prog os (cs_id spec) dir (dir @ ''/rootfs.ext4'') (cs_vcpus spec) (cs_mem_mib spec) slot ip)
               (\<lambda>x. ptry (park_prog os (cs_id spec) st) (\<lambda>_. Ret (Inr x)))) (\<lambda>x.
       pseq (upd (publish (cs_id spec) (fst x) slot st ip (snd x))) (write_meta_prog os (cs_id spec)))))" for dir
    by (rule safe_build [OF safe_networks(1)]) (intro keeping, rule rest)
  note build = this [simplified ptry_assoc ptry_Inr]
  have first: "fine (busy k) (look g :: ('a Manager, string + string) prog)"
      "fine (busy k) (act (prepare_disk os spec dir))" for g dir
    by (rule flight.fine_keeps, rule keeping)+
  show ?thesis
    unfolding cold_create_inner_prog_def
    by (rule flight.fine_seqs(2) [OF first(1)], rule flight.fine_seqs(2) [OF first(2)])
      (use build in \<open>simp add: case_prod_unfold\<close>)
qed

lemma fine_cold_create: "valid_vm_id (cs_id spec) \<Longrightarrow> fine (busy k) (cold_create_prog os spec st None)"
  unfolding cold_create_prog_def
  by (intro flight.fine_seqs flight.fine_pbind fine_cold_create_inner flight.fine_keeps keeps_register)
    (auto simp: new_vm_def intro!: flight.fine_keeps keeping split: sum.splits)

lemma busy_retag:
  assumes "busy k F mg" "valid_vm_id (cs_id spec)"
  shows "busy k F (snd (retag_section spec mg)) \<and> (\<forall>i. fst (retag_section spec mg) = Some i \<longrightarrow> valid_vm_id i)"
proof (cases "find_pooled_match (mg_vms mg) (cs_image spec) (cs_image_sha256 spec) (cs_vcpus spec) (cs_mem_mib spec)
                (cs_disk_gb spec)")
  case (Some idx)
  then have i: "idx < length (mg_vms mg)" by (auto simp: find_pooled_match_def position_Some)
  have m: "mgr_inv k mg" using assms(1) by (simp add: busy_def)
  let ?vms = "(mg_vms mg)[idx := retag spec (mg_vms mg ! idx)]"
  have "v_slot (retag spec (mg_vms mg ! idx)) = map v_slot (mg_vms mg) ! idx" using i by (simp add: retag_def)
  then have "map v_slot ?vms = map v_slot (mg_vms mg)" by (simp add: map_update)
  then have "held ?vms = held (mg_vms mg)" by (rule held_cong)
  moreover have "valid_vm_id (v_id (mg_vms mg ! idx))" using m i by (simp add: mgr_inv_def ids_inv_def list_all_length)
  ultimately show ?thesis
    using busy_shrink [OF assms(1) mgr_inv_retag [OF m assms(2) i]] by (simp add: retag_section_def Some upd_vms_def)
qed (simp add: retag_section_def assms(1))

lemma keeps_untag [keeping]: "valid_vm_id i \<Longrightarrow> keeps (busy k) (act (untag_section vid i))"
  by (intro keeping) (simp add: untag_section_def busy_update vm_key_def untag_def)

lemma keeps_claim_from_pool: "valid_vm_id (cs_id spec) \<Longrightarrow> keeps (busy k) (claim_from_pool_prog os spec)"
  unfolding claim_from_pool_prog_def
  by (rule keeps_learn [where P = "\<lambda>r. \<forall>i. r = Some i \<longrightarrow> valid_vm_id i"])
    (auto dest: busy_retag intro!: keeping split: option.splits)

lemma fine_create: "(\<And>i. keeps (busy k) (del i)) \<Longrightarrow> fine (busy k) (create_prog os del spec)"
  unfolding create_prog_def
  by (auto intro!: flight.fine_seqs flight.fine_keeps [OF keeps_claim_from_pool] flight.fine_keeps [OF keeps_commit] fine_cold_create)

lemma keeps_patch [keeping]: "keeps (busy k) (patch_prog os vid word st)"
  unfolding patch_prog_def by (intro keeping)

lemma keeps_pause [keeping]: "keeps (busy k) (pause_prog os vid)" "keeps (busy k) (resume_prog os vid)"
  unfolding pause_prog_def resume_prog_def by (intro keeping; auto intro!: keeping split: VmState.splits)+

lemma keeps_sleep [keeping]: "keeps (busy k) (sleep_prog os vid)"
  unfolding sleep_prog_def by (intro keeping)

lemma keeps_repin [keeping]: "keeps (busy k) (repin_prog os slot ip)"
  unfolding repin_prog_def by (intro keeping)

lemma keeps_wake [keeping]: "keeps (busy k) (wake_prog os vid)"
  unfolding wake_prog_def by (intro keeping)

lemma busy_start_guard: "busy k F mg \<Longrightarrow> busy k F (snd (start_guard os vid mg))"
proof -
  have "core (snd (start_guard os vid mg)) = core mg"
    by (auto simp: start_guard_def Let_def attempt_ok_or split: option.splits VmState.splits prod.splits dest: on_world_Inr)
  then show "busy k F mg \<Longrightarrow> busy k F (snd (start_guard os vid mg))" by (rule busy_core)
qed

lemma keeps_start [keeping]: "keeps (busy k) (start_prog os vid)"
  unfolding start_prog_def start_from_def by (intro keeping) (simp_all add: busy_start_guard)

lemma keeps_exec [keeping]: "keeps (busy k) (exec_prog call vid)"
  unfolding exec_prog_def by (intro keeping)

lemma keeps_or_errored [keeping]: "keeps (busy k) p \<Longrightarrow> keeps (busy k) (or_errored_prog vid p)"
  unfolding or_errored_prog_def by (intro keeping)

lemma keeps_fork_restore [keeping]: "keeps (busy k) (fork_restore_prog os cid dir slot vs)"
  unfolding fork_restore_prog_def Let_def by (intro keeping)

lemma fine_fork_tail: "(\<And>i. keeps (busy k) (del i)) \<Longrightarrow> fine (busy k) (fork_tail_prog os del p cid dir)"
  unfolding fork_tail_prog_def
  by (rule safe_build [OF safe_networks(2)]) (auto intro!: keeping flight.fine_keeps)

lemma fine_fork: "(\<And>i. keeps (busy k) (del i)) \<Longrightarrow> fine (busy k) (fork_prog os del parent cid name)"
proof -
  assume d: "\<And>i. keeps (busy k) (del i)"
  show ?thesis
    unfolding fork_prog_def
    by (auto intro!: flight.fine_seqs flight.fine_keeps [OF keeps_register] fine_fork_tail d flight.fine_keeps [OF keeps_steps(2)]
        flight.fine_keeps [OF keeps_world(1)] simp: child_vm_def)
qed

lemma fine_refill_loop: "(\<And>i. keeps (busy k) (del i)) \<Longrightarrow> fine (busy k) (refill_loop_prog os del n spec)"
proof (induction n)
  case (Suc n)
  have u: "keeps (busy k) (upd (set_backoff os spec))" by (intro keeping) (simp add: set_backoff_def)
  have one: "fine (busy k) (pbind (cold_create_prog os (pool_create_spec vid spec) Pooled None) (\<lambda>r.
         case r of Inl _ \<Rightarrow> pseq (del vid) (upd (set_backoff os spec)) | Inr _ \<Rightarrow> refill_loop_prog os del n spec))"
    if "valid_vm_id vid" for vid
    using that u Suc
    by (intro flight.fine_pbind fine_cold_create)
      (auto simp: pool_create_spec_def intro!: flight.fine_seqs intro: flight.fine_keeps split: sum.splits)
  have vid: "safe (busy k) (look (\<lambda>mg. ''pool-'' @ show_hex (unat (now_ms os (mg_world mg))))) {} (\<lambda>i S. S = {} \<and> valid_vm_id i)"
    by (rule safe_look) (simp only: pool_id_valid simp_thms)
  have body: "fine (busy k) (pbind (look (\<lambda>mg. ''pool-'' @ show_hex (unat (now_ms os (mg_world mg))))) (\<lambda>vid.
       pbind (cold_create_prog os (pool_create_spec vid spec) Pooled None) (\<lambda>r.
         case r of Inl _ \<Rightarrow> pseq (del vid) (upd (set_backoff os spec)) | Inr _ \<Rightarrow> refill_loop_prog os del n spec)))"
    by (rule safe_pbind, rule safe_weaken [OF vid]) (use one in blast)
  show ?case
    unfolding refill_loop_prog.simps
    by (rule flight.fine_pbind, rule flight.fine_keeps, rule keeping) (use body in \<open>simp only: safe.simps(1) split: if_split\<close>, simp)
qed simp

lemma fine_refill_pool: "(\<And>i. keeps (busy k) (del i)) \<Longrightarrow> fine (busy k) (refill_pool_prog os del extra)"
  unfolding refill_pool_prog_def refill_spec_prog_def
  by (intro flight.fine_pbind flight.fine_seqs flight.fine_pfor)
    (auto intro!: keeping intro: flight.fine_keeps fine_refill_loop simp: backoff_section_def Let_def
      simp del: refill_loop_prog.simps split: prod.splits)

lemma keeps_gc [keeping]: "keeps (busy k) (gc_prog os age)"
  unfolding gc_prog_def gc_entry_prog_def Let_def by (intro keeping)

lemma keeps_small [keeping]:
  "keeps (busy k) (act (begin_capture vid))" "keeps (busy k) (upd (end_capture vid))" "keeps (busy k) (act (set_pools os specs))"
  by (intro keeping;
      auto simp: begin_capture_def end_capture_def set_pools_def attempt_def split: option.splits sum.splits prod.splits)+

lemma fine_finish: "fine (busy k) p \<Longrightarrow> fine (busy k) (finish p)"
  unfolding finish_def by (rule flight.fine_seqs) simp_all

lemma fine_op: "(\<And>i. keeps (busy k) (del i)) \<Longrightarrow> fine (busy k) (op_prog os del extra op)"
  by (cases op)
    (auto intro!: fine_finish fine_create fine_fork flight.fine_seqs fine_refill_pool keeping intro: flight.fine_keeps)

subsection \<open>Interleaved runs\<close>

text \<open>
  A call starts a program beside those that run; a step is a step of any of them; the outside
  world may change at any time.  The programs that have ended stay in the list as \<open>Ret ()\<close>.
\<close>

inductive conc :: "'w os \<Rightarrow> 'w deleter \<Rightarrow> 'w Manager \<Rightarrow> ('w Manager, unit) prog list \<Rightarrow> 'w Manager \<Rightarrow> bool" for os del mg0 where
  conc_init: "conc os del mg0 [] mg0"
| conc_call: "conc os del mg0 ts mg \<Longrightarrow> conc os del mg0 (ts @ [op_prog os del extra op]) mg"
| conc_step: "conc os del mg0 ts mg \<Longrightarrow> i < length ts \<Longrightarrow> ts ! i = Act f \<Longrightarrow> f mg = (p, mg') \<Longrightarrow> conc os del mg0 (ts[i := p]) mg'"
| conc_world: "conc os del mg0 ts mg \<Longrightarrow> conc os del mg0 ts (mg\<lparr>mg_host := (mg_host mg)\<lparr>h_world := w\<rparr>\<rparr>)"

lemma conc_joint:
  assumes "conc os del mg0 ts mg" "mgr_inv k mg0" "\<And>i. keeps (busy k) (del i)"
  shows "resources.joint (busy k) ts mg"
  using assms
proof (induction rule: conc.induct)
  case conc_init
  then show ?case by (intro flight.joint_init) (simp add: busy_def split: option.splits)
next
  case (conc_call ts mg extra op)
  then show ?case using fine_op by (blast intro: flight.joint_spawn)
next
  case (conc_step ts mg i f p mg')
  then show ?case using flight.joint_step by blast
next
  case (conc_world ts mg w)
  then have "resources.joint (busy k) ts mg" by simp
  then show ?case by (rule flight.joint_env) simp
qed

text \<open>A program of the list that runs for a while without interruption.\<close>

lemma conc_run_part:
  assumes "conc os del mg0 ts mg" "i < length ts" "ts ! i = pbind p k" "run_alone p mg = (x, mg')"
  shows "conc os del mg0 (ts[i := k x]) mg'"
  using assms
proof (induction p arbitrary: ts mg)
  case (Ret y)
  then show ?case by (simp add: list_update_same_conv [THEN iffD2])
next
  case (Act f)
  obtain p1 mg1 where f: "f mg = (p1, mg1)" by (rule prod.exhaust)
  have r: "run_alone p1 mg1 = (x, mg')" using Act.prems(4) by (simp add: f)
  have t: "ts ! i = Act (\<lambda>s. map_prod (\<lambda>p. pbind p k) id (f s))" using Act.prems(3) by simp
  have "conc os del mg0 (ts[i := pbind p1 k]) mg1"
    by (rule conc_step [OF Act.prems(1,2) t]) (simp add: f)
  moreover have "p1 \<in> Basic_BNFs.fsts (f mg)" by (simp add: f)
  ultimately have "conc os del mg0 (ts[i := pbind p1 k, i := k x]) mg'"
    using Act.IH [OF rangeI, of p1 mg "ts[i := pbind p1 k]" mg1] Act.prems(2) r by simp
  then show ?case by simp
qed

lemma pbind_Ret: "pbind p Ret = p"
proof (induction p)
  case (Act f)
  have "pbind (fst (f s)) Ret = fst (f s)" for s by (rule Act.IH [OF rangeI fst_in_fsts])
  then show ?case by (simp add: fun_eq_iff prod_eq_iff)
qed simp

lemma conc_run:
  "conc os del mg0 ts mg \<Longrightarrow> i < length ts \<Longrightarrow> run_alone (ts ! i) mg = (x, mg') \<Longrightarrow> conc os del mg0 (ts[i := Ret x]) mg'"
  using conc_run_part [where p = "ts ! i" and k = Ret] by (simp add: pbind_Ret)

lemma conc_op:
  assumes "conc os del mg0 ts mg" "deletes os del"
  shows "conc os del mg0 (ts @ [Ret ()]) (mgr_apply os op mg)"
  using conc_run [OF conc_call [OF assms(1), of 0 op], where i = "length ts"] assms(2) by (simp add: run_op)

definition whole_delete :: "'w os \<Rightarrow> 'w deleter" where
  "whole_delete os vid = exclusive (delete_prog os vid)"

lemma conc_inv:
  assumes "conc os (whole_delete os) mg0 ts mg" "mgr_inv k mg0"
  shows "mgr_inv k mg"
proof -
  have "resources.joint (busy k) ts mg" by (rule conc_joint [OF assms]) (simp add: whole_delete_def keeping)
  then have "busy k {} mg" by (rule flight.joint_inv)
  then show ?thesis by (simp add: busy_def)
qed


lemma calm_two_conc: "conc (calm_os (Inr (Some 7))) (whole_delete (calm_os (Inr (Some 7)))) calm_boot [Ret (), Ret ()] calm_two"
proof -
  let ?os = "calm_os (Inr (Some 7))"
  have d: "deletes ?os (whole_delete ?os)" by (simp add: deletes_def whole_delete_def alone)
  have "conc ?os (whole_delete ?os) calm_boot [op_prog ?os (whole_delete ?os) 0 (OpCreate (calm_spec ''a'' ''acme'')),
      op_prog ?os (whole_delete ?os) 0 (OpCreate (calm_spec ''b'' ''beta''))] calm_boot"
    using conc_call [OF conc_call [OF conc_init], of ?os "whole_delete ?os" calm_boot 0 "OpCreate (calm_spec ''a'' ''acme'')"
        0 "OpCreate (calm_spec ''b'' ''beta'')"]
    by (simp del: op_prog.simps)
  from conc_run [OF conc_run [OF this, where i = 0], where i = 1] show ?thesis
    using calm_two_steps by (simp add: run_op [OF d] del: op_prog.simps)
qed


subsection \<open>Two deletions of one machine\<close>

lemma calm_stop: "snd (stop (calm_os sp) vid mg) = upd_vms (update_vm vid (\<lambda>v. v\<lparr>v_state := Stopped, v_pid := None\<rparr>)) mg"
proof (cases "find_vm vid (mg_vms mg)")
  case None
  then show ?thesis by (simp add: stop_def upd_vms_def update_vm_none)
next
  case (Some v)
  have "set_pid vid None (set_state vid Stopped mg)
      = upd_vms (update_vm vid (\<lambda>v. v\<lparr>v_state := Stopped, v_pid := None\<rparr>)) mg"
    by (simp add: set_pid_def set_state_def upd_vms_def update_update_vm)
  then show ?thesis using Some by (simp add: stop_def Let_def calm_on_world calm_stop_process split: option.splits)
qed

lemma calm_delete_from:
  assumes "mg_net_on mg" "h_isolation_ok (mg_host mg)"
  shows "run_alone (delete_from (calm_os sp) vid (Some s)) mg = (Inr (), free_slot s (upd_vms (remove_first (\<lambda>v. v_id v = vid)) mg))"
proof -
  have h: "(mg_host mg)\<lparr>h_isolation_ok := True\<rparr> = mg_host mg" using assms(2) by (cases "mg_host mg") simp
  let ?mg1 = "free_slot s (snd (stop (calm_os sp) vid mg))"
  have f: "mg_net_on ?mg1" "mg_host ?mg1 = mg_host mg" by (simp_all add: calm_stop free_slot_def upd_vms_def assms(1))
  have t: "clear_tap_antispoof calm_net (tap_name s) hs = hs" "delete_tap calm_net (tap_name s) hs = hs" for hs
    by (simp_all add: clear_tap_antispoof_def delete_tap_def calm)
  have r: "release_slot (calm_os sp) (Some s) (snd (stop (calm_os sp) vid mg)) = ?mg1"
    using assms(1) by (simp add: release_slot_def calm_stop upd_vms_def calm t free_slot_def)
  have d: "remove_instance_dir (calm_os sp) vid ?mg1 = ?mg1"
    by (simp add: remove_instance_dir_def calm calm_on_world split: option.splits)
  let ?mg2 = "free_slot s (upd_vms (remove_first (\<lambda>v. v_id v = vid)) mg)"
  have u: "upd_vms (remove_first (\<lambda>v. v_id v = vid)) ?mg1 = ?mg2"
    by (simp add: calm_stop upd_vms_def free_slot_def remove_first_update)
  have g: "mg_net_on ?mg2" "mg_host ?mg2 = mg_host mg" by (simp_all add: free_slot_def upd_vms_def assms(1))
  then have "?mg2\<lparr>mg_host := (mg_host ?mg2)\<lparr>h_isolation_ok := True\<rparr>\<rparr> = ?mg2" using h by simp
  then have "refresh_isolation (calm_os sp) ?mg2 = (True, ?mg2)" using calm_refresh [OF g(1), of sp] by simp
  moreover have "refresh_ingress (calm_os sp) ?mg2 = ?mg2" by (simp add: refresh_ingress_def on_host_def calm)
  ultimately show ?thesis by (simp add: delete_from_def alone r d u)
qed

text \<open>A deletion that has read the slot and done nothing else.\<close>

lemma conc_delete_begun:
  assumes "conc os (delete_prog os) mg0 ts mg"
  shows "conc os (delete_prog os) mg0 (ts @ [finish (delete_from os vid (Option.bind (find_vm vid (mg_vms mg)) v_slot))]) mg"
proof -
  let ?p = "look (\<lambda>mg. Option.bind (find_vm vid (mg_vms mg)) v_slot)" and ?k = "\<lambda>slot. finish (delete_from os vid slot)"
  have "op_prog os (delete_prog os) 0 (OpDelete vid) = pbind ?p ?k"
    by (simp add: delete_prog_def finish_def pseq_def pbind_assoc)
  then show ?thesis
    using conc_run_part [OF conc_call [OF assms, of 0 "OpDelete vid"], where i = "length ts" and p = ?p and k = ?k]
    by (simp add: alone)
qed

definition with_vms :: "Vm list \<Rightarrow> bool \<Rightarrow> unit Manager" where
  "with_vms vms b = calm_boot\<lparr>mg_vms := vms,
     mg_allocator := Some \<lparr>alloc_cidr = calm_cidr, alloc_used = [b, False, False, False, False]\<rparr>\<rparr>"

lemma with_vms_fields [simp]: "mg_vms (with_vms vms b) = vms" "cs_id (calm_spec i t) = i"
  by (simp_all add: with_vms_def calm_spec_def)

lemma with_vms_create:
  assumes "valid_vm_id i" "find_vm i vms = None" "list_all (\<lambda>v. v_state v \<noteq> Pooled) vms"
  shows "mgr_apply (calm_os (Inr (Some 7))) (OpCreate (calm_spec i t)) (with_vms vms False)
     = with_vms (vms @ [built_vm (calm_spec i t) Running 7 0 calm_cidr]) True"
  unfolding mgr_apply.simps
  by (subst calm_create [OF _ _ calm_claims(1)])
    (use assms in \<open>simp_all add: with_vms_def calm_boot_def manager_new_def calm_spec_def up_host_def list_all_iff\<close>)

lemma with_vms_delete_from:
  "run_alone (delete_from (calm_os sp) vid (Some 0)) (with_vms vms b)
     = (Inr (), with_vms (remove_first (\<lambda>v. v_id v = vid) vms) False)"
proof -
  have "mg_net_on (with_vms vms b)" "h_isolation_ok (mg_host (with_vms vms b))"
    by (simp_all add: with_vms_def calm_boot_def manager_new_def up_host_def)
  note r = calm_delete_from [OF this, of sp vid 0]
  have "free_slot 0 (upd_vms (remove_first (\<lambda>v. v_id v = vid)) (with_vms vms b))
      = with_vms (remove_first (\<lambda>v. v_id v = vid) vms) False"
    by (simp add: with_vms_def free_slot_def upd_vms_def alloc_free_def)
  then show ?thesis using r by simp
qed

text \<open>
  C33. Two deletions of one machine can give two tenants the same address.  A deletion reads the
  slot of the machine in one section under the lock, and frees it in a later one.  Run on a
  system on which every call succeeds: machine \<open>a\<close> exists; a first deletion of \<open>a\<close> reads slot 0; a
  second one runs to its end; \<open>b\<close> is created and gets slot 0; the first goes on and frees slot
  0; \<open>c\<close> is created and gets slot 0 as well.  Every call has ended, and \<open>b\<close> and \<open>c\<close>
  run, for different tenants, with one slot and one address, which the isolation ruleset then lists under both tenants.
\<close>

theorem overlapping_deletes_share_address:
  "\<exists>mg v u. conc (calm_os (Inr (Some 7))) (delete_prog (calm_os (Inr (Some 7)))) calm_boot (replicate 5 (Ret ())) mg
     \<and> mg_vms mg = [v, u] \<and> v_state v = Running \<and> v_state u = Running \<and> v_tenant_id v \<noteq> v_tenant_id u
     \<and> v_slot v = Some 0 \<and> v_slot u = Some 0 \<and> v_ip v = v_ip u
     \<and> isolation_members (mg_vms mg) = [(''acme'', fmt_ip (host_at calm_cidr 0)), (''beta'', fmt_ip (host_at calm_cidr 0))]"
proof -
  let ?os = "calm_os (Inr (Some 7))"
  let ?conc = "conc ?os (delete_prog ?os) calm_boot"
  let ?a = "built_vm (calm_spec ''a'' ''acme'') Running 7 0 calm_cidr"
    and ?b = "built_vm (calm_spec ''b'' ''acme'') Running 7 0 calm_cidr"
    and ?c = "built_vm (calm_spec ''c'' ''beta'') Running 7 0 calm_cidr"
  let ?rest = "finish (delete_from ?os ''a'' (Some 0))"
  have valid: "valid_vm_id ''a''" "valid_vm_id ''b''" "valid_vm_id ''c''" by code_simp+
  note op = conc_op [OF _ deletes_prog]
  have boot: "?conc [] (with_vms [] False)" using conc_init [of ?os] by (simp add: with_vms_def calm_boot_def manager_new_def)
  have created: "?conc [Ret ()] (with_vms [?a] True)"
    using op [OF boot, of "OpCreate (calm_spec ''a'' ''acme'')"] with_vms_create [OF valid(1), of "[]" "''acme''"]
    by (simp del: mgr_apply.simps)
  have read: "?conc [Ret (), ?rest] (with_vms [?a] True)"
    using conc_delete_begun [OF created, of "''a''"] by (simp add: built_fields)
  have "delete ?os ''a'' (with_vms [?a] True) = run_alone (delete_from ?os ''a'' (Some 0)) (with_vms [?a] True)"
    unfolding run_delete [symmetric] by (simp add: delete_prog_def alone built_fields)
  then have second: "?conc [Ret (), ?rest, Ret ()] (with_vms [] False)"
    using op [OF read, of "OpDelete ''a''"] by (simp add: with_vms_delete_from built_fields)
  have reused: "?conc [Ret (), ?rest, Ret (), Ret ()] (with_vms [?b] True)"
    using op [OF second, of "OpCreate (calm_spec ''b'' ''acme'')"] with_vms_create [OF valid(2), of "[]" "''acme''"]
    by (simp del: mgr_apply.simps)
  have freed: "?conc [Ret (), Ret (), Ret (), Ret ()] (with_vms [?b] False)"
    using conc_run [OF reused, where i = 1] by (simp add: alone with_vms_delete_from built_fields)
  have "?conc (replicate 5 (Ret ())) (with_vms [?b, ?c] True)"
    using op [OF freed, of "OpCreate (calm_spec ''c'' ''beta'')"] with_vms_create [OF valid(3), of "[?b]" "''beta''"]
    by (simp add: numeral_eq_Suc built_fields del: mgr_apply.simps)
  moreover have "v_tenant_id ?b = Some ''acme''" "v_tenant_id ?c = Some ''beta''"
    by (simp_all add: built_vm_def new_vm_def calm_spec_def)
  ultimately show ?thesis
    by (intro exI [of _ "with_vms [?b, ?c] True"] exI [of _ ?b] exI [of _ ?c])
      (simp add: built_fields isolation_members_def List.map_filter_def)
qed

subsection \<open>A start and a capture\<close>

lemma conc_start_begun:
  assumes "conc os del mg0 ts mg" "start_guard os vid mg = (Inr (Some v), mg)"
  shows "conc os del mg0 (ts @ [finish (start_from os vid v)]) mg"
proof -
  let ?k = "\<lambda>r. finish (case r of Inl e \<Rightarrow> Ret (Inl e) | Inr g \<Rightarrow> (case g of None \<Rightarrow> Ret (Inr ()) | Some v \<Rightarrow> start_from os vid v))"
  have "op_prog os del 0 (OpStart vid) = pbind (act (start_guard os vid)) ?k"
    by (simp add: start_prog_def finish_def pseq_def ptry_def pbind_assoc)
  then show ?thesis
    using conc_run_part [OF conc_call [OF assms(1), of 0 "OpStart vid"], where i = "length ts" and p = "act (start_guard os vid)" and k = ?k]
      assms(2)
    by (simp add: alone)
qed

text \<open>
  C34. A machine can be started while its disk is being captured.  A start looks for a capture in
  one section under the lock, and marks the machine as running in a later one; in between the machine still
  counts as stopped.  On a system on which every call succeeds: \<open>a\<close> is created and stopped; a start
  of \<open>a\<close> passes its guard; a capture of \<open>a\<close> is let in; the start goes on.  Every call has ended, and
  \<open>a\<close> runs over a disk whose capture is open, which both guards are there to prevent.
\<close>

theorem start_races_capture:
  "\<exists>mg. conc (calm_os (Inr (Some 7))) (delete_prog (calm_os (Inr (Some 7)))) calm_boot (replicate 4 (Ret ())) mg
     \<and> map v_id (mg_vms mg) = [''a''] \<and> map v_state (mg_vms mg) = [Running] \<and> mg_capturing mg = {''a''}"
proof -
  let ?os = "calm_os (Inr (Some 7))" and ?mg = under_capture
  let ?conc = "conc ?os (delete_prog ?os) calm_boot"
  let ?v = "(built_vm (calm_spec ''a'' ''acme'') Running 7 0 calm_cidr)\<lparr>v_state := Stopped, v_pid := None\<rparr>"
  let ?idle = "under_capture\<lparr>mg_capturing := {}\<rparr>" and ?rest = "finish (start_from ?os ''a'' ?v)"
  note op = conc_op [OF _ deletes_prog]
  have "?conc [Ret ()] one_vm"
    using op [OF conc_init, of ?os calm_boot "OpCreate (calm_spec ''a'' ''acme'')"] one_vm_step by (simp del: mgr_apply.simps)
  then have stopped: "?conc [Ret (), Ret ()] ?idle"
    using op [of ?os calm_boot "[Ret ()]" one_vm "OpStop ''a''"] one_vm_stopped by (simp del: mgr_apply.simps)
  have vms: "mg_vms ?mg = [?v]" "mg_capturing ?mg = {''a''}" "mg_net_on ?mg" by (simp_all add: under_capture_def one_vm_fields)
  have f: "find_vm ''a'' (mg_vms ?mg) = Some ?v" by (simp add: vms built_fields)
  have d: "v_dir_id ?v = ''a''" "v_slot ?v = Some 0" "v_ip ?v = Some (fmt_ip (host_at calm_cidr 0))" "v_state ?v = Stopped" "v_pid ?v = None"
    by (simp_all add: built_fields)
  have "start_guard ?os ''a'' ?idle = (Inr (Some ?v), ?idle)" by (simp add: start_guard_def f d)
  from conc_start_begun [OF stopped this] have "?conc [Ret (), Ret (), ?rest] ?idle" by simp
  then have captured: "?conc [Ret (), Ret (), ?rest, Ret ()] ?mg"
    using op [of ?os calm_boot "[Ret (), Ret (), ?rest]" ?idle "OpBeginCapture ''a''"] stopped_captured by (simp del: mgr_apply.simps)
  define mg' where "mg' = set_state ''a'' Running (upd_vms (update_vm ''a'' (\<lambda>v. v\<lparr>v_vsock := True\<rparr>))
      (set_pid ''a'' (Some (sint (7 :: u32))) ?mg))"
  have vms': "mg_vms mg' = [?v\<lparr>v_pid := Some (sint (7 :: u32)), v_vsock := True, v_state := Running\<rparr>]" "mg_capturing mg' = {''a''}"
    by (simp_all add: mg'_def set_state_def set_pid_def upd_vms_def vms built_fields)
  have w: "write_meta ?os ''a'' mg' = (Inr (), mg')"
    by (rule calm_write_meta [where v = "?v\<lparr>v_pid := Some (sint (7 :: u32)), v_vsock := True, v_state := Running\<rparr>"])
      (simp_all add: vms' built_fields valid_a)
  note dirs = calm_dirs [OF f, unfolded d(1), OF valid_a]
  have "run_alone (start_from ?os ''a'' ?v) ?mg = (Inr (), mg')"
    using dirs vms(3) w by (simp add: start_from_def alone repin_def calm d mg'_def)
  then have "?conc [Ret (), Ret (), Ret (), Ret ()] mg'"
    using conc_run [OF captured, where i = 2] by (simp add: alone)
  then show ?thesis using vms' by (intro exI [of _ mg']) (simp add: numeral_eq_Suc built_fields)
qed

end
