(* ===== verification/Guest_Main.thy ===== *)
theory Guest_Main
  imports Guest_Protocol
begin

text \<open>
  The guest agent's transport (\<open>guest/src/vsock.rs\<close>) and entry point (\<open>guest/src/main.rs\<close>): the
  listening socket with its owned descriptors, the stream's \<open>read\<close> and \<open>write\<close>, the loop that
  binds until it succeeds, and the accept loop.  The system calls are parameters.  A thread of the
  accept loop runs \<open>handle_connection_with\<close> of \<open>Guest_Protocol\<close>, whose line reader is here run on a descriptor.
\<close>

subsection \<open>System calls\<close>

text \<open>
  The calls of \<open>libc\<close> that the transport makes, as functions on a world: a negative result means failure, with the
  reason in \<open>lc_error\<close>.  A read gives the bytes it put into the buffer, \<open>None\<close> for failure.
  \<open>lc_spawn\<close> starts the thread for a stream; \<open>False\<close> is the panic of \<open>thread::spawn\<close> when the system has no thread left.
\<close>

record 'w libc =
  lc_socket :: "'w \<Rightarrow> int \<times> 'w"
  lc_bind :: "int \<Rightarrow> u32 \<Rightarrow> u32 \<Rightarrow> 'w \<Rightarrow> int \<times> 'w"
  lc_listen :: "int \<Rightarrow> int \<Rightarrow> 'w \<Rightarrow> int \<times> 'w"
  lc_accept :: "int \<Rightarrow> 'w \<Rightarrow> int \<times> 'w"
  lc_read :: "int \<Rightarrow> nat \<Rightarrow> 'w \<Rightarrow> string option \<times> 'w"
  lc_write :: "int \<Rightarrow> string \<Rightarrow> 'w \<Rightarrow> int \<times> 'w"
  lc_close :: "int \<Rightarrow> 'w \<Rightarrow> 'w"
  lc_error :: "'w \<Rightarrow> io_error"
  lc_interrupted :: "'w \<Rightarrow> bool"
  lc_sleep :: "nat \<Rightarrow> 'w \<Rightarrow> 'w"
  lc_spawn :: "int \<Rightarrow> 'w \<Rightarrow> bool \<times> 'w"

definition VMADDR_CID_ANY :: u32 where
  "VMADDR_CID_ANY = 0xFFFFFFFF"

definition VSOCK_PORT :: u32 where
  "VSOCK_PORT = 52"

definition BACKLOG :: int where
  "BACKLOG = 128"

text \<open>In milliseconds.\<close>

definition RETRY :: nat where
  "RETRY = 5000"

subsection \<open>The listener\<close>

text \<open>Every early return drops the owned descriptor, after the error was read.\<close>

definition vsock_bind :: "'w libc \<Rightarrow> u32 \<Rightarrow> int \<Rightarrow> 'w \<Rightarrow> (io_error + int) \<times> 'w" where
  "vsock_bind lc port backlog w
     = (let (raw, w1) = lc_socket lc w
        in if raw < 0 then (Inl (lc_error lc w1), w1)
           else
             let (rc, w2) = lc_bind lc raw VMADDR_CID_ANY port w1
             in if rc < 0 then (Inl (lc_error lc w2), lc_close lc raw w2)
                else
                  let (rc, w3) = lc_listen lc raw backlog w2
                  in if rc < 0 then (Inl (lc_error lc w3), lc_close lc raw w3)
                     else (Inr raw, w3))"

definition vsock_accept :: "'w libc \<Rightarrow> int \<Rightarrow> 'w \<Rightarrow> (io_error + int) \<times> 'w" where
  "vsock_accept lc fd w
     = (let (raw, w1) = lc_accept lc fd w
        in if raw < 0 then (Inl (lc_error lc w1), w1) else (Inr raw, w1))"

subsection \<open>The stream\<close>

definition vsock_read :: "'w libc \<Rightarrow> int \<Rightarrow> nat \<Rightarrow> 'w \<Rightarrow> read_result \<times> 'w" where
  "vsock_read lc fd len w
     = (case lc_read lc fd len w of
          (None, w1) \<Rightarrow> (ReadErr (lc_error lc w1), w1)
        | (Some bytes, w1) \<Rightarrow> (ReadOk bytes, w1))"

definition vsock_write :: "'w libc \<Rightarrow> int \<Rightarrow> string \<Rightarrow> 'w \<Rightarrow> (io_error + nat) \<times> 'w" where
  "vsock_write lc fd buf w
     = (let (n, w1) = lc_write lc fd buf w
        in if n < 0 then (Inl (lc_error lc w1), w1) else (Inr (nat n), w1))"

definition vsock_flush :: "'w \<Rightarrow> io_error option \<times> 'w" where
  "vsock_flush w = (None, w)"

text \<open>
  The standard library's \<open>write_all\<close> over the stream's \<open>write\<close>: go on after a short write, try again
  after an interruption, fail on a write of nothing.  \<open>None\<close> while interruptions never stop.
\<close>

partial_function (option) write_all :: "'w libc \<Rightarrow> int \<Rightarrow> string \<Rightarrow> 'w \<Rightarrow> (io_error option \<times> 'w) option" where
  "write_all lc fd buf w
     = (if buf = [] then Some (None, w)
        else case vsock_write lc fd buf w of
               (Inl e, w1) \<Rightarrow> if lc_interrupted lc w1 then write_all lc fd buf w1 else Some (Some e, w1)
             | (Inr n, w1) \<Rightarrow>
                 if n = 0 then Some (Some ''failed to write whole buffer'', w1)
                 else write_all lc fd (drop n buf) w1)"

text \<open>The bounded line reader on a descriptor, in chunks of 4096 bytes.\<close>

lemma scan_chunk_grows: "scan_chunk limit bytes buf = Inr buf' \<Longrightarrow> buf' = buf @ bytes \<and> (bytes \<noteq> [] \<longrightarrow> length buf' \<le> limit)"
  by (induction bytes arbitrary: buf) (fastforce split: if_splits)+

function read_line_fd :: "'w libc \<Rightarrow> int \<Rightarrow> nat \<Rightarrow> string \<Rightarrow> 'w \<Rightarrow> (LineError, string option) result \<times> 'w" where
  "read_line_fd lc fd limit buf w
     = (case vsock_read lc fd 4096 w of
          (ReadOk bytes, w1) \<Rightarrow>
            if bytes = [] then (if buf = [] then Inr None else Inr (Some (from_utf8_lossy buf)), w1)
            else (case scan_chunk limit bytes buf of
                    Inl res \<Rightarrow> (res, w1)
                  | Inr buf' \<Rightarrow> read_line_fd lc fd limit buf' w1)
        | (ReadInterrupted, w1) \<Rightarrow> (Inl (LineIo ''interrupted''), w1)
        | (ReadErr e, w1) \<Rightarrow> (Inl (LineIo e), w1))"
  by pat_completeness auto
termination
  by (relation "measure (\<lambda>(lc, fd, limit, buf, w). limit - length buf)")
    (auto dest!: scan_chunk_grows intro!: diff_less_mono2 simp flip: length_greater_0_conv)

subsection \<open>The entry point\<close>

text \<open>Binding with retry for ever; \<open>None\<close> while no attempt succeeds.\<close>

partial_function (option) bind_loop :: "'w libc \<Rightarrow> 'w \<Rightarrow> (int \<times> 'w) option" where
  "bind_loop lc w
     = (case vsock_bind lc VSOCK_PORT BACKLOG w of
          (Inr fd, w1) \<Rightarrow> Some (fd, w1)
        | (Inl e, w1) \<Rightarrow> bind_loop lc (lc_sleep lc RETRY w1))"

text \<open>
  A number of rounds of the accept loop, which has no end of its own: the streams that were given to a thread, and
  whether the loop still runs.
\<close>

fun guest_serve :: "'w libc \<Rightarrow> int \<Rightarrow> nat \<Rightarrow> 'w \<Rightarrow> (int list \<times> bool) \<times> 'w" where
  "guest_serve lc fd 0 w = (([], True), w)"
| "guest_serve lc fd (Suc n) w
     = (case vsock_accept lc fd w of
          (Inr s, w1) \<Rightarrow>
            (case lc_spawn lc s w1 of
               (False, w2) \<Rightarrow> (([], False), w2)
             | (True, w2) \<Rightarrow>
                 (case guest_serve lc fd n w2 of ((ss, alive), w3) \<Rightarrow> ((s # ss, alive), w3)))
        | (Inl e, w1) \<Rightarrow> guest_serve lc fd n (lc_sleep lc 100 w1))"

definition guest_main :: "'w libc \<Rightarrow> nat \<Rightarrow> 'w \<Rightarrow> ((int list \<times> bool) \<times> 'w) option" where
  "guest_main lc rounds w = map_option (\<lambda>(fd, w1). guest_serve lc fd rounds w1) (bind_loop lc w)"

subsection \<open>Binding\<close>

text \<open>The world after a number of failed attempts, each followed by the pause.\<close>

primrec retried :: "'w libc \<Rightarrow> nat \<Rightarrow> 'w \<Rightarrow> 'w" where
  "retried lc 0 w = w"
| "retried lc (Suc k) w = lc_sleep lc RETRY (snd (vsock_bind lc VSOCK_PORT BACKLOG (retried lc k w)))"

lemma retried_shift: "retried lc (Suc k) w = retried lc k (lc_sleep lc RETRY (snd (vsock_bind lc VSOCK_PORT BACKLOG w)))"
  by (induction k) simp_all

lemma bind_loop_after:
  "\<forall>j<k. isl (fst (vsock_bind lc VSOCK_PORT BACKLOG (retried lc j w))) \<Longrightarrow> bind_loop lc w = bind_loop lc (retried lc k w)"
proof (induction k arbitrary: w)
  case (Suc k)
  let ?w = "lc_sleep lc RETRY (snd (vsock_bind lc VSOCK_PORT BACKLOG w))"
  have "isl (fst (vsock_bind lc VSOCK_PORT BACKLOG w))" using Suc.prems by fastforce
  then have "bind_loop lc w = bind_loop lc ?w" by (subst bind_loop.simps) (auto split: prod.splits sum.splits)
  moreover have "\<forall>j<k. isl (fst (vsock_bind lc VSOCK_PORT BACKLOG (retried lc j ?w)))"
    unfolding retried_shift [symmetric] using Suc.prems by (simp del: retried.simps)
  ultimately show ?case using Suc.IH [of ?w] by (simp only: retried_shift)
qed simp

lemma bind_loop_Some:
  assumes "bind_loop lc w = Some r"
  shows "\<exists>k. \<not> isl (fst (vsock_bind lc VSOCK_PORT BACKLOG (retried lc k w)))"
proof (rule bind_loop.raw_induct [OF _ assms])
  fix f :: "'a libc \<Rightarrow> 'a \<Rightarrow> (int \<times> 'a) option" and lc w r
  assume IH: "\<And>lc w r. f lc w = Some r \<Longrightarrow> \<exists>k. \<not> isl (fst (vsock_bind lc VSOCK_PORT BACKLOG (retried lc k w)))"
    and body: "(case vsock_bind lc VSOCK_PORT BACKLOG w of
          (Inl e, w1) \<Rightarrow> f lc (lc_sleep lc RETRY w1) | (Inr fd, w1) \<Rightarrow> Some (fd, w1)) = Some r"
  obtain x w1 where b: "vsock_bind lc VSOCK_PORT BACKLOG w = (x, w1)" by (rule prod.exhaust)
  show "\<exists>k. \<not> isl (fst (vsock_bind lc VSOCK_PORT BACKLOG (retried lc k w)))"
  proof (cases x)
    case (Inl e)
    then have "f lc (lc_sleep lc RETRY w1) = Some r" using body b by simp
    from IH [OF this] obtain k where "\<not> isl (fst (vsock_bind lc VSOCK_PORT BACKLOG (retried lc k (lc_sleep lc RETRY w1))))" by blast
    then have "\<not> isl (fst (vsock_bind lc VSOCK_PORT BACKLOG (retried lc (Suc k) w)))" by (simp only: retried_shift b snd_conv not_False_eq_True)
    then show ?thesis by blast
  next
    case (Inr fd)
    then show ?thesis using b by (intro exI [of _ 0]) simp
  qed
qed

text \<open>What the descriptors of the process are, and what the calls do to them.\<close>

definition tracks :: "'w libc \<Rightarrow> ('w \<Rightarrow> int set) \<Rightarrow> bool" where
  "tracks lc fds
     = ((\<forall>w. case lc_socket lc w of (raw, w1) \<Rightarrow>
            if raw < 0 then fds w1 = fds w else raw \<notin> fds w \<and> fds w1 = insert raw (fds w))
        \<and> (\<forall>fd w. case lc_accept lc fd w of (raw, w1) \<Rightarrow>
            if raw < 0 then fds w1 = fds w else raw \<notin> fds w \<and> fds w1 = insert raw (fds w))
        \<and> (\<forall>fd cid port w. fds (snd (lc_bind lc fd cid port w)) = fds w)
        \<and> (\<forall>fd backlog w. fds (snd (lc_listen lc fd backlog w)) = fds w)
        \<and> (\<forall>fd w. fds (lc_close lc fd w) = fds w - {fd})
        \<and> (\<forall>ms w. fds (lc_sleep lc ms w) = fds w)
        \<and> (\<forall>s w. fds (snd (lc_spawn lc s w)) = fds w))"

lemma tracks_bind:
  assumes "tracks lc fds" "vsock_bind lc port backlog w = (r, w')"
  shows "case r of Inl _ \<Rightarrow> fds w' = fds w | Inr fd \<Rightarrow> fd \<notin> fds w \<and> fds w' = insert fd (fds w)"
proof -
  obtain raw w1 where s: "lc_socket lc w = (raw, w1)" by (rule prod.exhaust)
  obtain rc w2 where b: "lc_bind lc raw VMADDR_CID_ANY port w1 = (rc, w2)" by (rule prod.exhaust)
  obtain rl w3 where l: "lc_listen lc raw backlog w2 = (rl, w3)" by (rule prod.exhaust)
  have f: "if raw < 0 then fds w1 = fds w else raw \<notin> fds w \<and> fds w1 = insert raw (fds w)"
    using assms(1) s unfolding tracks_def by (metis (mono_tags, lifting) case_prod_conv)
  have g: "fds w2 = fds w1" "fds w3 = fds w2" "\<And>fd v. fds (lc_close lc fd v) = fds v - {fd}"
    using assms(1) b l unfolding tracks_def by (metis snd_conv)+
  show ?thesis using assms(2) f g by (auto simp: vsock_bind_def s b l split: if_splits)
qed

lemma tracks_retried:
  assumes "tracks lc fds" "\<forall>j<k. isl (fst (vsock_bind lc VSOCK_PORT BACKLOG (retried lc j w)))"
  shows "fds (retried lc k w) = fds w"
  using assms(2)
proof (induction k)
  case (Suc k)
  obtain r w' where b: "vsock_bind lc VSOCK_PORT BACKLOG (retried lc k w) = (r, w')" by (rule prod.exhaust)
  then have "isl r" using Suc.prems by (metis fst_conv lessI)
  then have "fds w' = fds (retried lc k w)" using tracks_bind [OF assms(1) b] by (cases r) simp_all
  moreover have "fds (lc_sleep lc RETRY w') = fds w'" using assms(1) unfolding tracks_def by blast
  ultimately show ?case using Suc b by simp
qed simp

text \<open>
  C32. The guest agent waits for its socket and loses no descriptor over it.  If the first \<open>k\<close>
  attempts to bind fail, wherever in the attempt, and the next succeeds, then the loop ends
  after exactly \<open>k\<close> pauses, with that listener, and it is the only descriptor the process has gained: each failed
  attempt closed its socket.  If no attempt ever succeeds, the loop runs for ever.
\<close>

theorem bind_loop_leaks_nothing:
  assumes "tracks lc fds"
  shows "((\<forall>j<k. isl (fst (vsock_bind lc VSOCK_PORT BACKLOG (retried lc j w))))
          \<and> vsock_bind lc VSOCK_PORT BACKLOG (retried lc k w) = (Inr fd, w')
            \<longrightarrow> bind_loop lc w = Some (fd, w') \<and> fd \<notin> fds w \<and> fds w' = insert fd (fds w))
         \<and> (bind_loop lc w = None \<longleftrightarrow> (\<forall>j. isl (fst (vsock_bind lc VSOCK_PORT BACKLOG (retried lc j w)))))"
proof (intro conjI impI iffI)
  assume h: "(\<forall>j<k. isl (fst (vsock_bind lc VSOCK_PORT BACKLOG (retried lc j w))))
      \<and> vsock_bind lc VSOCK_PORT BACKLOG (retried lc k w) = (Inr fd, w')"
  then show "bind_loop lc w = Some (fd, w')"
    using bind_loop_after [of k lc w] bind_loop.simps [of lc "retried lc k w"] by simp
  show "fd \<notin> fds w" "fds w' = insert fd (fds w)"
    using h tracks_bind [OF assms] tracks_retried [OF assms, of k w] by force+
next
  show "\<forall>j. isl (fst (vsock_bind lc VSOCK_PORT BACKLOG (retried lc j w)))" if none: "bind_loop lc w = None"
  proof (rule ccontr)
    assume "\<not> ?thesis"
    then obtain k where k: "\<not> isl (fst (vsock_bind lc VSOCK_PORT BACKLOG (retried lc k w)))"
        "\<forall>j<k. isl (fst (vsock_bind lc VSOCK_PORT BACKLOG (retried lc j w)))"
      using exists_least_iff [of "\<lambda>k. \<not> isl (fst (vsock_bind lc VSOCK_PORT BACKLOG (retried lc k w)))"] by auto
    then obtain fd w' where "vsock_bind lc VSOCK_PORT BACKLOG (retried lc k w) = (Inr fd, w')"
      by (metis isl_def prod.collapse sum.exhaust_sel)
    then show False using none bind_loop_after [OF k(2)] bind_loop.simps [of lc "retried lc k w"] by simp
  qed
  show "bind_loop lc w = None" if "\<forall>j. isl (fst (vsock_bind lc VSOCK_PORT BACKLOG (retried lc j w)))"
    using that bind_loop_Some [of lc w] by (cases "bind_loop lc w") auto
qed

text \<open>A system whose device appears with time: the world is the time and the open descriptors.\<close>

definition late_libc :: "(nat \<times> int set) libc" where
  "late_libc
     = \<lparr>lc_socket = (\<lambda>(t, fds). (if 3 \<in> fds then -1 else 3, (t, insert 3 fds))),
        lc_bind = (\<lambda>_ _ _ (t, fds). (if t < 10000 then -1 else 0, (t, fds))),
        lc_listen = (\<lambda>_ _ w. (0, w)), lc_accept = (\<lambda>_ w. (-1, w)), lc_read = (\<lambda>_ _ w. (Some [], w)),
        lc_write = (\<lambda>_ buf w. (int (length buf), w)), lc_close = (\<lambda>fd (t, fds). (t, fds - {fd})),
        lc_error = (\<lambda>_. ''No such device''), lc_interrupted = (\<lambda>_. False),
        lc_sleep = (\<lambda>ms (t, fds). (t + ms, fds)), lc_spawn = (\<lambda>_ w. (True, w))\<rparr>"

theorem bind_loop_leaks_nothing_witness:
  "bind_loop late_libc (0, {0, 1, 2}) = Some (3, (10000, {0, 1, 2, 3}))"
proof -
  let ?w = "(0, {0, 1, 2}) :: nat \<times> int set"
  have t: "tracks late_libc snd" by (auto simp: tracks_def late_libc_def split: if_splits)
  have r: "retried late_libc 0 ?w = ?w" "retried late_libc (Suc 0) ?w = (5000, {0, 1, 2})"
      "retried late_libc 2 ?w = (10000, {0, 1, 2})"
    by (auto simp: late_libc_def vsock_bind_def RETRY_def numeral_2_eq_2)
  have f: "\<forall>j<2. isl (fst (vsock_bind late_libc VSOCK_PORT BACKLOG (retried late_libc j ?w)))"
  proof (intro allI impI)
    fix j :: nat assume "j < 2"
    then have "j = 0 \<or> j = Suc 0" by auto
    then show "isl (fst (vsock_bind late_libc VSOCK_PORT BACKLOG (retried late_libc j ?w)))"
      using r by (auto simp: late_libc_def vsock_bind_def)
  qed
  have "vsock_bind late_libc VSOCK_PORT BACKLOG (retried late_libc 2 ?w) = (Inr 3, (10000, {0, 1, 2, 3}))"
    unfolding r by (auto simp: late_libc_def vsock_bind_def)
  with f show ?thesis using bind_loop_leaks_nothing [OF t, of 2 ?w 3 "(10000, {0, 1, 2, 3})"] by blast
qed

subsection \<open>Writing\<close>

text \<open>What the peer of a descriptor is sent, and what a write adds to it.\<close>

definition fd_delivers :: "'w libc \<Rightarrow> int \<Rightarrow> ('w \<Rightarrow> string) \<Rightarrow> bool" where
  "fd_delivers lc fd sent
     = (\<forall>buf w. case lc_write lc fd buf w of (n, w1) \<Rightarrow>
          if n < 0 then sent w1 = sent w else nat n \<le> length buf \<and> sent w1 = sent w @ take (nat n) buf)"

text \<open>Interruptions come to an end: a bound on how many are still to come.\<close>

definition calms_down :: "'w libc \<Rightarrow> int \<Rightarrow> ('w \<Rightarrow> nat) \<Rightarrow> bool" where
  "calms_down lc fd pending
     = (\<forall>buf w. case lc_write lc fd buf w of (n, w1) \<Rightarrow> n < 0 \<and> lc_interrupted lc w1 \<longrightarrow> pending w1 < pending w)"

text \<open>
  C30. A response reaches the peer whole, in order and once.  Whatever the stream's \<open>write\<close> does,
  short writes and interruptions included, as long as the interruptions end: \<open>write_all\<close> returns;
  when it reports success, exactly the bytes of the buffer were sent, and when it reports an error, a prefix of them.
\<close>

theorem write_all_delivers:
  assumes "fd_delivers lc fd sent" "calms_down lc fd pending"
  shows "\<exists>r w' m. write_all lc fd buf w = Some (r, w') \<and> m \<le> length buf \<and> sent w' = sent w @ take m buf
           \<and> (r = None \<longrightarrow> m = length buf)"
proof (induction "(length buf, pending w)" arbitrary: buf w rule: wf_induct_rule [OF wf_lex_prod [OF wf_less_than wf_less_than]])
  case less: 1
  show ?case
  proof (cases "buf = []")
    case True
    then show ?thesis by (subst write_all.simps) simp
  next
    case False
    obtain n w1 where l: "lc_write lc fd buf w = (n, w1)" by (rule prod.exhaust)
    have d: "if n < 0 then sent w1 = sent w else nat n \<le> length buf \<and> sent w1 = sent w @ take (nat n) buf"
      using assms(1) l unfolding fd_delivers_def by (metis (mono_tags, lifting) case_prod_conv)
    consider (again) "n < 0" "lc_interrupted lc w1" | (failed) "n < 0" "\<not> lc_interrupted lc w1" | (nothing) "n = 0" | (some) "0 < n"
      by linarith
    then show ?thesis
    proof cases
      case again
      then have "pending w1 < pending w" using assms(2) l unfolding calms_down_def by (metis (mono_tags, lifting) case_prod_conv)
      then show ?thesis using less [of buf w1] d again False l by (subst write_all.simps) (simp add: vsock_write_def)
    next
      case failed
      then show ?thesis using d False l by (subst write_all.simps) (simp add: vsock_write_def exI [of _ 0])
    next
      case nothing
      then show ?thesis using d False l by (subst write_all.simps) (simp add: vsock_write_def exI [of _ 0])
    next
      case some
      then have "length (drop (nat n) buf) < length buf" using False by simp
      then obtain r w' m where i: "write_all lc fd (drop (nat n) buf) w1 = Some (r, w')" "m \<le> length (drop (nat n) buf)"
          "sent w' = sent w1 @ take m (drop (nat n) buf)" "r = None \<longrightarrow> m = length (drop (nat n) buf)"
        using less [of "drop (nat n) buf" w1] by auto
      have "write_all lc fd buf w = Some (r, w')"
        using some False l i(1) by (subst write_all.simps) (simp add: vsock_write_def)
      moreover have "sent w' = sent w @ take (nat n + m) buf" using i(3) d some by (simp add: take_add)
      moreover have "nat n + m \<le> length buf" "r = None \<longrightarrow> nat n + m = length buf" using i(2,4) d some by auto
      ultimately show ?thesis by blast
    qed
  qed
qed

text \<open>A descriptor that takes two bytes at a time, after one interruption; the world is what was sent.\<close>

definition slow_libc :: "(bool \<times> string) libc" where
  "slow_libc
     = \<lparr>lc_socket = (\<lambda>w. (-1, w)), lc_bind = (\<lambda>_ _ _ w. (-1, w)), lc_listen = (\<lambda>_ _ w. (-1, w)),
        lc_accept = (\<lambda>_ w. (-1, w)), lc_read = (\<lambda>_ _ w. (Some [], w)),
        lc_write = (\<lambda>_ buf (busy, out). if busy then (-1, (False, out)) else (int (length (take 2 buf)), (False, out @ take 2 buf))),
        lc_close = (\<lambda>_ w. w), lc_error = (\<lambda>_. ''interrupted''), lc_interrupted = (\<lambda>_. True),
        lc_sleep = (\<lambda>_ w. w), lc_spawn = (\<lambda>_ w. (True, w))\<rparr>"

theorem write_all_delivers_witness:
  "\<exists>r w' m. write_all slow_libc 5 ''hello'' (True, []) = Some (r, w') \<and> m \<le> 5 \<and> snd w' = take m ''hello''
     \<and> (r = None \<longrightarrow> m = 5)"
proof -
  have d: "fd_delivers slow_libc 5 snd" by (auto simp: fd_delivers_def slow_libc_def min_def)
  have c: "calms_down slow_libc 5 (\<lambda>(busy, _). if busy then 1 else 0)" by (auto simp: calms_down_def slow_libc_def)
  show ?thesis using write_all_delivers [OF d c, of "''hello''" "(True, [])"] by (simp add: numeral_eq_Suc)
qed

subsection \<open>Reading\<close>

primrec reads_fd :: "'w libc \<Rightarrow> int \<Rightarrow> nat \<Rightarrow> 'w \<Rightarrow> read_result list \<times> 'w" where
  "reads_fd lc fd 0 w = ([], w)"
| "reads_fd lc fd (Suc k) w
     = (case vsock_read lc fd 4096 w of (r, w1) \<Rightarrow> case reads_fd lc fd k w1 of (rs, w2) \<Rightarrow> (r # rs, w2))"

lemma read_line_fd_reads:
  "length buf \<le> limit \<Longrightarrow>
   \<exists>k rs w'. k \<le> Suc (limit - length buf) \<and> reads_fd lc fd k w = (rs, w')
     \<and> read_line_fd lc fd limit buf w = (read_line_loop limit rs buf, w')"
proof (induction lc fd limit buf w rule: read_line_fd.induct)
  case (1 lc fd limit buf w)
  obtain r w1 where v: "vsock_read lc fd 4096 w = (r, w1)" by (rule prod.exhaust)
  have stop: ?case if "read_line_fd lc fd limit buf w = (read_line_loop limit [r] buf, w1)"
    using that v by (intro exI [of _ "Suc 0"] exI [of _ "[r]"] exI [of _ w1]) simp
  show ?case
  proof (cases "\<exists>bytes buf'. r = ReadOk bytes \<and> bytes \<noteq> [] \<and> scan_chunk limit bytes buf = Inr buf'")
    case True
    then obtain bytes buf' where b: "r = ReadOk bytes" "bytes \<noteq> []" "scan_chunk limit bytes buf = Inr buf'" by blast
    have g: "buf' = buf @ bytes" "length buf' \<le> limit" using scan_chunk_grows [OF b(3)] b(2) by auto
    obtain k rs w' where i: "k \<le> Suc (limit - length buf')" "reads_fd lc fd k w1 = (rs, w')"
        "read_line_fd lc fd limit buf' w1 = (read_line_loop limit rs buf', w')"
      using "1.IH" [OF v [symmetric] b(1,2,3) g(2)] by blast
    have "Suc k \<le> Suc (limit - length buf)" using i(1) g b(2) by (cases bytes) auto
    moreover have "reads_fd lc fd (Suc k) w = (r # rs, w')" using v i(2) by simp
    moreover have "read_line_fd lc fd limit buf w = (read_line_loop limit (r # rs) buf, w')"
      using v b i(3) by (subst read_line_fd.simps) (simp del: read_line_fd.simps)
    ultimately show ?thesis by blast
  next
    case False
    have "read_line_fd lc fd limit buf w = (read_line_loop limit [r] buf, w1)"
    proof (cases r)
      case (ReadOk bytes)
      then show ?thesis
        using v False by (subst read_line_fd.simps) (auto simp del: read_line_fd.simps split: sum.splits)
    qed (use v in \<open>subst read_line_fd.simps, simp del: read_line_fd.simps\<close>)+
    then show ?thesis by (rule stop)
  qed
qed

text \<open>
  C31. The line reader on a socket is the line reader of the protocol, and a peer cannot keep it
  busy.  Reading a request from a descriptor makes at most one \<open>read\<close> call more than the limit has
  bytes, however the peer cuts up what it sends; the result is that of the bounded reader on
  the outcomes of exactly those calls.
\<close>

theorem read_line_fd_refines:
  "\<exists>k rs w'. k \<le> MAX_REQUEST_BYTES + 1 \<and> reads_fd lc fd k w = (rs, w')
     \<and> read_line_fd lc fd MAX_REQUEST_BYTES [] w = (read_line_bounded rs MAX_REQUEST_BYTES, w')"
  using read_line_fd_reads [of "[]" MAX_REQUEST_BYTES lc fd w] by (simp add: read_line_bounded_def del: read_line_fd.simps)

subsection \<open>Accepting\<close>

text \<open>Failures of \<open>accept\<close> do not end the loop; only a thread that cannot be started does.\<close>

lemma serve_survives: "\<forall>s w. fst (lc_spawn lc s w) \<Longrightarrow> snd (fst (guest_serve lc fd n w))"
proof (induction n arbitrary: w)
  case (Suc n)
  have "lc_spawn lc s w = (b, w') \<Longrightarrow> b" for s w b w' using Suc.prems by (metis fst_conv)
  then show ?case using Suc.IH [OF Suc.prems] by (auto split: prod.splits sum.splits bool.splits) (metis fst_conv snd_conv)+
qed simp

end
