(* ===== verification/Unit_Tests_Base.thy ===== *)
theory Unit_Tests_Base
  imports Rust_Str
begin

text \<open>
  What the unit tests of the repository use of the standard library to look at texts.
\<close>

subsection \<open>Positions\<close>

text \<open>\<open>s.find(p).unwrap() < s.find(q).unwrap()\<close>, without the numbers.\<close>

fun before :: "string \<Rightarrow> string \<Rightarrow> string \<Rightarrow> bool" where
  "before p q [] = False"
| "before p q (c # cs)
     = (\<not> starts_with q (c # cs) \<and> (if starts_with p (c # cs) then contains_str q cs else before p q cs))"

fun find_str :: "string \<Rightarrow> string \<Rightarrow> nat option" where
  "find_str p [] = (if p = [] then Some 0 else None)"
| "find_str p (c # cs) = (if starts_with p (c # cs) then Some 0 else map_option Suc (find_str p cs))"

lemma find_str_contains: "contains_str p s \<longleftrightarrow> find_str p s \<noteq> None"
  by (induction s) auto

lemma before_find:
  "p \<noteq> [] \<Longrightarrow> before p q s \<longleftrightarrow> (\<exists>i j. find_str p s = Some i \<and> find_str q s = Some j \<and> i < j)"
proof (induction s)
  case (Cons c cs)
  then show ?case using find_str_contains [of q cs] by (auto split: if_splits)
qed simp

definition ends_with :: "string \<Rightarrow> string \<Rightarrow> bool" where
  "ends_with p s = (strip_suffix p s \<noteq> None)"

end
