(* ===== verification/Unit_Tests_Meta.thy ===== *)
theory Unit_Tests_Meta
  imports Unit_Tests_Base Vm_Meta
begin

text \<open>
  The unit tests of the metadata file (\<open>agent/src/vm/meta.rs\<close>), evaluated on the model.  Each
  definition is one test of the source, with its inputs and its assertions; each lemma runs
  it.  Parsing is \<open>parse_json\<close> of \<open>Json_Text\<close> followed by the decoder of the record.
\<close>

definition meta_from_str :: "string \<Rightarrow> Meta option" where
  "meta_from_str t = Option.bind (parse_json t) de_meta"

subsection \<open>The tests\<close>

definition test_meta_json_round_trip_sleeping :: bool where
  "test_meta_json_round_trip_sleeping
     = (case meta_from_str ''{\"id\":\"sb-1a8dd244-6\",\"name\":\"v2-verify\",\"dir_id\":\"sb-1a8dd244-6\",\"vcpus\":1,\"mem_mib\":256,\"pid\":null,\"slot\":3,\"ip\":\"10.231.0.5\",\"state\":\"sleeping\"}'' of None \<Rightarrow> False | Some meta \<Rightarrow>
          m_id meta = ''sb-1a8dd244-6'' \<and> m_name meta = ''v2-verify'' \<and> m_dir_id meta = ''sb-1a8dd244-6''
          \<and> m_vcpus meta = 1 \<and> m_mem_mib meta = 256 \<and> m_pid meta = None \<and> m_slot meta = Some 3 \<and> m_ip meta = Some ''10.231.0.5''
          \<and> m_state meta = Sleeping \<and> m_tenant_id meta = None
          \<and> (case meta_from_str (to_json meta) of None \<Rightarrow> False | Some meta2 \<Rightarrow>
          m_id meta2 = m_id meta \<and> m_state meta2 = Sleeping \<and> m_pid meta2 = None \<and> m_slot meta2 = Some 3 \<and> m_tenant_id meta2 = None))"

definition test_explicit_nulls_in_to_json :: bool where
  "test_explicit_nulls_in_to_json
     = (let json = to_json \<lparr>m_id = ''vm-1'', m_name = ''test'', m_dir_id = ''vm-1'', m_vcpus = 2, m_mem_mib = 512, m_pid = None, m_slot = None,
               m_ip = None, m_state = Stopped, m_vsock = False, m_tenant_id = None, m_exposes = [], m_image = None,
               m_disk_gb = None, m_image_sha256 = None\<rparr>
        in contains_str ''\"pid\":null'' json
          \<and> contains_str ''\"slot\":null'' json
          \<and> contains_str ''\"ip\":null'' json
          \<and> \<not> contains_str ''tenant_id'' json)"

definition test_key_order_in_to_json :: bool where
  "test_key_order_in_to_json
     = (let json = to_json \<lparr>m_id = ''x'', m_name = ''y'', m_dir_id = ''x'', m_vcpus = 1, m_mem_mib = 256, m_pid = Some 99, m_slot = Some 2,
               m_ip = Some ''10.0.0.4'', m_state = Running, m_vsock = True, m_tenant_id = None, m_exposes = [], m_image = None,
               m_disk_gb = None, m_image_sha256 = None\<rparr>
        in before ''\"id\"'' ''\"name\"'' json
          \<and> before ''\"name\"'' ''\"dir_id\"'' json
          \<and> before ''\"dir_id\"'' ''\"vcpus\"'' json
          \<and> before ''\"vcpus\"'' ''\"mem_mib\"'' json
          \<and> before ''\"mem_mib\"'' ''\"pid\"'' json
          \<and> before ''\"pid\"'' ''\"slot\"'' json
          \<and> before ''\"slot\"'' ''\"ip\"'' json
          \<and> before ''\"ip\"'' ''\"state\"'' json
          \<and> before ''\"state\"'' ''\"vsock\"'' json
          \<and> ends_with ''\"vsock\":true}'' json)"

definition test_key_order_with_tenant_id :: bool where
  "test_key_order_with_tenant_id
     = (let json = to_json \<lparr>m_id = ''x'', m_name = ''y'', m_dir_id = ''x'', m_vcpus = 1, m_mem_mib = 256, m_pid = Some 99, m_slot = Some 2,
               m_ip = Some ''10.0.0.4'', m_state = Running, m_vsock = True, m_tenant_id = Some ''acme'', m_exposes = [], m_image = None,
               m_disk_gb = None, m_image_sha256 = None\<rparr>
        in before ''\"vsock\"'' ''\"tenant_id\"'' json
          \<and> ends_with ''\"tenant_id\":\"acme\"}'' json)"

definition test_state_strings :: bool where
  "test_state_strings
     = (as_str Creating = ''creating''
          \<and> as_str Running = ''running''
          \<and> as_str Paused = ''paused''
          \<and> as_str Stopped = ''stopped''
          \<and> as_str Sleeping = ''sleeping''
          \<and> as_str Errored = ''error''
          \<and> as_str Pooled = ''pooled'')"

definition test_parse_zig_fixture_slot3_ip_matches_slot :: bool where
  "test_parse_zig_fixture_slot3_ip_matches_slot
     = (case meta_from_str ''{\"id\":\"sb-1a8dd244-6\",\"name\":\"v2-verify\",\"dir_id\":\"sb-1a8dd244-6\",\"vcpus\":1,\"mem_mib\":256,\"pid\":null,\"slot\":3,\"ip\":\"10.231.0.5\",\"state\":\"sleeping\"}'' of None \<Rightarrow> False | Some meta \<Rightarrow>
          m_slot meta = Some 3 \<and> m_ip meta = Some ''10.231.0.5'')"

definition test_old_meta_without_vsock_parses_false :: bool where
  "test_old_meta_without_vsock_parses_false
     = (case meta_from_str ''{\"id\":\"vm-old\",\"name\":\"vm-old\",\"dir_id\":\"vm-old\",\"vcpus\":1,\"mem_mib\":256,\"pid\":null,\"slot\":0,\"ip\":\"10.231.0.2\",\"state\":\"sleeping\"}'' of None \<Rightarrow> False | Some meta \<Rightarrow>
          \<not> m_vsock meta \<and> m_tenant_id meta = None)"

definition test_vsock_round_trip_true :: bool where
  "test_vsock_round_trip_true
     = (let json = to_json \<lparr>m_id = ''vm-v3'', m_name = ''vm-v3'', m_dir_id = ''vm-v3'', m_vcpus = 1, m_mem_mib = 256, m_pid = Some 42, m_slot = Some 0,
               m_ip = Some ''10.231.0.2'', m_state = Running, m_vsock = True, m_tenant_id = None, m_exposes = [], m_image = None,
               m_disk_gb = None, m_image_sha256 = None\<rparr>
        in contains_str ''\"vsock\":true'' json \<and> (case meta_from_str json of None \<Rightarrow> False | Some meta2 \<Rightarrow>
          m_vsock meta2 \<and> m_state meta2 = Running \<and> m_tenant_id meta2 = None))"

definition test_vsock_false_serializes_explicit :: bool where
  "test_vsock_false_serializes_explicit
     = (let json = to_json \<lparr>m_id = ''vm-x'', m_name = ''vm-x'', m_dir_id = ''vm-x'', m_vcpus = 1, m_mem_mib = 256, m_pid = None, m_slot = None,
               m_ip = None, m_state = Stopped, m_vsock = False, m_tenant_id = None, m_exposes = [], m_image = None,
               m_disk_gb = None, m_image_sha256 = None\<rparr>
        in contains_str ''\"vsock\":false'' json \<and> (case meta_from_str json of None \<Rightarrow> False | Some meta2 \<Rightarrow>
          \<not> m_vsock meta2))"

definition test_tenant_id_serialized_when_some :: bool where
  "test_tenant_id_serialized_when_some
     = (let json = to_json \<lparr>m_id = ''vm-t'', m_name = ''vm-t'', m_dir_id = ''vm-t'', m_vcpus = 1, m_mem_mib = 256, m_pid = None, m_slot = None,
               m_ip = None, m_state = Running, m_vsock = False, m_tenant_id = Some ''acme-corp'', m_exposes = [], m_image = None,
               m_disk_gb = None, m_image_sha256 = None\<rparr>
        in contains_str ''\"tenant_id\":\"acme-corp\"'' json \<and> (case meta_from_str json of None \<Rightarrow> False | Some meta2 \<Rightarrow>
          m_tenant_id meta2 = Some ''acme-corp''))"

definition test_tenant_id_absent_when_none :: bool where
  "test_tenant_id_absent_when_none
     = (\<not> contains_str ''tenant_id'' (to_json \<lparr>m_id = ''vm-nt'', m_name = ''vm-nt'', m_dir_id = ''vm-nt'', m_vcpus = 1, m_mem_mib = 256, m_pid = None, m_slot = None,
               m_ip = None, m_state = Running, m_vsock = False, m_tenant_id = None, m_exposes = [], m_image = None,
               m_disk_gb = None, m_image_sha256 = None\<rparr>))"

definition test_old_meta_without_tenant_parses_none :: bool where
  "test_old_meta_without_tenant_parses_none
     = (case meta_from_str ''{\"id\":\"vm-v3\",\"name\":\"vm-v3\",\"dir_id\":\"vm-v3\",\"vcpus\":1,\"mem_mib\":256,\"pid\":null,\"slot\":0,\"ip\":\"10.231.0.2\",\"state\":\"running\",\"vsock\":true}'' of None \<Rightarrow> False | Some meta \<Rightarrow>
          m_vsock meta \<and> m_tenant_id meta = None)"

definition test_old_meta_without_exposes_parses_empty :: bool where
  "test_old_meta_without_exposes_parses_empty
     = (case meta_from_str ''{\"id\":\"vm-v3\",\"name\":\"vm-v3\",\"dir_id\":\"vm-v3\",\"vcpus\":1,\"mem_mib\":256,\"pid\":null,\"slot\":0,\"ip\":\"10.231.0.2\",\"state\":\"running\",\"vsock\":true,\"tenant_id\":\"acme\"}'' of None \<Rightarrow> False | Some meta \<Rightarrow>
          m_exposes meta = [])"

definition test_exposes_absent_when_empty :: bool where
  "test_exposes_absent_when_empty
     = (\<not> contains_str ''exposes'' (to_json \<lparr>m_id = ''vm-e'', m_name = ''vm-e'', m_dir_id = ''vm-e'', m_vcpus = 1, m_mem_mib = 256, m_pid = None, m_slot = None,
               m_ip = None, m_state = Running, m_vsock = False, m_tenant_id = None, m_exposes = [], m_image = None,
               m_disk_gb = None, m_image_sha256 = None\<rparr>))"

definition test_default_image_serializes_byte_identical_to_pre_p4 :: bool where
  "test_default_image_serializes_byte_identical_to_pre_p4
     = (to_json \<lparr>m_id = ''vm-d'', m_name = ''vm-d'', m_dir_id = ''vm-d'', m_vcpus = 1, m_mem_mib = 256, m_pid = Some 42, m_slot = Some 0,
               m_ip = Some ''10.231.0.2'', m_state = Running, m_vsock = True, m_tenant_id = None, m_exposes = [], m_image = None,
               m_disk_gb = None, m_image_sha256 = None\<rparr>
          = ''{\"id\":\"vm-d\",\"name\":\"vm-d\",\"dir_id\":\"vm-d\",\"vcpus\":1,\"mem_mib\":256,\"pid\":42,\"slot\":0,\"ip\":\"10.231.0.2\",\"state\":\"running\",\"vsock\":true}'')"

definition test_image_sha256_absent_when_none_and_pre_p4_parse :: bool where
  "test_image_sha256_absent_when_none_and_pre_p4_parse
     = (let fixture = ''{\"id\":\"vm-p\",\"name\":\"vm-p\",\"dir_id\":\"vm-p\",\"vcpus\":1,\"mem_mib\":256,\"pid\":null,\"slot\":0,\"ip\":\"10.231.0.2\",\"state\":\"running\",\"vsock\":true}''
        in case meta_from_str fixture of None \<Rightarrow> False | Some meta \<Rightarrow>
          m_image_sha256 meta = None \<and> to_json meta = fixture)"

definition test_tenant_id_round_trip :: bool where
  "test_tenant_id_round_trip
     = (case meta_from_str (to_json \<lparr>m_id = ''vm-tr'', m_name = ''vm-tr'', m_dir_id = ''vm-tr'', m_vcpus = 2, m_mem_mib = 512, m_pid = Some 1234, m_slot = Some 3,
               m_ip = Some ''10.231.0.5'', m_state = Running, m_vsock = True, m_tenant_id = Some ''tenant-42'', m_exposes = [], m_image = None,
               m_disk_gb = None, m_image_sha256 = None\<rparr>) of None \<Rightarrow> False | Some meta2 \<Rightarrow>
          m_tenant_id meta2 = Some ''tenant-42'' \<and> m_vsock meta2 \<and> m_state meta2 = Running)"

definition test_image_sha256_round_trip_and_order :: bool where
  "test_image_sha256_round_trip_and_order
     = (let sha = replicate 64 (CHR ''a'');
            json = to_json \<lparr>m_id = ''vm-s'', m_name = ''vm-s'', m_dir_id = ''vm-s'', m_vcpus = 2, m_mem_mib = 2048, m_pid = Some 7, m_slot = Some 1,
               m_ip = Some ''10.231.0.3'', m_state = Pooled, m_vsock = True, m_tenant_id = None, m_exposes = [], m_image = Some ''odoo-v18'',
               m_disk_gb = Some 8, m_image_sha256 = Some sha\<rparr>
        in ends_with (''\"disk_gb\":8,\"image_sha256\":\"'' @ sha @ ''\"}'') json \<and> (case meta_from_str json of None \<Rightarrow> False | Some meta2 \<Rightarrow>
          m_image_sha256 meta2 = Some sha))"

lemma test_meta_json_round_trip_sleeping_holds: "test_meta_json_round_trip_sleeping"
  by code_simp

lemma test_explicit_nulls_in_to_json_holds: "test_explicit_nulls_in_to_json"
  by code_simp

lemma test_key_order_in_to_json_holds: "test_key_order_in_to_json"
  by code_simp

lemma test_key_order_with_tenant_id_holds: "test_key_order_with_tenant_id"
  by code_simp

lemma test_state_strings_holds: "test_state_strings"
  by code_simp

lemma test_parse_zig_fixture_slot3_ip_matches_slot_holds: "test_parse_zig_fixture_slot3_ip_matches_slot"
  by code_simp

lemma test_old_meta_without_vsock_parses_false_holds: "test_old_meta_without_vsock_parses_false"
  by code_simp

lemma test_vsock_round_trip_true_holds: "test_vsock_round_trip_true"
  by code_simp

lemma test_vsock_false_serializes_explicit_holds: "test_vsock_false_serializes_explicit"
  by code_simp

lemma test_tenant_id_serialized_when_some_holds: "test_tenant_id_serialized_when_some"
  by code_simp

lemma test_tenant_id_absent_when_none_holds: "test_tenant_id_absent_when_none"
  by code_simp

lemma test_old_meta_without_tenant_parses_none_holds: "test_old_meta_without_tenant_parses_none"
  by code_simp

lemma test_old_meta_without_exposes_parses_empty_holds: "test_old_meta_without_exposes_parses_empty"
  by code_simp

lemma test_exposes_absent_when_empty_holds: "test_exposes_absent_when_empty"
  by code_simp

lemma test_default_image_serializes_byte_identical_to_pre_p4_holds: "test_default_image_serializes_byte_identical_to_pre_p4"
  by code_simp

lemma test_image_sha256_absent_when_none_and_pre_p4_parse_holds: "test_image_sha256_absent_when_none_and_pre_p4_parse"
  by code_simp

lemma test_tenant_id_round_trip_holds: "test_tenant_id_round_trip"
  by code_simp

lemma test_image_sha256_round_trip_and_order_holds: "test_image_sha256_round_trip_and_order"
  by code_simp

end
