(* ===== verification/Unit_Tests_Net.thy ===== *)
theory Unit_Tests_Net
  imports Unit_Tests_Base Fc_Api Nft_Rules
begin

text \<open>
  The unit tests of addresses (\<open>agent/src/ipalloc.rs\<close>), rulesets (\<open>agent/src/net.rs\<close>) and Firecracker
  requests (\<open>agent/src/fc.rs\<close>), evaluated on the model.  Each definition is one test of the source, with its inputs and its
  assertions; each lemma runs it.  The order in which a hash map is walked is that of insertion.
\<close>

subsection \<open>Addresses\<close>

definition test_cidr_parse_and_host_addressing :: bool where
  "test_cidr_parse_and_host_addressing
     = (case Cidr_parse ''10.231.0.0/24'' of None \<Rightarrow> False | Some c \<Rightarrow>
          cidr_prefix c = 24
          \<and> fmt_ip (gateway c) = ''10.231.0.1''
          \<and> fmt_ip (host_at c 0) = ''10.231.0.2''
          \<and> fmt_ip (host_at c 10) = ''10.231.0.12''
          \<and> fmt_ip (cidr_mask c) = ''255.255.255.0''
          \<and> host_count c = 253)"

definition test_slot_ip_math_10_231_0_0_24 :: bool where
  "test_slot_ip_math_10_231_0_0_24
     = (case Cidr_parse ''10.231.0.0/24'' of None \<Rightarrow> False | Some c \<Rightarrow>
          fmt_ip (host_at c 3) = ''10.231.0.5'' \<and> fmt_ip (host_at c 1) = ''10.231.0.3'')"

definition test_allocator_sequential_and_reuse :: bool where
  "test_allocator_sequential_and_reuse
     = (case Cidr_parse ''10.231.0.0/24'' of None \<Rightarrow> False | Some c \<Rightarrow>
          (let (s0, a0) = alloc_claim (alloc_new c); (s1, a1) = alloc_claim a0; (s2, a2) = alloc_claim a1;
               (s3, a3) = alloc_claim (alloc_free a2 1)
           in s0 = Some 0 \<and> s1 = Some 1 \<and> s2 = Some 2 \<and> s3 = Some 1 \<and> alloc_ip_for a3 0 = ''10.231.0.2''))"

definition test_reserve_marks_slot_used :: bool where
  "test_reserve_marks_slot_used
     = (case Cidr_parse ''10.231.0.0/29'' of None \<Rightarrow> False | Some c \<Rightarrow>
          (let (s0, a0) = alloc_claim (alloc_reserve (alloc_reserve (alloc_new c) 0) 2); (s1, a1) = alloc_claim a0
           in host_count c = 5 \<and> s0 = Some 1 \<and> s1 = Some 3))"

subsection \<open>Isolation and the fences\<close>

text \<open>An evaluation of the address parser that does not count up to the address.\<close>

lemma ipv4_from_str_words [code]:
  "ipv4_from_str s
     = (case map ipv4_octet (split_on (CHR ''.'') s) of
          [Some a, Some b, Some c, Some d] \<Rightarrow>
            Some (((word_of_nat a * 256 + word_of_nat b) * 256 + word_of_nat c) * 256 + word_of_nat d)
        | _ \<Rightarrow> None)"
  by (simp add: ipv4_from_str_def split: list.splits option.splits)

definition test_isolation_ruleset_is_one_transaction_with_the_drop_rule :: bool where
  "test_isolation_ruleset_is_one_transaction_with_the_drop_rule
     = (let rs = isolation_ruleset (\<lambda>ks. ks) [(''tn-a'', ''10.231.0.2'')]
        in before ''flush chain ip felucca forward'' (''add rule ip felucca forward iifname \"'' @ BRIDGE_NAME @ ''\" oifname \"'' @ BRIDGE_NAME @ ''\" drop'') rs
          \<and> contains_str ''flush set ip felucca tenant_pairs'' rs)"

definition test_isolation_ruleset_chain_policy_is_drop :: bool where
  "test_isolation_ruleset_chain_policy_is_drop
     = (let rs = isolation_ruleset (\<lambda>ks. ks) []
        in contains_str ''type filter hook forward priority 0 ; policy drop ;'' rs
          \<and> \<not> contains_str ''policy accept'' rs)"

definition test_isolation_ruleset_has_no_conntrack_shortcut :: bool where
  "test_isolation_ruleset_has_no_conntrack_shortcut
     = (\<not> contains_str ''ct state'' (isolation_ruleset (\<lambda>ks. ks) [(''tn-a'', ''10.231.0.2''), (''tn-a'', ''10.231.0.3'')]))"

definition test_isolation_ruleset_accepts_traffic_that_is_not_guest_to_guest :: bool where
  "test_isolation_ruleset_accepts_traffic_that_is_not_guest_to_guest
     = (let rs = isolation_ruleset (\<lambda>ks. ks) []
        in contains_str (''iifname != \"'' @ BRIDGE_NAME @ ''\" accept'') rs
          \<and> contains_str (''oifname != \"'' @ BRIDGE_NAME @ ''\" accept'') rs
          \<and> \<not> contains_str ''add element'' rs)"

lemma show_ports: "show_nat (unat (9090 :: u16)) = ''9090''" "show_nat (unat (9443 :: u16)) = ''9443''"
  by (simp_all add: show_nat.simps digit_char_def, code_simp+)

definition test_guest_input_ruleset_default_drops_guest_to_host :: bool where
  "test_guest_input_ruleset_default_drops_guest_to_host
     = (let rs = guest_input_ruleset (Some 9090)
        in before ''icmp type'' (''add rule ip felucca input iifname \"'' @ BRIDGE_NAME @ ''\" drop'') rs
          \<and> before ''ct state established,related'' (''add rule ip felucca input iifname \"'' @ BRIDGE_NAME @ ''\" drop'') rs)"

definition test_guest_input_ruleset_leaves_non_guest_traffic_alone :: bool where
  "test_guest_input_ruleset_leaves_non_guest_traffic_alone
     = (let rs = guest_input_ruleset (Some 9090)
        in contains_str ''type filter hook input priority 0 ; policy accept ;'' rs
          \<and> before (''input iifname != \"'' @ BRIDGE_NAME @ ''\" accept'') ''tcp dport 9090 drop'' rs
          \<and> contains_str ''flush chain ip felucca input'' rs)"

definition test_bridge_l2_ruleset_drops_non_ipv4_between_guests :: bool where
  "test_bridge_l2_ruleset_drops_non_ipv4_between_guests
     = (before ''ether type arp accept'' ''add rule bridge felucca forward drop'' bridge_l2_ruleset
          \<and> before ''ether type ip accept'' ''add rule bridge felucca forward drop'' bridge_l2_ruleset
          \<and> \<not> contains_str ''ip6'' bridge_l2_ruleset)"

definition test_bridge_l2_ruleset_only_polices_our_bridge :: bool where
  "test_bridge_l2_ruleset_only_polices_our_bridge
     = (contains_str ''policy accept'' bridge_l2_ruleset
          \<and> before (''meta ibrname != \"'' @ BRIDGE_NAME @ ''\" accept'') ''add rule bridge felucca forward drop'' bridge_l2_ruleset
          \<and> before (''meta obrname != \"'' @ BRIDGE_NAME @ ''\" accept'') ''add rule bridge felucca forward drop'' bridge_l2_ruleset
          \<and> contains_str ''flush chain bridge felucca forward'' bridge_l2_ruleset)"

subsection \<open>Pins\<close>

definition test_guest_mac_has_no_empty_inhabitant :: bool where
  "test_guest_mac_has_no_empty_inhabitant
     = (list_all (\<lambda>s. GuestMac_parse s = None) [[], ''not-a-mac'', ''02:48:54:00:00'', ''02:48:54:00:00:zz'', (''02:48:54:00:00:03'' @ [CHR 0x0A] @ ''accept'')]
          \<and> map_option mac_str (GuestMac_parse ''02:48:54:AA:BB:CC'') = Some ''02:48:54:aa:bb:cc''
          \<and> list_all (\<lambda>idx. mac_str (guest_mac_for_slot idx) \<noteq> []) [0, 1, 7, 253, 16777215])"

definition test_antispoof_ruleset_pins_ip_mac_and_arp :: bool where
  "test_antispoof_ruleset_pins_ip_mac_and_arp
     = (case antispoof_ruleset ''hth-3'' ''10.231.0.5'' (guest_mac_for_slot 3) of None \<Rightarrow> False | Some rs \<Rightarrow>
          contains_str ''hook ingress device \"hth-3\" priority 0 ; policy drop ;'' rs
          \<and> contains_str ''ether saddr != 02:48:54:00:00:03 drop'' rs
          \<and> contains_str ''arp operation { request, reply } arp saddr ip != 10.231.0.5 drop'' rs
          \<and> contains_str ''ip saddr 10.231.0.5 accept'' rs
          \<and> contains_str ''flush chain netdev felucca as_hth_3'' rs
          \<and> \<not> contains_str (''accept'' @ [CHR 0x0A] @ ''add rule netdev felucca as_hth_3 ip saddr != '') rs)"

definition test_antispoof_ruleset_pins_the_arp_sender_hardware_address :: bool where
  "test_antispoof_ruleset_pins_the_arp_sender_hardware_address
     = (case antispoof_ruleset ''hth-3'' ''10.231.0.5'' (guest_mac_for_slot 3) of None \<Rightarrow> False | Some rs \<Rightarrow>
          before ''arp operation { request, reply } arp saddr ether != 02:48:54:00:00:03 drop'' ''ether type arp accept'' rs
          \<and> before ''arp saddr ip != 10.231.0.5 drop'' ''ether type arp accept'' rs)"

definition test_antispoof_ruleset_rejects_bad_inputs :: bool where
  "test_antispoof_ruleset_rejects_bad_inputs
     = (list_all (\<lambda>(tap, ip). antispoof_ruleset tap ip (guest_mac_for_slot 3) = None)
            [(''hth-3'', ''not-an-ip''), (''hth-3'', (''10.231.0.5'' @ [CHR 0x0A] @ ''accept'')), (''hth-3; nft flush ruleset'', ''10.231.0.5''), ([], ''10.231.0.5''),
             (''hth-3'', ''fe80::1'')]
          \<and> GuestMac_parse ''not-a-mac'' = None
          \<and> GuestMac_parse ''02:48:54:00:00:zz'' = None)"

definition test_antispoof_chain_is_per_tap :: bool where
  "test_antispoof_chain_is_per_tap
     = (antispoof_chain ''hth-3'' = ''as_hth_3''
          \<and> antispoof_chain ''hth-3'' \<noteq> antispoof_chain ''hth-4'')"

definition test_valid_ifname :: bool where
  "test_valid_ifname
     = (valid_ifname ''felucca0''
          \<and> valid_ifname ''hth-3''
          \<and> list_all (\<lambda>s. \<not> valid_ifname s) [[], ''hth-3; rm -rf /'', ''hth 3'', ''../../proc/sys'', ''aaaaaaaaaaaaaaaa''])"

subsection \<open>Pairs and node ports\<close>

definition test_tenant_pair_elements_pairs_same_tenant_both_ways :: bool where
  "test_tenant_pair_elements_pairs_same_tenant_both_ways
     = (let elems = tenant_pair_elements (\<lambda>ks. ks) [(''tn-a'', ''10.231.0.2''), (''tn-a'', ''10.231.0.3''), (''tn-b'', ''10.231.0.4'')]
        in length elems = 2
          \<and> List.member elems ''10.231.0.2 . 10.231.0.3''
          \<and> List.member elems ''10.231.0.3 . 10.231.0.2''
          \<and> \<not> list_ex (contains_str ''10.231.0.4'') elems)"

definition test_tenant_pair_elements_rejects_unparseable_ip :: bool where
  "test_tenant_pair_elements_rejects_unparseable_ip
     = (tenant_pair_elements (\<lambda>ks. ks) [(''tn-a'', ''10.231.0.2''), (''tn-a'', (''10.231.0.3'' @ [CHR 0x0A] @ ''add rule ip felucca forward accept''))] = []
          \<and> tenant_pair_elements (\<lambda>ks. ks) [(''tn-a'', ''10.231.0.2''), (''tn-a'', ''not-an-ip'')] = [])"

definition test_tenant_pair_elements_isolates_invalid_tenant :: bool where
  "test_tenant_pair_elements_isolates_invalid_tenant
     = (tenant_pair_elements (\<lambda>ks. ks) [([], ''10.231.0.2''), ([], ''10.231.0.3''), (''tn a'', ''10.231.0.4'')] = [])"

definition test_ingress_rule_parts_rejects_non_ip :: bool where
  "test_ingress_rule_parts_rejects_non_ip
     = (list_all (\<lambda>ip. ingress_rule_parts 20000 ip 80 = None) [''10.231.0.5; drop table'', ''evil.example.com'', [], ''fe80::1''])"

subsection \<open>Firecracker requests\<close>

definition test_build_boot_source_with_net_and_ip :: bool where
  "test_build_boot_source_with_net_and_ip
     = (build_boot_source ''/srv/ignis/kernels/vmlinux'' True (Some ''10.231.0.5'') ''10.231.0.1'' ''255.255.255.0''
          = ''{\"kernel_image_path\":\"/srv/ignis/kernels/vmlinux\",\"boot_args\":\"console=ttyS0 reboot=k panic=1 root=/dev/vda rw ip=10.231.0.5::10.231.0.1:255.255.255.0::eth0:off\"}'')"

definition test_build_boot_source_without_net :: bool where
  "test_build_boot_source_without_net
     = (build_boot_source ''/srv/ignis/kernels/vmlinux'' False None [] []
          = ''{\"kernel_image_path\":\"/srv/ignis/kernels/vmlinux\",\"boot_args\":\"console=ttyS0 reboot=k panic=1 root=/dev/vda rw\"}'')"

definition test_build_boot_source_net_on_no_ip :: bool where
  "test_build_boot_source_net_on_no_ip
     = (build_boot_source ''/srv/ignis/kernels/vmlinux'' True None ''10.231.0.1'' ''255.255.255.0''
          = ''{\"kernel_image_path\":\"/srv/ignis/kernels/vmlinux\",\"boot_args\":\"console=ttyS0 reboot=k panic=1 root=/dev/vda rw\"}'')"

definition test_build_network_interface_pins_the_guest_mac :: bool where
  "test_build_network_interface_pins_the_guest_mac
     = (build_network_interface ''hth-3'' (guest_mac_for_slot 3)
          = ''{\"iface_id\":\"eth0\",\"host_dev_name\":\"hth-3\",\"guest_mac\":\"02:48:54:00:00:03\"}'')"

definition test_build_network_interface_always_carries_a_mac :: bool where
  "test_build_network_interface_always_carries_a_mac
     = (list_all (\<lambda>slot. contains_str (''\"guest_mac\":\"'' @ mac_str (guest_mac_for_slot slot) @ ''\"'')
          (build_network_interface (tap_name slot) (guest_mac_for_slot slot))) [0, 1, 7, 253])"

definition test_build_snapshot_create :: bool where
  "test_build_snapshot_create
     = (build_snapshot_create ''/srv/ignis/instances/vm-1/vmstate.bin'' ''/srv/ignis/instances/vm-1/mem.bin''
          = ''{\"snapshot_type\":\"Full\",\"snapshot_path\":\"/srv/ignis/instances/vm-1/vmstate.bin\",\"mem_file_path\":\"/srv/ignis/instances/vm-1/mem.bin\"}'')"

definition test_build_snapshot_load_with_network :: bool where
  "test_build_snapshot_load_with_network
     = (build_snapshot_load ''/srv/ignis/instances/vm-1/vmstate.bin'' ''/srv/ignis/instances/vm-1/mem.bin'' True (Some 3) None
          = ''{\"snapshot_path\":\"/srv/ignis/instances/vm-1/vmstate.bin\",\"mem_backend\":{\"backend_path\":\"/srv/ignis/instances/vm-1/mem.bin\",\"backend_type\":\"File\"},\"network_overrides\":[{\"iface_id\":\"eth0\",\"host_dev_name\":\"hth-3\"}],\"resume_vm\":true}'')"

definition test_build_snapshot_load_without_network :: bool where
  "test_build_snapshot_load_without_network
     = (build_snapshot_load ''/srv/ignis/instances/vm-1/vmstate.bin'' ''/srv/ignis/instances/vm-1/mem.bin'' False None None
          = ''{\"snapshot_path\":\"/srv/ignis/instances/vm-1/vmstate.bin\",\"mem_backend\":{\"backend_path\":\"/srv/ignis/instances/vm-1/mem.bin\",\"backend_type\":\"File\"},\"resume_vm\":true}'')"

definition test_build_snapshot_load_net_on_no_slot :: bool where
  "test_build_snapshot_load_net_on_no_slot
     = (build_snapshot_load ''/a/vmstate.bin'' ''/a/mem.bin'' True None None
          = ''{\"snapshot_path\":\"/a/vmstate.bin\",\"mem_backend\":{\"backend_path\":\"/a/mem.bin\",\"backend_type\":\"File\"},\"resume_vm\":true}'')"

definition test_build_vsock :: bool where
  "test_build_vsock
     = (build_vsock 3 ''/srv/ignis/instances/vm-1/v.sock''
          = ''{\"guest_cid\":3,\"uds_path\":\"/srv/ignis/instances/vm-1/v.sock\"}'')"

definition test_build_snapshot_load_with_vsock_override :: bool where
  "test_build_snapshot_load_with_vsock_override
     = (build_snapshot_load ''/srv/ignis/instances/child-1/vmstate.bin'' ''/srv/ignis/instances/child-1/mem.bin'' True (Some 3) (Some ''/srv/ignis/instances/child-1/v.sock'')
          = ''{\"snapshot_path\":\"/srv/ignis/instances/child-1/vmstate.bin\",\"mem_backend\":{\"backend_path\":\"/srv/ignis/instances/child-1/mem.bin\",\"backend_type\":\"File\"},\"network_overrides\":[{\"iface_id\":\"eth0\",\"host_dev_name\":\"hth-3\"}],\"vsock_override\":{\"guest_cid\":3,\"uds_path\":\"/srv/ignis/instances/child-1/v.sock\"},\"resume_vm\":true}'')"

definition test_build_snapshot_load_vsock_override_no_net :: bool where
  "test_build_snapshot_load_vsock_override_no_net
     = (build_snapshot_load ''/a/vmstate.bin'' ''/a/mem.bin'' False None (Some ''/a/v.sock'')
          = ''{\"snapshot_path\":\"/a/vmstate.bin\",\"mem_backend\":{\"backend_path\":\"/a/mem.bin\",\"backend_type\":\"File\"},\"vsock_override\":{\"guest_cid\":3,\"uds_path\":\"/a/v.sock\"},\"resume_vm\":true}'')"

lemma test_cidr_parse_and_host_addressing_holds: "test_cidr_parse_and_host_addressing"
  by code_simp

lemma test_slot_ip_math_10_231_0_0_24_holds: "test_slot_ip_math_10_231_0_0_24"
  by code_simp

lemma test_allocator_sequential_and_reuse_holds: "test_allocator_sequential_and_reuse"
  by code_simp

lemma test_reserve_marks_slot_used_holds: "test_reserve_marks_slot_used"
  by code_simp

lemma test_isolation_ruleset_is_one_transaction_with_the_drop_rule_holds: "test_isolation_ruleset_is_one_transaction_with_the_drop_rule"
  by code_simp

lemma test_isolation_ruleset_chain_policy_is_drop_holds: "test_isolation_ruleset_chain_policy_is_drop"
  by code_simp

lemma test_isolation_ruleset_has_no_conntrack_shortcut_holds: "test_isolation_ruleset_has_no_conntrack_shortcut"
  by code_simp

lemma test_isolation_ruleset_accepts_traffic_that_is_not_guest_to_guest_holds: "test_isolation_ruleset_accepts_traffic_that_is_not_guest_to_guest"
  by code_simp

lemma test_guest_input_ruleset_default_drops_guest_to_host_holds: "test_guest_input_ruleset_default_drops_guest_to_host"
  by (simp only: test_guest_input_ruleset_default_drops_guest_to_host_def guest_input_ruleset_def option.case show_ports Let_def) code_simp

lemma test_guest_input_ruleset_leaves_non_guest_traffic_alone_holds: "test_guest_input_ruleset_leaves_non_guest_traffic_alone"
  by (simp only: test_guest_input_ruleset_leaves_non_guest_traffic_alone_def guest_input_ruleset_def option.case show_ports Let_def) code_simp

lemma test_bridge_l2_ruleset_drops_non_ipv4_between_guests_holds: "test_bridge_l2_ruleset_drops_non_ipv4_between_guests"
  by code_simp

lemma test_bridge_l2_ruleset_only_polices_our_bridge_holds: "test_bridge_l2_ruleset_only_polices_our_bridge"
  by code_simp

lemma test_guest_mac_has_no_empty_inhabitant_holds: "test_guest_mac_has_no_empty_inhabitant"
  by code_simp

lemma test_antispoof_ruleset_pins_ip_mac_and_arp_holds: "test_antispoof_ruleset_pins_ip_mac_and_arp"
  by code_simp

lemma test_antispoof_ruleset_pins_the_arp_sender_hardware_address_holds: "test_antispoof_ruleset_pins_the_arp_sender_hardware_address"
  by code_simp

lemma test_antispoof_ruleset_rejects_bad_inputs_holds: "test_antispoof_ruleset_rejects_bad_inputs"
  by code_simp

lemma test_antispoof_chain_is_per_tap_holds: "test_antispoof_chain_is_per_tap"
  by code_simp

lemma test_valid_ifname_holds: "test_valid_ifname"
  by code_simp

lemma test_tenant_pair_elements_pairs_same_tenant_both_ways_holds: "test_tenant_pair_elements_pairs_same_tenant_both_ways"
  by code_simp

lemma test_tenant_pair_elements_rejects_unparseable_ip_holds: "test_tenant_pair_elements_rejects_unparseable_ip"
  by code_simp

lemma test_tenant_pair_elements_isolates_invalid_tenant_holds: "test_tenant_pair_elements_isolates_invalid_tenant"
  by code_simp

lemma test_ingress_rule_parts_rejects_non_ip_holds: "test_ingress_rule_parts_rejects_non_ip"
  by code_simp

lemma test_build_boot_source_with_net_and_ip_holds: "test_build_boot_source_with_net_and_ip"
  by code_simp

lemma test_build_boot_source_without_net_holds: "test_build_boot_source_without_net"
  by code_simp

lemma test_build_boot_source_net_on_no_ip_holds: "test_build_boot_source_net_on_no_ip"
  by code_simp

lemma test_build_network_interface_pins_the_guest_mac_holds: "test_build_network_interface_pins_the_guest_mac"
  by code_simp

lemma test_build_network_interface_always_carries_a_mac_holds: "test_build_network_interface_always_carries_a_mac"
  by code_simp

lemma test_build_snapshot_create_holds: "test_build_snapshot_create"
  by code_simp

lemma test_build_snapshot_load_with_network_holds: "test_build_snapshot_load_with_network"
  by code_simp

lemma test_build_snapshot_load_without_network_holds: "test_build_snapshot_load_without_network"
  by code_simp

lemma test_build_snapshot_load_net_on_no_slot_holds: "test_build_snapshot_load_net_on_no_slot"
  by code_simp

lemma test_build_vsock_holds: "test_build_vsock"
  by code_simp

lemma test_build_snapshot_load_with_vsock_override_holds: "test_build_snapshot_load_with_vsock_override"
  by code_simp

lemma test_build_snapshot_load_vsock_override_no_net_holds: "test_build_snapshot_load_vsock_override_no_net"
  by code_simp

end
