(* ===== verification/Unit_Tests_Vm.thy ===== *)
theory Unit_Tests_Vm
  imports Vm_Records Fc_Api
begin

text \<open>
  The unit tests of the manager's pure functions (\<open>agent/src/vm/mod.rs\<close>, \<open>agent/src/vm/meta.rs\<close>,
  \<open>agent/src/vm/image.rs\<close>), evaluated on the model.  Each definition is one test of the
  source, with its inputs and its assertions; each lemma runs it.
\<close>

subsection \<open>Identifiers\<close>

definition test_valid_vm_id_accepts_the_ids_we_actually_issue :: bool where
  "test_valid_vm_id_accepts_the_ids_we_actually_issue
     = (list_all valid_vm_id [''sb-0123456789ab'', ''sb-aabbccdd-1'', ''pool-18f3a2b1c9d'', ''vm-1'', ''A'', ''a.b_c-d'', replicate 64 (CHR ''a'')])"

definition test_valid_vm_id_rejects_traversal :: bool where
  "test_valid_vm_id_rejects_traversal
     = (list_all (\<lambda>s. \<not> valid_vm_id s) [''../../../../etc/felucca'', ''../../../etc/felucca'', ''..'', ''.'', ''a/b'', ''/etc/felucca'',
          ''a..b'', [], replicate 65 (CHR ''a''), ''.hidden'', ''-rf'', ''vm 1'', (''vm'' @ [CHR 0x0A] @ ''1''), (''vm'' @ [CHR 0x00] @ ''1''), ''vm$(id)''])"

definition test_instance_path_refuses_to_leave_the_instances_dir :: bool where
  "test_instance_path_refuses_to_leave_the_instances_dir
     = (instance_path ''/srv/felucca'' ''vm-1'' = Some ''/srv/felucca/instances/vm-1''
        \<and> instance_path ''/srv/felucca'' ''../../etc/felucca'' = None
        \<and> instance_path ''/srv/felucca'' [] = None)"

subsection \<open>Taps\<close>

definition test_fc_nic_mac_is_the_mac_the_tap_is_pinned_to :: bool where
  "test_fc_nic_mac_is_the_mac_the_tap_is_pinned_to
     = (list_all (\<lambda>slot. case tap_pin_for_slot slot of (tap, mac) \<Rightarrow>
          contains_str (''\"guest_mac\":\"'' @ mac_str mac @ ''\"'') (build_network_interface tap mac)
          \<and> contains_str (''\"host_dev_name\":\"'' @ tap @ ''\"'') (build_network_interface tap mac)) [0, 1, 3, 253])"

definition test_every_path_pins_a_slot_to_one_tap_and_one_mac :: bool where
  "test_every_path_pins_a_slot_to_one_tap_and_one_mac
     = (list_all (\<lambda>slot. case tap_pin_for_slot slot of (tap, mac) \<Rightarrow> tap = tap_name slot \<and> mac = guest_mac_for_slot slot \<and> mac_str mac \<noteq> []) [0, 1, 7, 253]
        \<and> snd (tap_pin_for_slot 7) \<noteq> snd (tap_pin_for_slot 8)
        \<and> fst (tap_pin_for_slot 7) \<noteq> fst (tap_pin_for_slot 8))"

definition test_fork_re_mac_targets_the_pinned_mac :: bool where
  "test_fork_re_mac_targets_the_pinned_mac
     = (snd (tap_pin_for_slot 7) = guest_mac_for_slot 7
        \<and> guest_mac_for_slot 7 \<noteq> guest_mac_for_slot (7 + 1))"

definition pooled_vm :: "string \<Rightarrow> string \<Rightarrow> u32 \<Rightarrow> u64 \<Rightarrow> u32 \<Rightarrow> Vm" where
  "pooled_vm vid img vcpus mem_mib disk_gb
     = \<lparr>v_id = vid, v_name = ''pool'', v_dir_id = vid, v_vcpus = vcpus, v_mem_mib = mem_mib, v_state = Pooled,
        v_pid = Some 1, v_slot = Some 0, v_ip = Some ''10.231.0.2'', v_vsock = True, v_tenant_id = None,
        v_exposes = [], v_image = img, v_disk_gb = disk_gb, v_image_sha256 = None\<rparr>"

definition test_taps_to_repin_covers_every_adopted_live_guest :: bool where
  "test_taps_to_repin_covers_every_adopted_live_guest
     = (let running = (pooled_vm ''sb-run'' DEFAULT_IMAGE 1 256 0)\<lparr>v_state := Running, v_slot := Some 3, v_ip := Some ''10.231.0.5''\<rparr>;
            paused = (pooled_vm ''sb-paused'' DEFAULT_IMAGE 1 256 0)\<lparr>v_state := Paused, v_slot := Some 4, v_ip := Some ''10.231.0.6''\<rparr>;
            sleeping = (pooled_vm ''sb-sleep'' DEFAULT_IMAGE 1 256 0)\<lparr>v_state := Sleeping, v_slot := Some 5\<rparr>;
            stopped = (pooled_vm ''sb-stop'' DEFAULT_IMAGE 1 256 0)\<lparr>v_state := Stopped, v_slot := Some 6\<rparr>;
            no_ip = (pooled_vm ''sb-noip'' DEFAULT_IMAGE 1 256 0)\<lparr>v_state := Running, v_slot := Some 7, v_ip := None\<rparr>;
            repinned = taps_to_repin [running, paused, sleeping, stopped, no_ip]
        in repinned = [(''sb-run'', 3, ''10.231.0.5''), (''sb-paused'', 4, ''10.231.0.6'')]
           \<and> tap_pin_for_slot (fst (snd (repinned ! 0))) = (''hth-3'', guest_mac_for_slot 3))"

subsection \<open>The list of machines\<close>

text \<open>The member of an object, \<open>Null\<close> when it is not there, as indexing of \<open>serde_json\<close> values does.\<close>

definition jat :: "json \<Rightarrow> string \<Rightarrow> json" where
  "jat j k = (case j of JObj kvs \<Rightarrow> (case map_of (rev kvs) k of Some v \<Rightarrow> v | None \<Rightarrow> JNull) | _ \<Rightarrow> JNull)"

definition elems :: "json \<Rightarrow> json list" where
  "elems j = (case j of JArr xs \<Rightarrow> xs | _ \<Rightarrow> [])"

definition test_list_json_escapes_a_forging_name :: bool where
  "test_list_json_escapes_a_forging_name
     = (let forge = ''x\",\"state\":\"running\",\"pid\":1,\"z\":\"'';
            vm = (pooled_vm ''sb-1'' DEFAULT_IMAGE 1 256 0)\<lparr>v_name := forge, v_state := Stopped, v_pid := None\<rparr>
        in case parse_json (list_json [vm]) of
             None \<Rightarrow> False
           | Some parsed \<Rightarrow>
               length (elems (jat parsed ''vms'')) = 1
               \<and> (let v = elems (jat parsed ''vms'') ! 0
                  in jat v ''name'' = JStr forge \<and> jat v ''state'' = JStr ''stopped'' \<and> jat v ''pid'' = JNull))"

definition test_list_json_escapes_control_characters_in_id_and_name :: bool where
  "test_list_json_escapes_control_characters_in_id_and_name
     = (let vm = (pooled_vm ''sb-1'' DEFAULT_IMAGE 1 256 0)\<lparr>v_name := (''line'' @ [CHR 0x0A] @ ''break'' @ [CHR 0x09] @ ''tab'' @ [CHR 0x5C] @ ''slash\"quote'')\<rparr>
        in case parse_json (list_json [vm]) of
             None \<Rightarrow> False
           | Some parsed \<Rightarrow>
               (let v = elems (jat parsed ''vms'') ! 0
                in jat v ''name'' = JStr (''line'' @ [CHR 0x0A] @ ''break'' @ [CHR 0x09] @ ''tab'' @ [CHR 0x5C] @ ''slash\"quote'') \<and> jat v ''ip'' = JStr ''10.231.0.2''))"

subsection \<open>Pools\<close>

lemma spec_names:
  "valid_image_name ''odoo-v18''" "valid_sha256 (replicate 64 (CHR ''a''))" "\<not> valid_image_name ''../etc''"
  "\<not> valid_image_name ''UPPER''" "\<not> valid_sha256 ''xyz''"
  by code_simp+


definition good_spec :: PoolSpec where
  "good_spec = \<lparr>ps_image = ''odoo-v18'', ps_image_sha256 = replicate 64 (CHR ''a''), ps_vcpus = 2, ps_mem_mib = 2048,
     ps_disk_gb = 8, ps_count = 2\<rparr>"

definition test_pool_spec_validation_accepts_good :: bool where
  "test_pool_spec_validation_accepts_good
     = (list_all (\<lambda>s. validate_pool_spec (\<lambda>t. t) s = Inr ())
          [good_spec, good_spec\<lparr>ps_image_sha256 := []\<rparr>, good_spec\<lparr>ps_count := 0\<rparr>,
           good_spec\<lparr>ps_vcpus := 16, ps_mem_mib := 32768, ps_disk_gb := 128, ps_count := 8\<rparr>,
           good_spec\<lparr>ps_vcpus := 1, ps_mem_mib := 64, ps_disk_gb := 0\<rparr>])"

definition test_pool_spec_validation_rejects_bad :: bool where
  "test_pool_spec_validation_rejects_bad
     = (list_all (\<lambda>s. is_err (validate_pool_spec (\<lambda>t. t) s))
          [good_spec\<lparr>ps_image := ''../etc''\<rparr>, good_spec\<lparr>ps_image := ''UPPER''\<rparr>, good_spec\<lparr>ps_image_sha256 := ''xyz''\<rparr>,
           good_spec\<lparr>ps_vcpus := 0\<rparr>, good_spec\<lparr>ps_vcpus := 17\<rparr>, good_spec\<lparr>ps_mem_mib := 63\<rparr>,
           good_spec\<lparr>ps_mem_mib := 32769\<rparr>, good_spec\<lparr>ps_disk_gb := 129\<rparr>, good_spec\<lparr>ps_count := 9\<rparr>])"

definition test_gc_image_for_entry_owned_files_only :: bool where
  "test_gc_image_for_entry_owned_files_only
     = (gc_image_for_entry ''odoo-v18.ext4'' = Some ''odoo-v18''
        \<and> gc_image_for_entry ''odoo-v18.ext4.sha256'' = Some ''odoo-v18''
        \<and> gc_image_for_entry ''.odoo-v18.partial'' = Some ''odoo-v18''
        \<and> list_all (\<lambda>f. gc_image_for_entry f = None) [''notes.txt'', ''rootfs.ext4.bak'', ''.hidden'', ''ext4'', ''..%2Fetc.ext4'', ''.ext4''])"

definition test_pool_match_picks_only_matching_shape :: bool where
  "test_pool_match_picks_only_matching_shape
     = (let vms = [pooled_vm ''pool-1'' ''ubuntu-base'' 1 256 0, pooled_vm ''pool-2'' ''odoo-v18'' 2 2048 8]
        in find_pooled_match vms ''ubuntu-base'' None 1 256 0 = Some 0
           \<and> find_pooled_match vms ''odoo-v18'' None 2 2048 8 = Some 1
           \<and> find_pooled_match vms ''odoo-v18'' None 1 256 0 = None
           \<and> find_pooled_match vms ''ubuntu-base'' None 2 256 0 = None
           \<and> find_pooled_match vms ''ubuntu-base'' None 1 512 0 = None
           \<and> find_pooled_match vms ''ubuntu-base'' None 1 256 8 = None
           \<and> find_pooled_match vms ''docker-base'' None 2 2048 8 = None)"

definition test_pool_match_requires_same_sha :: bool where
  "test_pool_match_requires_same_sha
     = (let old_sha = replicate 64 (CHR ''a''); new_sha = replicate 64 (CHR ''b'');
            vms = [(pooled_vm ''pool-1'' ''odoo-v18'' 2 2048 8)\<lparr>v_image_sha256 := Some old_sha\<rparr>];
            bare = [pooled_vm ''pool-2'' ''odoo-v18'' 2 2048 8]
        in find_pooled_match vms ''odoo-v18'' (Some old_sha) 2 2048 8 = Some 0
           \<and> find_pooled_match vms ''odoo-v18'' (Some new_sha) 2 2048 8 = None
           \<and> find_pooled_match vms ''odoo-v18'' None 2 2048 8 = None
           \<and> find_pooled_match bare ''odoo-v18'' (Some old_sha) 2 2048 8 = None)"

definition test_pool_match_skips_non_pooled_states :: bool where
  "test_pool_match_skips_non_pooled_states
     = (find_pooled_match [(pooled_vm ''vm-1'' ''ubuntu-base'' 1 256 0)\<lparr>v_state := Running\<rparr>,
          (pooled_vm ''pool-x'' ''ubuntu-base'' 1 256 0)\<lparr>v_state := Errored\<rparr>,
          (pooled_vm ''pool-y'' ''ubuntu-base'' 1 256 0)\<lparr>v_state := Creating\<rparr>] ''ubuntu-base'' None 1 256 0 = None)"

definition test_pool_match_first_in_order_wins :: bool where
  "test_pool_match_first_in_order_wins
     = (find_pooled_match [pooled_vm ''pool-a'' ''ubuntu-base'' 1 256 0, pooled_vm ''pool-b'' ''ubuntu-base'' 1 256 0]
          ''ubuntu-base'' None 1 256 0 = Some 0)"

subsection \<open>Images\<close>

definition test_image_name_validation_table :: bool where
  "test_image_name_validation_table
     = (list_all valid_image_name [''ubuntu-base'', ''docker-base'', ''odoo-v18'', ''a.b-c_d'', ''a'', ''x0'']
        \<and> list_all (\<lambda>s. \<not> valid_image_name s) [[], ''..'', ''.hidden'', ''-x'', ''UPPER'', ''a/b'', ''a;b'', replicate 65 (CHR ''a''), ''a..b'',
          ''a b'', (''a'' @ [CHR 0x5C] @ ''b''), ''a\"b'', ''a$b'']
        \<and> valid_image_name (replicate 64 (CHR ''a'')))"

definition test_sha256_validation :: bool where
  "test_sha256_validation
     = (valid_sha256 (replicate 64 (CHR ''a''))
        \<and> valid_sha256 (concat (replicate 3 ''0123456789abcdef'') @ ''0123456789abcdef'')
        \<and> list_all (\<lambda>s. \<not> valid_sha256 s) [[], replicate 63 (CHR ''a''), replicate 65 (CHR ''a''), replicate 64 (CHR ''A''),
          replicate 63 (CHR ''a'') @ ''g''])"

definition test_decide_exists_no_sha_uses_existing :: bool where
  "test_decide_exists_no_sha_uses_existing
     = (fst (decide (demo_os None) ''/t/ubuntu-base.ext4'' None ''ubuntu-base'' ([''/t/ubuntu-base.ext4'' \<mapsto> ''img''])) = Inr UseExisting)"

definition test_decide_missing_with_sha_pulls :: bool where
  "test_decide_missing_with_sha_pulls
     = (fst (decide (demo_os None) ''/t/docker-base.ext4'' (Some (replicate 64 (CHR ''a''))) ''docker-base'' (Map.empty)) = Inr Pull)"

definition test_decide_missing_no_sha_is_err :: bool where
  "test_decide_missing_no_sha_is_err
     = (case fst (decide (demo_os None) ''/t/ghost.ext4'' None ''ghost'' Map.empty) of
          Inl err \<Rightarrow> contains_str ''image ghost not present'' err \<and> contains_str ''no sha256 provided'' err
        | Inr _ \<Rightarrow> False)"

definition test_decide_sidecar_without_image_pulls :: bool where
  "test_decide_sidecar_without_image_pulls
     = (fst (decide (demo_os None) ''/t/odoo-v18.ext4'' (Some (replicate 64 (CHR ''a''))) ''odoo-v18'' ([''/t/odoo-v18.ext4.sha256'' \<mapsto> replicate 64 (CHR ''a'') @ [CHR 0x0A]])) = Inr Pull)"

definition test_resize_target_zero_means_no_resize :: bool where
  "test_resize_target_zero_means_no_resize
     = (resize_target 0 999999999 = Inr None)"

definition test_resize_target_grow :: bool where
  "test_resize_target_grow
     = (resize_target 2 (1024 * 1024 * 1024) = Inr (Some (2 * (1024 * 1024 * 1024))))"

definition test_resize_target_equal_is_noop :: bool where
  "test_resize_target_equal_is_noop
     = (resize_target 2 (2 * (1024 * 1024 * 1024)) = Inr None)"

definition test_resize_target_shrink_rejected :: bool where
  "test_resize_target_shrink_rejected
     = (case resize_target 1 (2 * (1024 * 1024 * 1024)) of Inl err \<Rightarrow> contains_str ''disk shrink not supported'' err | Inr _ \<Rightarrow> False)"

definition test_build_download_config_shape :: bool where
  "test_build_download_config_shape
     = (let cfg = build_download_config ''http://hub:8080/api/v1/images/odoo-v18'' ''tok123'' ''/srv/ignis/images/.odoo-v18.partial''
        in contains_str ''url = \"http://hub:8080/api/v1/images/odoo-v18\"'' cfg
           \<and> contains_str ''header = \"Authorization: Bearer tok123\"'' cfg
           \<and> contains_str ''output = \"/srv/ignis/images/.odoo-v18.partial\"'' cfg
           \<and> contains_str ([CHR 0x0A] @ ''fail'' @ [CHR 0x0A]) cfg \<and> contains_str ''connect-timeout = 5'' cfg \<and> contains_str ''max-time = 1800'' cfg
           \<and> \<not> contains_str ''location'' cfg)"

lemma test_valid_vm_id_accepts_the_ids_we_actually_issue_holds: "test_valid_vm_id_accepts_the_ids_we_actually_issue"
  by code_simp

lemma test_valid_vm_id_rejects_traversal_holds: "test_valid_vm_id_rejects_traversal"
  by code_simp

lemma test_instance_path_refuses_to_leave_the_instances_dir_holds: "test_instance_path_refuses_to_leave_the_instances_dir"
  by code_simp

lemma test_fc_nic_mac_is_the_mac_the_tap_is_pinned_to_holds: "test_fc_nic_mac_is_the_mac_the_tap_is_pinned_to"
  by code_simp

lemma test_every_path_pins_a_slot_to_one_tap_and_one_mac_holds: "test_every_path_pins_a_slot_to_one_tap_and_one_mac"
  by code_simp

lemma test_fork_re_mac_targets_the_pinned_mac_holds: "test_fork_re_mac_targets_the_pinned_mac"
  by code_simp

lemma test_taps_to_repin_covers_every_adopted_live_guest_holds: "test_taps_to_repin_covers_every_adopted_live_guest"
  by code_simp

lemma test_list_json_escapes_a_forging_name_holds: "test_list_json_escapes_a_forging_name"
  by code_simp

lemma test_list_json_escapes_control_characters_in_id_and_name_holds: "test_list_json_escapes_control_characters_in_id_and_name"
  by code_simp

lemma test_pool_spec_validation_accepts_good_holds: "test_pool_spec_validation_accepts_good"
  by (simp add: test_pool_spec_validation_accepts_good_def good_spec_def validate_pool_spec_def spec_names is_err_def)

lemma test_pool_spec_validation_rejects_bad_holds: "test_pool_spec_validation_rejects_bad"
  by (simp add: test_pool_spec_validation_rejects_bad_def good_spec_def validate_pool_spec_def spec_names is_err_def)

lemma test_gc_image_for_entry_owned_files_only_holds: "test_gc_image_for_entry_owned_files_only"
  by code_simp

lemma test_pool_match_picks_only_matching_shape_holds: "test_pool_match_picks_only_matching_shape"
  by code_simp

lemma test_pool_match_requires_same_sha_holds: "test_pool_match_requires_same_sha"
  by code_simp

lemma test_pool_match_skips_non_pooled_states_holds: "test_pool_match_skips_non_pooled_states"
  by code_simp

lemma test_pool_match_first_in_order_wins_holds: "test_pool_match_first_in_order_wins"
  by code_simp

lemma test_image_name_validation_table_holds: "test_image_name_validation_table"
  by code_simp

lemma test_sha256_validation_holds: "test_sha256_validation"
  by code_simp

lemma test_decide_exists_no_sha_uses_existing_holds: "test_decide_exists_no_sha_uses_existing"
  by code_simp

lemma test_decide_missing_with_sha_pulls_holds: "test_decide_missing_with_sha_pulls"
  by code_simp

lemma test_decide_missing_no_sha_is_err_holds: "test_decide_missing_no_sha_is_err"
  by code_simp

lemma test_decide_sidecar_without_image_pulls_holds: "test_decide_sidecar_without_image_pulls"
  by code_simp

lemma test_resize_target_zero_means_no_resize_holds: "test_resize_target_zero_means_no_resize"
  by (simp add: test_resize_target_zero_means_no_resize_def resize_target_def)

lemma test_resize_target_grow_holds: "test_resize_target_grow"
  by (simp add: test_resize_target_grow_def resize_target_def)

lemma test_resize_target_equal_is_noop_holds: "test_resize_target_equal_is_noop"
  by (simp add: test_resize_target_equal_is_noop_def resize_target_def)

lemma test_resize_target_shrink_rejected_holds: "test_resize_target_shrink_rejected"
  by (simp add: test_resize_target_shrink_rejected_def resize_target_def starts_with_def)

lemma test_build_download_config_shape_holds: "test_build_download_config_shape"
  by code_simp

end
