(* ===== verification/Unit_Tests.thy ===== *)
theory Unit_Tests
  imports Unit_Tests_Meta Unit_Tests_Net Unit_Tests_Vm
begin

text \<open>
  The unit tests of the repository that are run on the model, together.
\<close>

definition tests_meta :: "bool list" where
  "tests_meta
     = [test_meta_json_round_trip_sleeping,
        test_explicit_nulls_in_to_json,
        test_key_order_in_to_json,
        test_key_order_with_tenant_id,
        test_state_strings,
        test_parse_zig_fixture_slot3_ip_matches_slot,
        test_old_meta_without_vsock_parses_false,
        test_vsock_round_trip_true,
        test_vsock_false_serializes_explicit,
        test_tenant_id_serialized_when_some,
        test_tenant_id_absent_when_none,
        test_old_meta_without_tenant_parses_none,
        test_old_meta_without_exposes_parses_empty,
        test_exposes_absent_when_empty,
        test_default_image_serializes_byte_identical_to_pre_p4,
        test_image_sha256_absent_when_none_and_pre_p4_parse,
        test_tenant_id_round_trip,
        test_image_sha256_round_trip_and_order]"

definition tests_net :: "bool list" where
  "tests_net
     = [test_cidr_parse_and_host_addressing,
        test_slot_ip_math_10_231_0_0_24,
        test_allocator_sequential_and_reuse,
        test_reserve_marks_slot_used,
        test_isolation_ruleset_is_one_transaction_with_the_drop_rule,
        test_isolation_ruleset_chain_policy_is_drop,
        test_isolation_ruleset_has_no_conntrack_shortcut,
        test_isolation_ruleset_accepts_traffic_that_is_not_guest_to_guest,
        test_guest_input_ruleset_default_drops_guest_to_host,
        test_guest_input_ruleset_leaves_non_guest_traffic_alone,
        test_bridge_l2_ruleset_drops_non_ipv4_between_guests,
        test_bridge_l2_ruleset_only_polices_our_bridge,
        test_guest_mac_has_no_empty_inhabitant,
        test_antispoof_ruleset_pins_ip_mac_and_arp,
        test_antispoof_ruleset_pins_the_arp_sender_hardware_address,
        test_antispoof_ruleset_rejects_bad_inputs,
        test_antispoof_chain_is_per_tap,
        test_valid_ifname,
        test_tenant_pair_elements_pairs_same_tenant_both_ways,
        test_tenant_pair_elements_rejects_unparseable_ip,
        test_tenant_pair_elements_isolates_invalid_tenant,
        test_ingress_rule_parts_rejects_non_ip,
        test_build_boot_source_with_net_and_ip,
        test_build_boot_source_without_net,
        test_build_boot_source_net_on_no_ip,
        test_build_network_interface_pins_the_guest_mac,
        test_build_network_interface_always_carries_a_mac,
        test_build_snapshot_create,
        test_build_snapshot_load_with_network,
        test_build_snapshot_load_without_network,
        test_build_snapshot_load_net_on_no_slot,
        test_build_vsock,
        test_build_snapshot_load_with_vsock_override,
        test_build_snapshot_load_vsock_override_no_net]"

definition tests_vm :: "bool list" where
  "tests_vm
     = [test_valid_vm_id_accepts_the_ids_we_actually_issue,
        test_valid_vm_id_rejects_traversal,
        test_instance_path_refuses_to_leave_the_instances_dir,
        test_fc_nic_mac_is_the_mac_the_tap_is_pinned_to,
        test_every_path_pins_a_slot_to_one_tap_and_one_mac,
        test_fork_re_mac_targets_the_pinned_mac,
        test_taps_to_repin_covers_every_adopted_live_guest,
        test_list_json_escapes_a_forging_name,
        test_list_json_escapes_control_characters_in_id_and_name,
        test_pool_spec_validation_accepts_good,
        test_pool_spec_validation_rejects_bad,
        test_gc_image_for_entry_owned_files_only,
        test_pool_match_picks_only_matching_shape,
        test_pool_match_requires_same_sha,
        test_pool_match_skips_non_pooled_states,
        test_pool_match_first_in_order_wins,
        test_image_name_validation_table,
        test_sha256_validation,
        test_decide_exists_no_sha_uses_existing,
        test_decide_missing_with_sha_pulls,
        test_decide_missing_no_sha_is_err,
        test_decide_sidecar_without_image_pulls,
        test_resize_target_zero_means_no_resize,
        test_resize_target_grow,
        test_resize_target_equal_is_noop,
        test_resize_target_shrink_rejected,
        test_build_download_config_shape]"

lemma tests_meta_hold: "list_all (\<lambda>t. t) tests_meta"
  by (simp add: tests_meta_def
      test_meta_json_round_trip_sleeping_holds
      test_explicit_nulls_in_to_json_holds
      test_key_order_in_to_json_holds
      test_key_order_with_tenant_id_holds
      test_state_strings_holds
      test_parse_zig_fixture_slot3_ip_matches_slot_holds
      test_old_meta_without_vsock_parses_false_holds
      test_vsock_round_trip_true_holds
      test_vsock_false_serializes_explicit_holds
      test_tenant_id_serialized_when_some_holds
      test_tenant_id_absent_when_none_holds
      test_old_meta_without_tenant_parses_none_holds
      test_old_meta_without_exposes_parses_empty_holds
      test_exposes_absent_when_empty_holds
      test_default_image_serializes_byte_identical_to_pre_p4_holds
      test_image_sha256_absent_when_none_and_pre_p4_parse_holds
      test_tenant_id_round_trip_holds
      test_image_sha256_round_trip_and_order_holds)

lemma tests_net_hold: "list_all (\<lambda>t. t) tests_net"
  by (simp add: tests_net_def
      test_cidr_parse_and_host_addressing_holds
      test_slot_ip_math_10_231_0_0_24_holds
      test_allocator_sequential_and_reuse_holds
      test_reserve_marks_slot_used_holds
      test_isolation_ruleset_is_one_transaction_with_the_drop_rule_holds
      test_isolation_ruleset_chain_policy_is_drop_holds
      test_isolation_ruleset_has_no_conntrack_shortcut_holds
      test_isolation_ruleset_accepts_traffic_that_is_not_guest_to_guest_holds
      test_guest_input_ruleset_default_drops_guest_to_host_holds
      test_guest_input_ruleset_leaves_non_guest_traffic_alone_holds
      test_bridge_l2_ruleset_drops_non_ipv4_between_guests_holds
      test_bridge_l2_ruleset_only_polices_our_bridge_holds
      test_guest_mac_has_no_empty_inhabitant_holds
      test_antispoof_ruleset_pins_ip_mac_and_arp_holds
      test_antispoof_ruleset_pins_the_arp_sender_hardware_address_holds
      test_antispoof_ruleset_rejects_bad_inputs_holds
      test_antispoof_chain_is_per_tap_holds
      test_valid_ifname_holds
      test_tenant_pair_elements_pairs_same_tenant_both_ways_holds
      test_tenant_pair_elements_rejects_unparseable_ip_holds
      test_tenant_pair_elements_isolates_invalid_tenant_holds
      test_ingress_rule_parts_rejects_non_ip_holds
      test_build_boot_source_with_net_and_ip_holds
      test_build_boot_source_without_net_holds
      test_build_boot_source_net_on_no_ip_holds
      test_build_network_interface_pins_the_guest_mac_holds
      test_build_network_interface_always_carries_a_mac_holds
      test_build_snapshot_create_holds
      test_build_snapshot_load_with_network_holds
      test_build_snapshot_load_without_network_holds
      test_build_snapshot_load_net_on_no_slot_holds
      test_build_vsock_holds
      test_build_snapshot_load_with_vsock_override_holds
      test_build_snapshot_load_vsock_override_no_net_holds)

lemma tests_vm_hold: "list_all (\<lambda>t. t) tests_vm"
  by (simp add: tests_vm_def
      test_valid_vm_id_accepts_the_ids_we_actually_issue_holds
      test_valid_vm_id_rejects_traversal_holds
      test_instance_path_refuses_to_leave_the_instances_dir_holds
      test_fc_nic_mac_is_the_mac_the_tap_is_pinned_to_holds
      test_every_path_pins_a_slot_to_one_tap_and_one_mac_holds
      test_fork_re_mac_targets_the_pinned_mac_holds
      test_taps_to_repin_covers_every_adopted_live_guest_holds
      test_list_json_escapes_a_forging_name_holds
      test_list_json_escapes_control_characters_in_id_and_name_holds
      test_pool_spec_validation_accepts_good_holds
      test_pool_spec_validation_rejects_bad_holds
      test_gc_image_for_entry_owned_files_only_holds
      test_pool_match_picks_only_matching_shape_holds
      test_pool_match_requires_same_sha_holds
      test_pool_match_skips_non_pooled_states_holds
      test_pool_match_first_in_order_wins_holds
      test_image_name_validation_table_holds
      test_sha256_validation_holds
      test_decide_exists_no_sha_uses_existing_holds
      test_decide_missing_with_sha_pulls_holds
      test_decide_missing_no_sha_is_err_holds
      test_decide_sidecar_without_image_pulls_holds
      test_resize_target_zero_means_no_resize_holds
      test_resize_target_grow_holds
      test_resize_target_equal_is_noop_holds
      test_resize_target_shrink_rejected_holds
      test_build_download_config_shape_holds)


end
