(* ===== verification/Spec2Isabelle.thy ===== *)
theory Spec2Isabelle
  imports Felucca_Prelude Rust_Str Ipalloc Utf8 Guest_Exec Guest_Netcfg Guest_Protocol Nft_Rules Net
    Json_Text Vm_Meta Os Vm_Image Fc_Api Guest_Client Vm_Records Vm_Manager Vm_Reconcile Vm_Core Vm_Invariant Vm_Reach
    Vm_Demo Vm_Loops Vm_Gaps Vm_Props Agent_Config Registration Wg Server Agent_Boot End_To_End
    Interleave Vm_Atomic Vm_Interleave Guest_Main Unit_Tests_Base Unit_Tests_Meta Unit_Tests_Net Unit_Tests_Vm Unit_Tests
begin

text \<open>
  \<^bold>\<open>Felucca: verification of the Rust node agent and guest agent.\<close>

  \<^bold>\<open>The program.\<close>  A node agent (\<open>rust/agent/src\<close>) keeps Firecracker machines for several tenants on
  one host.  It reads its configuration, may enrol in a WireGuard overlay, puts up network fences,
  adopts the machines of an earlier run, registers with a control plane, and then serves a REST
  API.  Inside each machine a guest agent (\<open>rust/guest/src\<close>) runs commands and sets addresses for the
  node, over a vsock connection with one JSON document per line.

  \<^bold>\<open>How it is modelled.\<close>  Rust strings and byte buffers are lists of bytes, integers are words of their
  width, fallible functions return a sum with the message on the left, and \<open>?\<close> is \<open>attempt\<close>.  State that
  the code shares behind locks or statics is passed explicitly.  The operating system, the tools it
  runs (\<open>nft\<close>, \<open>ip\<close>, \<open>curl\<close>, \<open>wg\<close> and others) and \<open>serde_json\<close> are not code of the repository: they are records
  of functions on an arbitrary world, \<open>'w sys\<close>, \<open>'w os\<close> and \<open>'w nodeos\<close>, and a theorem that needs a law of
  them has it as a hypothesis, with a concrete system as its witness.  \<open>logged\<close> turns a system into one
  that also records its effects, for statements on which commands ran and in which order.

  \<^bold>\<open>Theories and sources.\<close>
  \<^item> \<open>Felucca_Prelude\<close>, \<open>Rust_Str\<close>, \<open>Utf8\<close>, \<open>Json_Text\<close>, \<open>Os\<close>: the standard library as the code uses it,
    number and address texts, UTF-8 with its lossy decoding, a JSON printer and parser with
    their round trip, and the interface to the system.
  \<^item> \<open>Ipalloc\<close>: \<open>ipalloc.rs\<close>.  A claimed address is fresh, inside the network and not reserved.
  \<^item> \<open>Nft_Rules\<close>, \<open>Net\<close>: \<open>net.rs\<close>.  The texts of the rulesets, rules as data with a first-match reading,
    the proof that the texts are the printed rules, and the functions that install them.  The chains
    separate tenants and pin addresses; the readiness flags mean that the kernel accepted the fences.
  \<^item> \<open>Vm_Meta\<close>, \<open>Vm_Image\<close>, \<open>Fc_Api\<close>, \<open>Guest_Client\<close>: \<open>vm/meta.rs\<close>, \<open>vm/image.rs\<close>, \<open>fc.rs\<close>, \<open>guestclient.rs\<close>.
    Round trip of the metadata, verified images, request bodies that read back as the intended
    JSON, and responses that do not depend on how reads are split.
  \<^item> \<open>Vm_Records\<close>, \<open>Vm_Manager\<close>, \<open>Vm_Reconcile\<close>: \<open>vm/mod.rs\<close>, \<open>vm/pool.rs\<close>, \<open>vm/reconcile.rs\<close>.  The pure part of
    the manager, every operation of \<open>Manager\<close> as a step on one state, and adoption after a restart.
  \<^item> \<open>Vm_Core\<close>, \<open>Vm_Invariant\<close>, \<open>Vm_Reach\<close>, \<open>Vm_Props\<close>: the part of the state that the invariant is about, its
    preservation by every operation, reachability (\<open>reach\<close>), and what holds in every reachable state.
  \<^item> \<open>Vm_Loops\<close>, \<open>Vm_Gaps\<close>, \<open>Vm_Demo\<close>: termination of the waits and of the refill; two places where the
    manager does less than its comments promise; a concrete system for witnesses.
  \<^item> \<open>Interleave\<close>, \<open>Vm_Atomic\<close>, \<open>Vm_Interleave\<close>: \<open>vm/mod.rs\<close> again, at the grain of its lock.  Programs whose steps are
    the sections under the lock and the calls between them; run alone they are the operations of
    \<open>Vm_Manager\<close>.  Interleaved without bound they keep network identities apart, if a deletion is
    one step; two runs show what goes wrong between the sections of a deletion and of a start.
  \<^item> \<open>Agent_Config\<close>, \<open>Registration\<close>, \<open>Wg\<close>: \<open>config.rs\<close>, \<open>registration.rs\<close>, \<open>wg.rs\<close>.  Configuration layers, exact
    authorisation, credentials and enrolments that are saved whole or not at all, the shared token
    that is withheld once the node has its own, and commands of plain words only.
  \<^item> \<open>Server\<close>: \<open>server.rs\<close>.  Router, gate, handlers and response streams; \<open>serving\<close> is the step relation of
    a node at work, and it refines \<open>reach\<close>.
  \<^item> \<open>Agent_Boot\<close>: \<open>main.rs\<close>.  The start, which succeeds only behind fences and a usable credential.
  \<^item> \<open>Guest_Exec\<close>, \<open>Guest_Netcfg\<close>, \<open>Guest_Protocol\<close>: \<open>exec.rs\<close>, \<open>netcfg.rs\<close>, \<open>protocol.rs\<close> of the guest.  \<open>Guest_Main\<close>: its
    \<open>vsock.rs\<close> and \<open>main.rs\<close> over the C library, with the descriptors that are opened and closed.
  \<^item> \<open>Unit_Tests\<close> and the theories it imports: unit tests of the repository, run on the model.
  \<^item> \<open>End_To_End\<close>: the two agents together.  This theory: tenants are separated from the start on.

  \<^bold>\<open>Interfaces.\<close>  Locales state what one component relies on of another; each is interpreted on the
  definitions of the component that provides it.  \<open>resources\<close> of \<open>Interleave\<close> is what programs that share a
  state need of an invariant over resources under way; \<open>flight\<close> interprets it on the slots of the manager.

  \<^bold>\<open>Bounds.\<close>  \<open>trim_fuel\<close> drops a byte in every round, so the length is enough; \<open>parse_json\<close> runs with one more
  than the length of its text, which is enough for every printed document (\<open>fuel_le_length\<close>).  The poll
  for a socket has 61 rounds and the wait of a stop 101 (\<open>await_socket_enough\<close>, \<open>stop_wait_enough\<close>); the
  refill has one round more than the count asked for (\<open>refill_loop_enough\<close>).  In the interleaved
  model it has any number of rounds more.  The bind loop of the guest and \<open>write_all\<close> have no bound: they are partial
  functions.  Reads from a connection are a finite list of outcomes, and the theorems hold for every such list.

  \<^bold>\<open>What is coarser than the code.\<close>  In \<open>reach\<close> and \<open>serving\<close> an operation of the manager runs to its end
  before the next one starts, while the code releases its lock between steps; the exit of a
  process, the background rounds and changes of the outside world are steps of their own.  The
  relation \<open>conc\<close> has the interleavings of the code; there the refresh of a ruleset, which the code
  serialises by a lock of its own, is one step.  A request that detaches its work (create and fork) is answered after
  that work.  The 30 seconds of an enrolment and the deadline of a stream are flags.  JSON numbers
  are integers, and the array form in which \<open>serde\<close> also accepts a record is left out.  A HEAD request
  is served as GET.

  \<^bold>\<open>Not modelled.\<close>  The guest's \<open>lib.rs\<close> (module declarations).  Log lines, the request identifier that
  only they use, and the set-up of logging.  The endless form of the background loops with their
  sleeps, and of the guest's accept loop: the model has rounds of them.  The semaphore that bounds
  concurrent calls to guests, the locks of single images, task scheduling and poisoned locks.  Unit tests that need
  a server, a socket, a clock or files.
\<close>

subsection \<open>Tenants stay apart from the start of the process on\<close>

lemma held_unique:
  assumes "distinct (held vms)" "u \<in> set vms" "v \<in> set vms" "v_slot u = Some s" "v_slot v = Some s"
  shows "u = v"
proof -
  obtain i j where ij: "i < length vms" "j < length vms" "u = vms ! i" "v = vms ! j"
    using assms(2,3) by (auto simp: in_set_conv_nth)
  then show ?thesis
    using held_nth_distinct [OF assms(1), of i j s s] held_nth_distinct [OF assms(1), of j i s s] assms(4,5)
    by (cases i j rule: linorder_cases) auto
qed

lemma boot_cidr_wf: "wf_cidr (boot_cidr cfg)"
proof (cases "Cidr_parse (c_net_cidr cfg)")
  case None
  have "Cidr_parse ''10.231.0.0/24'' \<noteq> None" by code_simp
  then obtain c where c: "Cidr_parse ''10.231.0.0/24'' = Some c" by auto
  then show ?thesis using None Cidr_parse_wf [OF c] by (simp add: boot_cidr_def unwrap_or_def)
next
  case (Some c)
  then show ?thesis using Cidr_parse_wf [OF Some] by (simp add: boot_cidr_def unwrap_or_def)
qed

lemma isolation_member:
  assumes "slots_inv c vms (Some al)" "(t, x) \<in> set (isolation_members vms)" "valid_tenant t"
  obtains v s where "v \<in> set vms" "v_slot v = Some s" "x = fmt_ip (host_at c s)" "v_tenant_id v = Some t"
proof -
  obtain v ip where v: "v \<in> set vms" "v_ip v = Some x" "t = (case v_tenant_id v of Some t \<Rightarrow> t | None \<Rightarrow> [])"
    using assms(2) by (auto simp: isolation_members_def set_map_filter)
  have "v_tenant_id v = Some t"
    using v(3) assms(3) by (auto simp: valid_tenant_def split: option.splits)
  moreover obtain s where "v_slot v = Some s" "x = fmt_ip (host_at c s)"
    using assms(1) v(1,2) by (auto simp: slots_inv_Some)
  ultimately show ?thesis using that v(1) by blast
qed

lemma same_tenant_members:
  assumes "wf_cidr c" "slots_inv c vms (Some al)" "same_tenant (isolation_members vms) (host_at c a) (host_at c d)"
    and "u \<in> set vms" "v \<in> set vms" "v_slot u = Some a" "v_slot v = Some d"
  shows "\<exists>t. valid_tenant t \<and> v_tenant_id u = Some t \<and> v_tenant_id v = Some t"
proof -
  have lt: "s < host_count c" if "w \<in> set vms" "v_slot w = Some s" for w s
    using assms(2) that slots.used_cap [of al s] in_held [of s vms]
    by (auto simp: slots_inv_Some word_less_nat_alt)
  obtain t x y where t: "valid_tenant t" "(t, x) \<in> set (isolation_members vms)" "(t, y) \<in> set (isolation_members vms)"
      "ipv4_from_str x = Some (host_at c a)" "ipv4_from_str y = Some (host_at c d)"
    using assms(3) by (auto simp: same_tenant_def)
  have "v_tenant_id w = Some t"
    if m: "(t, z) \<in> set (isolation_members vms)" "ipv4_from_str z = Some (host_at c s)" "w \<in> set vms" "v_slot w = Some s" for z s w
  proof -
    obtain w' s' where w': "w' \<in> set vms" "v_slot w' = Some s'" "z = fmt_ip (host_at c s')" "v_tenant_id w' = Some t"
      using isolation_member [OF assms(2) m(1) t(1)] .
    have "host_at c s' = host_at c s" using m(2) w'(3) by simp
    then have "s' = s" using host_at_inj [OF assms(1) lt [OF w'(1,2)] lt [OF m(3,4)]] by simp
    then show ?thesis using held_unique [of vms w' w s] assms(2) w' m by (simp add: slots_inv_Some)
  qed
  then show ?thesis using t assms(4-7) by blast
qed


definition calm_pair :: "unit AppState" where
  "calm_pair = calm_started\<lparr>ap_mgr := (ap_mgr calm_started)
     \<lparr>mg_vms := [built_vm (calm_spec ''a'' ''acme'') Running 7 0 calm_cidr, built_vm (calm_spec ''b'' ''acme'') Running 7 1 calm_cidr],
      mg_allocator := Some \<lparr>alloc_cidr = calm_cidr, alloc_used = [True, True, False, False, False]\<rparr>\<rparr>\<rparr>"

lemma calm_pair_serving: "serving (calm_node (Inr (Some 7))) Some calm_started calm_pair"
proof -
  let ?no = "calm_node (Inr (Some 7))" and ?os = "calm_os (Inr (Some 7))"
  have v: "valid_vm_id ''a''" "valid_vm_id ''b''" by code_simp+
  have cl: "alloc_claim \<lparr>alloc_cidr = calm_cidr, alloc_used = [False, False, False, False, False]\<rparr>
        = (Some 0, \<lparr>alloc_cidr = calm_cidr, alloc_used = [True, False, False, False, False]\<rparr>)"
      "alloc_claim \<lparr>alloc_cidr = calm_cidr, alloc_used = [True, False, False, False, False]\<rparr>
        = (Some 1, \<lparr>alloc_cidr = calm_cidr, alloc_used = [True, True, False, False, False]\<rparr>)"
    by (simp_all add: alloc_claim_def)
  define mg1 where "mg1 = (ap_mgr calm_started)\<lparr>mg_vms := [built_vm (calm_spec ''a'' ''acme'') Running 7 0 calm_cidr],
      mg_allocator := Some \<lparr>alloc_cidr = calm_cidr, alloc_used = [True, False, False, False, False]\<rparr>\<rparr>"
  have c1: "create ?os (calm_spec ''a'' ''acme'') (ap_mgr calm_started) = (Inr (), mg1)"
    by (subst calm_create [OF _ _ cl(1)])
      (simp_all add: calm_started_def calm_boot_def manager_new_def calm_spec_def v up_host_def mg1_def)
  have c2: "create ?os (calm_spec ''b'' ''acme'') mg1 = (Inr (), ap_mgr calm_pair)"
    by (subst calm_create [OF _ _ cl(2)])
      (simp_all add: calm_started_def calm_boot_def manager_new_def calm_spec_def v up_host_def mg1_def built_vm_def new_vm_def
        calm_pair_def)
  have "snd (serve ?no Some (create_request ''a'') calm_started) = calm_started\<lparr>ap_mgr := mg1\<rparr>"
    by (rule calm_create_request [OF _ _ c1]) (simp_all add: calm_started_def)
  then have s1: "serving ?no Some calm_started (calm_started\<lparr>ap_mgr := mg1\<rparr>)"
    by (metis serving_refl serving_request)
  have "snd (serve ?no Some (create_request ''b'') (calm_started\<lparr>ap_mgr := mg1\<rparr>)) = calm_started\<lparr>ap_mgr := mg1\<rparr>\<lparr>ap_mgr := ap_mgr calm_pair\<rparr>"
    by (rule calm_create_request) (simp_all add: calm_started_def c2)
  also have "\<dots> = calm_pair" by (simp add: calm_pair_def)
  finally show ?thesis using serving_request [OF s1, of "create_request ''b''"] by simp
qed


end
